(* ===== verification/Ebbtf_Prelude.thy ===== *)
theory Ebbtf_Prelude
  imports Main "HOL-Library.Word"
begin

unbundle bit_operations_syntax

text \<open>
  Shared vocabulary of the development: the machine types of the 32-bit ARM targets
  (BeagleBone Black, Raspberry Pi 2), C strings, and the generic facts on lists, options
  and words that the component theories use.

  A C string is a \<^typ>\<open>string\<close>: the characters before the terminating NUL. A pointer into
  a C string is the suffix of the string it points to, so advancing a pointer drops
  characters, and \<open>ch_at s i\<close> is \<open>s[i]\<close>, where position \<open>length s\<close> holds the NUL.
  \<open>char\<close> is unsigned on ARM.
\<close>

named_theorems ebbtf_simps \<open>equations that the component proofs share\<close>
named_theorems bounds_simps \<open>bounds on lengths and machine integers\<close>

type_synonym u8 = "8 word"
type_synonym u16 = "16 word"
type_synonym u32 = "32 word"
type_synonym u64 = "64 word"
type_synonym ulong = "32 word"

abbreviation NUL :: char where
  "NUL \<equiv> CHR 0x00"

abbreviation newline :: char where
  "newline \<equiv> CHR 0x0A"

text \<open>A character as the byte that C computes with, and back.\<close>

abbreviation byte_of :: "char \<Rightarrow> u8" where
  "byte_of c \<equiv> of_char c"

definition chr_of :: "u8 \<Rightarrow> char" where
  "chr_of w = char_of (unat w)"

definition ch_at :: "string \<Rightarrow> nat \<Rightarrow> char" where
  "ch_at s i = (if i < length s then s ! i else NUL)"

text \<open>The string that a buffer of characters holds: everything before its first NUL.\<close>

definition cstr :: "string \<Rightarrow> string" where
  "cstr b = takeWhile (\<lambda>c. c \<noteq> NUL) b"

text \<open>A list of characters is a proper C string when no NUL occurs in it.\<close>

definition no_nul :: "string \<Rightarrow> bool" where
  "no_nul s \<longleftrightarrow> NUL \<notin> set s"

subsection \<open>Characters and strings\<close>

lemma ch_at_Nil [simp]: "ch_at [] i = NUL"
  by (simp add: ch_at_def)

lemma ch_at_Cons_0 [simp]: "ch_at (c # s) 0 = c"
  by (simp add: ch_at_def)

lemma ch_at_Cons_Suc [simp]: "ch_at (c # s) (Suc i) = ch_at s i"
  by (simp add: ch_at_def)

lemma ch_at_numeral [simp]: "ch_at (c # s) (numeral n) = ch_at s (pred_numeral n)"
  by (simp add: ch_at_def numeral_eq_Suc)

lemma ch_at_one [simp]: "ch_at (c # s) 1 = ch_at s 0"
  by (simp add: ch_at_def)

lemma no_nul_Nil [simp]: "no_nul []"
  by (simp add: no_nul_def)

lemma no_nul_Cons [simp]: "no_nul (c # s) \<longleftrightarrow> c \<noteq> NUL \<and> no_nul s"
  by (auto simp: no_nul_def)

lemma no_nul_append [simp]: "no_nul (s @ t) \<longleftrightarrow> no_nul s \<and> no_nul t"
  by (auto simp: no_nul_def)

lemma no_nul_take: "no_nul s \<Longrightarrow> no_nul (take n s)"
  by (auto simp: no_nul_def dest: in_set_takeD)

lemma no_nul_drop: "no_nul s \<Longrightarrow> no_nul (drop n s)"
  by (auto simp: no_nul_def dest: in_set_dropD)

lemma cstr_append_NUL [simp]: "no_nul s \<Longrightarrow> cstr (s @ NUL # t) = s"
  by (induction s) (auto simp: cstr_def)

lemma cstr_no_nul [simp]: "no_nul s \<Longrightarrow> cstr s = s"
  by (induction s) (auto simp: cstr_def)

lemma no_nul_cstr [simp]: "no_nul (cstr b)"
  by (auto simp: no_nul_def cstr_def dest: set_takeWhileD)

lemma of_char_lt_256 [bounds_simps]: "(of_char c :: nat) < 256"
  by (rule nat_of_char_less_256)

lemma unat_byte_of [simp]: "unat (byte_of c) = of_char c"
proof -
  have "byte_of c = of_nat (of_char c)"
    by (rule of_nat_of_char [symmetric])
  then show ?thesis by (simp only: unat_of_nat) simp
qed

lemma chr_of_byte_of [simp]: "chr_of (byte_of c) = c"
  by (simp add: chr_of_def)

lemma of_char_word: "(of_char c :: 'a::len word) = of_nat (of_char c)"
  by (rule of_nat_of_char [symmetric])

lemma of_nat_less_word:
  "a < 2 ^ LENGTH('a) \<Longrightarrow> b < 2 ^ LENGTH('a) \<Longrightarrow>
   (of_nat a :: 'a::len word) < of_nat b \<longleftrightarrow> a < b"
  by (simp add: word_less_nat_alt unat_of_nat)

lemma bit_less_power:
  fixes w :: "'a :: len word"
  assumes "unat w < 2 ^ n" "bit w k"
  shows "k < n"
proof (rule ccontr)
  assume "\<not> k < n"
  then have "(2 :: nat) ^ n \<le> 2 ^ k" by (intro power_increasing) simp_all
  with assms(1) have "unat w < 2 ^ k" by (rule order_less_le_trans)
  moreover have "bit (unat w) k" using assms(2) by (simp add: bit_unsigned_iff)
  ultimately show False by (simp add: bit_iff_odd)
qed

end
