(* ===== verification/Ctype.thy ===== *)
theory Ctype
  imports Ebbtf_Prelude
begin

text \<open>
  Character classification: \<^verbatim>\<open>u-boot/lib/ctype.c\<close> (the table \<open>_ctype\<close>) and
  \<^verbatim>\<open>u-boot/include/linux/ctype.h\<close> (the macros over it). The table is kept as the source has
  it, a list of 256 flag bytes; the lemmas say which characters each macro accepts.
\<close>

subsection \<open>The flag bits and the table\<close>

abbreviation ct_U :: u8 where "ct_U \<equiv> 0x01"
abbreviation ct_L :: u8 where "ct_L \<equiv> 0x02"
abbreviation ct_D :: u8 where "ct_D \<equiv> 0x04"
abbreviation ct_C :: u8 where "ct_C \<equiv> 0x08"
abbreviation ct_P :: u8 where "ct_P \<equiv> 0x10"
abbreviation ct_S :: u8 where "ct_S \<equiv> 0x20"
abbreviation ct_X :: u8 where "ct_X \<equiv> 0x40"
abbreviation ct_SP :: u8 where "ct_SP \<equiv> 0x80"

definition ctype_tab :: "u8 list" where
  "ctype_tab = [
   ct_C, ct_C, ct_C, ct_C, ct_C, ct_C, ct_C, ct_C,
   ct_C, ct_C OR ct_S, ct_C OR ct_S, ct_C OR ct_S, ct_C OR ct_S, ct_C OR ct_S, ct_C, ct_C,
   ct_C, ct_C, ct_C, ct_C, ct_C, ct_C, ct_C, ct_C,
   ct_C, ct_C, ct_C, ct_C, ct_C, ct_C, ct_C, ct_C,
   ct_S OR ct_SP, ct_P, ct_P, ct_P, ct_P, ct_P, ct_P, ct_P,
   ct_P, ct_P, ct_P, ct_P, ct_P, ct_P, ct_P, ct_P,
   ct_D, ct_D, ct_D, ct_D, ct_D, ct_D, ct_D, ct_D,
   ct_D, ct_D, ct_P, ct_P, ct_P, ct_P, ct_P, ct_P,
   ct_P, ct_U OR ct_X, ct_U OR ct_X, ct_U OR ct_X, ct_U OR ct_X, ct_U OR ct_X, ct_U OR ct_X, ct_U,
   ct_U, ct_U, ct_U, ct_U, ct_U, ct_U, ct_U, ct_U,
   ct_U, ct_U, ct_U, ct_U, ct_U, ct_U, ct_U, ct_U,
   ct_U, ct_U, ct_U, ct_P, ct_P, ct_P, ct_P, ct_P,
   ct_P, ct_L OR ct_X, ct_L OR ct_X, ct_L OR ct_X, ct_L OR ct_X, ct_L OR ct_X, ct_L OR ct_X, ct_L,
   ct_L, ct_L, ct_L, ct_L, ct_L, ct_L, ct_L, ct_L,
   ct_L, ct_L, ct_L, ct_L, ct_L, ct_L, ct_L, ct_L,
   ct_L, ct_L, ct_L, ct_P, ct_P, ct_P, ct_P, ct_C,
   0, 0, 0, 0, 0, 0, 0, 0,
   0, 0, 0, 0, 0, 0, 0, 0,
   0, 0, 0, 0, 0, 0, 0, 0,
   0, 0, 0, 0, 0, 0, 0, 0,
   ct_S OR ct_SP, ct_P, ct_P, ct_P, ct_P, ct_P, ct_P, ct_P,
   ct_P, ct_P, ct_P, ct_P, ct_P, ct_P, ct_P, ct_P,
   ct_P, ct_P, ct_P, ct_P, ct_P, ct_P, ct_P, ct_P,
   ct_P, ct_P, ct_P, ct_P, ct_P, ct_P, ct_P, ct_P,
   ct_U, ct_U, ct_U, ct_U, ct_U, ct_U, ct_U, ct_U,
   ct_U, ct_U, ct_U, ct_U, ct_U, ct_U, ct_U, ct_U,
   ct_U, ct_U, ct_U, ct_U, ct_U, ct_U, ct_U, ct_P,
   ct_U, ct_U, ct_U, ct_U, ct_U, ct_U, ct_U, ct_L,
   ct_L, ct_L, ct_L, ct_L, ct_L, ct_L, ct_L, ct_L,
   ct_L, ct_L, ct_L, ct_L, ct_L, ct_L, ct_L, ct_L,
   ct_L, ct_L, ct_L, ct_L, ct_L, ct_L, ct_L, ct_P,
   ct_L, ct_L, ct_L, ct_L, ct_L, ct_L, ct_L, ct_L]"

definition ismask :: "char \<Rightarrow> u8" where
  "ismask c = ctype_tab ! of_char c"

definition isalnum :: "char \<Rightarrow> bool" where
  "isalnum c \<longleftrightarrow> ismask c AND (ct_U OR ct_L OR ct_D) \<noteq> 0"

definition isalpha :: "char \<Rightarrow> bool" where
  "isalpha c \<longleftrightarrow> ismask c AND (ct_U OR ct_L) \<noteq> 0"

definition iscntrl :: "char \<Rightarrow> bool" where
  "iscntrl c \<longleftrightarrow> ismask c AND ct_C \<noteq> 0"

definition isdigit :: "char \<Rightarrow> bool" where
  "isdigit c \<longleftrightarrow> ismask c AND ct_D \<noteq> 0"

definition isgraph :: "char \<Rightarrow> bool" where
  "isgraph c \<longleftrightarrow> ismask c AND (ct_P OR ct_U OR ct_L OR ct_D) \<noteq> 0"

definition islower :: "char \<Rightarrow> bool" where
  "islower c \<longleftrightarrow> ismask c AND ct_L \<noteq> 0"

definition isprint :: "char \<Rightarrow> bool" where
  "isprint c \<longleftrightarrow> ismask c AND (ct_P OR ct_U OR ct_L OR ct_D OR ct_SP) \<noteq> 0"

definition ispunct :: "char \<Rightarrow> bool" where
  "ispunct c \<longleftrightarrow> ismask c AND ct_P \<noteq> 0"

definition isspace :: "char \<Rightarrow> bool" where
  "isspace c \<longleftrightarrow> ismask c AND ct_S \<noteq> 0"

definition isupper :: "char \<Rightarrow> bool" where
  "isupper c \<longleftrightarrow> ismask c AND ct_U \<noteq> 0"

definition isxdigit :: "char \<Rightarrow> bool" where
  "isxdigit c \<longleftrightarrow> ismask c AND (ct_D OR ct_X) \<noteq> 0"

definition isblank :: "char \<Rightarrow> bool" where
  "isblank c \<longleftrightarrow> c = CHR '' '' \<or> c = CHR 0x09"

definition isascii :: "char \<Rightarrow> bool" where
  "isascii c \<longleftrightarrow> byte_of c \<le> 0x7f"

definition toascii :: "char \<Rightarrow> char" where
  "toascii c = chr_of (byte_of c AND 0x7f)"

definition tolower :: "char \<Rightarrow> char" where
  "tolower c = (if isupper c then chr_of (byte_of c - (0x41 - 0x61)) else c)"

definition toupper :: "char \<Rightarrow> char" where
  "toupper c = (if islower c then chr_of (byte_of c - (0x61 - 0x41)) else c)"

subsection \<open>Which characters the macros accept\<close>

lemma length_ctype_tab: "length ctype_tab = 256"
  by (simp add: ctype_tab_def)

lemma ismask_all:
  assumes "list_all (\<lambda>(n, m). P n m) (List.enumerate 0 ctype_tab)"
  shows "P (of_char c) (ismask c)"
proof -
  have "(of_char c, ctype_tab ! of_char c) \<in> set (List.enumerate 0 ctype_tab)"
    by (simp add: in_set_enumerate_eq length_ctype_tab)
  with assms show ?thesis by (auto simp: list_all_iff ismask_def)
qed

lemma isdigit_iff [ebbtf_simps]: "isdigit c \<longleftrightarrow> of_char c \<in> {48..57::nat}"
  unfolding isdigit_def by (rule ismask_all [where c = c]) (simp add: ctype_tab_def)

lemma isxdigit_iff [ebbtf_simps]:
  "isxdigit c \<longleftrightarrow> of_char c \<in> {48..57::nat} \<or> of_char c \<in> {65..70::nat} \<or> of_char c \<in> {97..102::nat}"
  unfolding isxdigit_def by (rule ismask_all [where c = c]) (simp add: ctype_tab_def)

lemma isupper_iff [ebbtf_simps]:
  "isupper c \<longleftrightarrow> of_char c \<in> {65..90::nat} \<or> of_char c \<in> {192..222::nat} - {215}"
  unfolding isupper_def by (rule ismask_all [where c = c]) (simp add: ctype_tab_def)

lemma islower_iff [ebbtf_simps]:
  "islower c \<longleftrightarrow> of_char c \<in> {97..122::nat} \<or> of_char c \<in> {223..255::nat} - {247}"
  unfolding islower_def by (rule ismask_all [where c = c]) (simp add: ctype_tab_def)

lemma isalnum_iff [ebbtf_simps]: "isalnum c \<longleftrightarrow> isalpha c \<or> isdigit c"
  unfolding isalnum_def isalpha_def isdigit_def
  by (rule ismask_all [where c = c]) (simp add: ctype_tab_def)

lemma isalpha_iff [ebbtf_simps]: "isalpha c \<longleftrightarrow> isupper c \<or> islower c"
  unfolding isalpha_def isupper_def islower_def
  by (rule ismask_all [where c = c]) (simp add: ctype_tab_def)

lemma not_class_NUL [simp]:
  "\<not> isdigit NUL" "\<not> isxdigit NUL" "\<not> isblank NUL" "\<not> isalnum NUL" "\<not> isupper NUL" "\<not> islower NUL"
  by (simp_all add: isdigit_iff isxdigit_iff isblank_def isalnum_iff isalpha_iff isupper_iff
      islower_iff)

lemma isxdigit_digit: "isdigit c \<Longrightarrow> isxdigit c"
  by (auto simp: isdigit_iff isxdigit_iff)

text \<open>Case folding acts on letters only, and changes bit \<open>0x20\<close>.\<close>

lemma of_char_chr_of [simp]: "of_char (chr_of w) = unat w"
proof -
  have "unat w < 2 ^ LENGTH(8)" by (rule unsigned_less)
  then show ?thesis by (simp add: chr_of_def)
qed

lemma of_char_tolower [ebbtf_simps]:
  "of_char (tolower c) = (if isupper c then of_char c + 32 else of_char c :: nat)"
proof (cases "isupper c")
  case True
  then have "of_char c + 32 < (256::nat)" by (auto simp: isupper_iff)
  with True show ?thesis by (simp add: tolower_def unat_word_ariths)
qed (simp add: tolower_def)

lemma of_char_toupper [ebbtf_simps]:
  "of_char (toupper c) = (if islower c then of_char c - 32 else of_char c :: nat)"
proof (cases "islower c")
  case True
  then have "(0x20::u8) \<le> byte_of c"
    by (auto simp: islower_iff word_le_nat_alt)
  with True show ?thesis by (simp add: toupper_def unat_sub)
qed (simp add: toupper_def)

lemma tolower_idem [simp]: "tolower (tolower c) = tolower c"
proof -
  have "\<not> isupper (tolower c)"
    by (auto simp: isupper_iff of_char_tolower)
  then show ?thesis by (simp add: tolower_def)
qed

end
