(* ===== verification/Strto.thy ===== *)
theory Strto
  imports Ctype
begin

text \<open>
  Number parsing: \<^verbatim>\<open>u-boot/lib/strto.c\<close>. A parse returns the value and the suffix of the
  input that \<open>*endp\<close> points to. \<open>unsigned long\<close> is 32 bits wide on the targets, \<open>unsigned
  long long\<close> 64 bits; the accumulation \<open>result*base + value\<close> wraps at that width.
  The lemmas relate the parsers to the value a digit string denotes.
\<close>

subsection \<open>The parsers\<close>

definition parse_integer_fixup_radix :: "string \<Rightarrow> u32 \<Rightarrow> u32 \<times> string" where
  "parse_integer_fixup_radix s base =
     (let base' =
        (if base = 0 then
           (if ch_at s 0 = CHR ''0'' then
              (if tolower (ch_at s 1) = CHR ''x'' \<and> isxdigit (ch_at s 2) then 16 else 8)
            else 10)
         else base)
      in (base', if base' = 16 \<and> ch_at s 0 = CHR ''0'' \<and> tolower (ch_at s 1) = CHR ''x''
                 then drop 2 s else s))"

text \<open>The digit value: \<open>isdigit(*cp) ? *cp-'0' : (islower(*cp) ? toupper(*cp) : *cp)-'A'+10\<close>.\<close>

definition digit_value :: "char \<Rightarrow> 'a::len word" where
  "digit_value c =
     (if isdigit c then of_char c - of_char (CHR ''0'')
      else of_char (if islower c then toupper c else c) - of_char (CHR ''A'') + 10)"

text \<open>The parsing loop, at the width of the result.\<close>

fun strto_loop :: "'a::len word \<Rightarrow> string \<Rightarrow> 'a word \<Rightarrow> 'a word \<times> string" where
  "strto_loop base [] result = (result, [])"
| "strto_loop base (c # cp) result =
     (if isxdigit c \<and> digit_value c < base
      then strto_loop base cp (result * base + digit_value c)
      else (result, c # cp))"

definition simple_strtoul :: "string \<Rightarrow> u32 \<Rightarrow> ulong \<times> string" where
  "simple_strtoul cp base =
     (let (base', cp') = parse_integer_fixup_radix cp base in strto_loop base' cp' 0)"

datatype strto_error = STRTO_EINVAL

definition strict_strtoul :: "string \<Rightarrow> u32 \<Rightarrow> strto_error + ulong" where
  "strict_strtoul cp base =
     (let len = length cp in
      if len = 0 then Inl STRTO_EINVAL
      else let (val, tail) = simple_strtoul cp base in
        if length tail = len then Inl STRTO_EINVAL
        else if tail = [] \<or> (len = (len - length tail) + 1 \<and> ch_at tail 0 = newline)
        then Inr val
        else Inl STRTO_EINVAL)"

definition simple_strtol :: "string \<Rightarrow> u32 \<Rightarrow> ulong \<times> string" where
  "simple_strtol cp base =
     (if ch_at cp 0 = CHR ''-'' then
        let (v, endp) = simple_strtoul (drop 1 cp) base in (- v, endp)
      else simple_strtoul cp base)"

text \<open>The suffix letters fall through: \<open>g\<close> scales three times, \<open>m\<close> twice, \<open>k\<close> once.\<close>

definition suffix_scale :: "char \<Rightarrow> nat" where
  "suffix_scale c =
     (if tolower c = CHR ''g'' then 3 else if tolower c = CHR ''m'' then 2
      else if tolower c = CHR ''k'' then 1 else 0)"

definition skip_iB :: "string \<Rightarrow> string" where
  "skip_iB endp =
     (let e1 = drop 1 endp;
          e2 = (if ch_at e1 0 = CHR ''i'' then drop 1 e1 else e1)
      in if ch_at e2 0 = CHR ''B'' then drop 1 e2 else e2)"

definition ustrtoul :: "string \<Rightarrow> u32 \<Rightarrow> ulong \<times> string" where
  "ustrtoul cp base =
     (let (result, endp) = simple_strtoul cp base; k = suffix_scale (ch_at endp 0)
      in if k = 0 then (result, endp) else (result * 1024 ^ k, skip_iB endp))"

definition simple_strtoull :: "string \<Rightarrow> u32 \<Rightarrow> u64 \<times> string" where
  "simple_strtoull cp base =
     (let (base', cp') = parse_integer_fixup_radix cp base in strto_loop (ucast base') cp' 0)"

definition ustrtoull :: "string \<Rightarrow> u32 \<Rightarrow> u64 \<times> string" where
  "ustrtoull cp base =
     (let (result, endp) = simple_strtoull cp base; k = suffix_scale (ch_at endp 0)
      in if k = 0 then (result, endp) else (result * 1024 ^ k, skip_iB endp))"

text \<open>
  \<open>trailing_strtoln\<close>: the decimal number at the end of \<open>str\<close>, \<open>-1\<close> when there is none.
  The scan runs from \<open>end - 1\<close> down to, but not including, \<open>str\<close>. \<open>end\<close> is an offset; the
  source reads \<open>end[-1]\<close> even for an empty string, which is outside the string: \<open>None\<close>.
\<close>

fun trailing_scan :: "string \<Rightarrow> nat \<Rightarrow> ulong" where
  "trailing_scan str 0 = - 1"
| "trailing_scan str (Suc p) =
     (if \<not> isdigit (ch_at str (Suc p)) then fst (simple_strtoul (drop (Suc p + 1) str) 10)
      else trailing_scan str p)"

definition trailing_strtoln :: "string \<Rightarrow> nat option \<Rightarrow> ulong option" where
  "trailing_strtoln str endo =
     (let e = (case endo of None \<Rightarrow> length str | Some n \<Rightarrow> n) in
      if e = 0 then None
      else if isdigit (ch_at str (e - 1)) then Some (trailing_scan str (e - 1))
      else Some (- 1))"

definition trailing_strtol :: "string \<Rightarrow> ulong option" where
  "trailing_strtol str = trailing_strtoln str None"

subsection \<open>Digit strings and their values\<close>

text \<open>The reference: the value of a digit character and of a string of digits in a base.\<close>

definition digit_nat :: "char \<Rightarrow> nat" where
  "digit_nat c = (if isdigit c then of_char c - 48
     else if islower c then of_char c - 87 else of_char c - 55)"

definition is_digit_in :: "nat \<Rightarrow> char \<Rightarrow> bool" where
  "is_digit_in b c \<longleftrightarrow> isxdigit c \<and> digit_nat c < b"

definition digits_value :: "nat \<Rightarrow> string \<Rightarrow> nat" where
  "digits_value b s = foldl (\<lambda>v c. v * b + digit_nat c) 0 s"

lemma digit_nat_lt_16: "isxdigit c \<Longrightarrow> digit_nat c < 16"
  by (auto simp: digit_nat_def ebbtf_simps)

lemma digit_value_nat: "isxdigit c \<Longrightarrow> digit_value c = (of_nat (digit_nat c) :: 'a::len word)"
  by (auto simp: digit_value_def digit_nat_def of_char_word ebbtf_simps split: if_splits)

lemma digits_value_Nil [simp]: "digits_value b [] = 0"
  by (simp add: digits_value_def)

lemma digits_value_snoc [simp]: "digits_value b (s @ [c]) = digits_value b s * b + digit_nat c"
  by (simp add: digits_value_def)

lemma digit_accepted:
  assumes "b \<le> 16" "4 < LENGTH('a::len)"
  shows "isxdigit c \<and> digit_value c < (of_nat b :: 'a word) \<longleftrightarrow> is_digit_in b c"
proof -
  have "16 < (2::nat) ^ LENGTH('a)"
    using power_strict_increasing [of 4 "LENGTH('a)" "2::nat"] assms(2) by simp
  then show ?thesis
    using assms(1) digit_nat_lt_16 [of c]
    by (auto simp: is_digit_in_def digit_value_nat of_nat_less_word)
qed

lemma strto_loop_value:
  assumes "b \<le> 16" "4 < LENGTH('a::len)"
    and "\<forall>c \<in> set s. is_digit_in b c" and "rest = [] \<or> \<not> is_digit_in b (hd rest)"
  shows "strto_loop (of_nat b :: 'a word) (s @ rest) (of_nat v)
           = (of_nat (foldl (\<lambda>v c. v * b + digit_nat c) v s), rest)"
  using assms(3)
proof (induction s arbitrary: v)
  case Nil
  then show ?case
    using assms(4) digit_accepted [OF assms(1,2), of "hd rest"]
    by (cases rest) auto
next
  case (Cons c s)
  then have "isxdigit c \<and> digit_value c < (of_nat b :: 'a word)"
    using digit_accepted [OF assms(1,2), of c] by simp
  moreover have "of_nat v * of_nat b + digit_value c = (of_nat (v * b + digit_nat c) :: 'a word)"
    using calculation by (simp add: digit_value_nat)
  ultimately show ?case
    using Cons by (simp del: of_nat_add of_nat_mult)
qed

lemma is_digit_in_10: "is_digit_in 10 c \<longleftrightarrow> isdigit c"
  by (auto simp: is_digit_in_def digit_nat_def ebbtf_simps)

lemma is_digit_in_16: "is_digit_in 16 c \<longleftrightarrow> isxdigit c"
  using digit_nat_lt_16 [of c] by (auto simp: is_digit_in_def)

lemma fixup_radix_10 [simp]: "parse_integer_fixup_radix s 10 = (10, s)"
  by (simp add: parse_integer_fixup_radix_def)

lemma simple_strtoul_10:
  assumes "\<forall>c \<in> set s. isdigit c" and "rest = [] \<or> \<not> isdigit (hd rest)"
  shows "simple_strtoul (s @ rest) 10 = (of_nat (digits_value 10 s), rest)"
  using strto_loop_value [where 'a = 32 and b = 10 and v = 0 and s = s and rest = rest] assms
  by (simp add: simple_strtoul_def digits_value_def is_digit_in_10)

lemma simple_strtoul_0x:
  assumes "s \<noteq> []" "\<forall>c \<in> set s. isxdigit c" and "rest = [] \<or> \<not> isxdigit (hd rest)" "b \<in> {0, 16}"
  shows "simple_strtoul (''0x'' @ s @ rest) b = (of_nat (digits_value 16 s), rest)"
proof -
  have "ch_at (s @ rest) 0 = hd s" using assms(1) by (cases s) auto
  moreover have "isxdigit (hd s)" using assms(1,2) by simp
  moreover have "tolower CHR ''x'' = CHR ''x''" by code_simp
  ultimately have "parse_integer_fixup_radix (''0x'' @ s @ rest) b = (16, s @ rest)"
    using assms(4) by (auto simp: parse_integer_fixup_radix_def)
  then show ?thesis
    using strto_loop_value [where 'a = 32 and b = 16 and v = 0 and s = s and rest = rest] assms
    by (simp add: simple_strtoul_def digits_value_def is_digit_in_16)
qed

lemma digits_split:
  obtains ds rest where "s = ds @ rest" "\<forall>c \<in> set ds. isdigit c" "rest = [] \<or> \<not> isdigit (hd rest)"
proof
  show "s = takeWhile isdigit s @ dropWhile isdigit s" by simp
  show "\<forall>c \<in> set (takeWhile isdigit s). isdigit c" by (auto dest: set_takeWhileD)
  show "dropWhile isdigit s = [] \<or> \<not> isdigit (hd (dropWhile isdigit s))"
    using hd_dropWhile by blast
qed

lemma strict_strtoul_iff:
  "strict_strtoul cp 10 = Inr v \<longleftrightarrow>
     (\<exists>ds. ds \<noteq> [] \<and> (\<forall>c \<in> set ds. isdigit c) \<and> (cp = ds \<or> cp = ds @ [newline]) \<and>
           v = of_nat (digits_value 10 ds))"
proof -
  obtain ds rest where cp: "cp = ds @ rest" and ds: "\<forall>c \<in> set ds. isdigit c"
    and rest: "rest = [] \<or> \<not> isdigit (hd rest)" by (rule digits_split)
  have nl: "\<not> isdigit newline" by (simp add: isdigit_iff)
  have "strict_strtoul cp 10 = Inr v \<longleftrightarrow>
      ds \<noteq> [] \<and> (rest = [] \<or> rest = [newline]) \<and> v = of_nat (digits_value 10 ds)"
    unfolding strict_strtoul_def cp Let_def simple_strtoul_10 [OF ds rest]
    by (cases rest) auto
  also have "\<dots> \<longleftrightarrow> (\<exists>ds. ds \<noteq> [] \<and> (\<forall>c \<in> set ds. isdigit c) \<and>
      (cp = ds \<or> cp = ds @ [newline]) \<and> v = of_nat (digits_value 10 ds))"
  proof
    assume "ds \<noteq> [] \<and> (rest = [] \<or> rest = [newline]) \<and> v = of_nat (digits_value 10 ds)"
    with ds cp show "\<exists>ds. ds \<noteq> [] \<and> (\<forall>c \<in> set ds. isdigit c) \<and>
      (cp = ds \<or> cp = ds @ [newline]) \<and> v = of_nat (digits_value 10 ds)" by auto
  next
    assume "\<exists>ds. ds \<noteq> [] \<and> (\<forall>c \<in> set ds. isdigit c) \<and>
      (cp = ds \<or> cp = ds @ [newline]) \<and> v = of_nat (digits_value 10 ds)"
    then obtain es where es: "es \<noteq> []" "\<forall>c \<in> set es. isdigit c"
      "cp = es \<or> cp = es @ [newline]" "v = of_nat (digits_value 10 es)" by blast
    have "takeWhile isdigit cp = ds" using cp ds rest by (cases rest) (auto simp: takeWhile_append)
    moreover have "takeWhile isdigit cp = es" using es nl by (auto simp: takeWhile_append)
    ultimately show "ds \<noteq> [] \<and> (rest = [] \<or> rest = [newline]) \<and> v = of_nat (digits_value 10 ds)"
      using es cp by auto
  qed
  finally show ?thesis .
qed

subsection \<open>Parsing decimal numbers\<close>

text \<open>
  \<open>simple_strtoul\<close> in base 10 consumes exactly the leading decimal digits and returns the
  number they denote modulo 2 to the 32; no digits give 0.
\<close>

theorem simple_strtoul_decimal:
  "simple_strtoul cp 10 =
     (of_nat (digits_value 10 (takeWhile isdigit cp)), dropWhile isdigit cp)"
proof -
  have "\<forall>c \<in> set (takeWhile isdigit cp). isdigit c" by (auto dest: set_takeWhileD)
  moreover have "dropWhile isdigit cp = [] \<or> \<not> isdigit (hd (dropWhile isdigit cp))"
    using hd_dropWhile by blast
  ultimately show ?thesis
    using simple_strtoul_10 [of "takeWhile isdigit cp" "dropWhile isdigit cp"] by simp
qed

text \<open>
  \<open>strict_strtoul\<close> in base 10 accepts exactly the non-empty strings of decimal digits,
  optionally followed by one newline, and returns the number they denote modulo 2 to the 32.
\<close>

theorem strict_strtoul_decimal:
  "strict_strtoul cp 10 = Inr v \<longleftrightarrow>
     (\<exists>ds. ds \<noteq> [] \<and> list_all isdigit ds \<and> (cp = ds \<or> cp = ds @ [newline]) \<and>
           v = of_nat (digits_value 10 ds))"
  unfolding list_all_iff by (rule strict_strtoul_iff)

end
