(* ===== verification/Vsprintf.thy ===== *)
theory Vsprintf
  imports Strto
begin

text \<open>
  Formatted output: \<^verbatim>\<open>u-boot/lib/vsprintf.c\<close>. Each conversion routine emits characters through
  the macro \<open>ADDCH\<close>, which stores a character only while the output position is below \<open>end\<close>
  and always advances the position. The conversions never read the buffer, so a routine
  is modelled by the list of characters it emits, and \<open>vsnprintf_internal\<close> runs \<open>ADDCH\<close> over
  them on a buffer. A store outside the buffer object is undefined behaviour: \<open>None\<close>.

  Arguments are values of \<open>va_arg\<close>: a 32-bit slot (\<open>int\<close>, \<open>long\<close>, \<open>size_t\<close>, \<open>ptrdiff_t\<close>),
  a 64-bit slot, a C string pointer (\<open>None\<close> is NULL), or a pointer to bytes for the \<open>%p\<close>
  extensions. Reading an argument that is missing or of another kind is undefined behaviour:
  \<open>None\<close>. \<open>%n\<close> (a store through a pointer) is \<open>None\<close> too; no caller uses it. The UTF-16, device
  path and UUID conversions are compiled for EFI and UUID builds only and are left out. Field
  widths and precisions are unbounded integers: the C \<open>int\<close> overflows only for widths above
  \<open>2^31\<close>.
\<close>

subsection \<open>Decimal conversion\<close>

definition is_digit :: "char \<Rightarrow> bool" where
  "is_digit c \<longleftrightarrow> of_char c \<ge> (48::nat) \<and> of_char c \<le> (57::nat)"

fun skip_atoi_loop :: "string \<Rightarrow> int \<Rightarrow> int \<times> string" where
  "skip_atoi_loop [] i = (i, [])"
| "skip_atoi_loop (c # s) i =
     (if is_digit c then skip_atoi_loop s (i * 10 + of_char c - 48) else (i, c # s))"

definition skip_atoi :: "string \<Rightarrow> int \<times> string" where
  "skip_atoi s = skip_atoi_loop s 0"

definition dec_chr :: "u32 \<Rightarrow> char" where
  "dec_chr d = chr_of (ucast (d + 48))"

text \<open>Both routines emit the least significant digit first.\<close>

definition put_dec_trunc :: "u32 \<Rightarrow> string" where
  "put_dec_trunc q =
     (let d1 = drop_bit 4 q AND 0xf;
          d2 = drop_bit 8 q AND 0xf;
          d3 = drop_bit 12 q;
          d0 = 6 * (d3 + d2 + d1) + (q AND 0xf);
          q = drop_bit 11 (d0 * 0xcd);
          d0 = d0 - 10 * q;
          d1 = q + 9 * d3 + 5 * d2 + d1
      in dec_chr d0 #
         (if d1 \<noteq> 0 then
            let q = drop_bit 11 (d1 * 0xcd);
                d1 = d1 - 10 * q;
                d2 = q + 2 * d2
            in dec_chr d1 #
               (if d2 \<noteq> 0 \<or> d3 \<noteq> 0 then
                  let q = drop_bit 7 (d2 * 0xd);
                      d2 = d2 - 10 * q;
                      d3 = q + 4 * d3
                  in dec_chr d2 #
                     (if d3 \<noteq> 0 then
                        let q = drop_bit 11 (d3 * 0xcd);
                            d3 = d3 - 10 * q
                        in dec_chr d3 # (if q \<noteq> 0 then [dec_chr q] else [])
                      else [])
                else [])
          else []))"

definition put_dec_full :: "u32 \<Rightarrow> string" where
  "put_dec_full q =
     (let d1 = drop_bit 4 q AND 0xf;
          d2 = drop_bit 8 q AND 0xf;
          d3 = drop_bit 12 q;
          d0 = 6 * (d3 + d2 + d1) + (q AND 0xf);
          q0 = drop_bit 11 (d0 * 0xcd);
          d0 = d0 - 10 * q0;
          d1 = q0 + 9 * d3 + 5 * d2 + d1;
          q1 = drop_bit 11 (d1 * 0xcd);
          d1 = d1 - 10 * q1;
          d2 = q1 + 2 * d2;
          q2 = drop_bit 7 (d2 * 0xd);
          d2 = d2 - 10 * q2;
          d3 = q2 + 4 * d3;
          q3 = drop_bit 11 (d3 * 0xcd);
          d3 = d3 - 10 * q3
      in [dec_chr d0, dec_chr d1, dec_chr d2, dec_chr d3, dec_chr q3])"

function put_dec :: "u64 \<Rightarrow> string" where
  "put_dec num =
     (if num < 100000 then put_dec_trunc (ucast num)
      else put_dec_full (ucast (num mod 100000)) @ put_dec (num div 100000))"
  by pat_completeness auto
termination
  by (relation "measure unat") (auto simp: unat_div word_less_nat_alt not_less word_le_nat_alt)

declare put_dec.simps [simp del]

subsection \<open>Flags and numbers\<close>

abbreviation ZEROPAD :: u32 where "ZEROPAD \<equiv> 1"
abbreviation SIGN :: u32 where "SIGN \<equiv> 2"
abbreviation PLUS :: u32 where "PLUS \<equiv> 4"
abbreviation SPACE :: u32 where "SPACE \<equiv> 8"
abbreviation LEFT :: u32 where "LEFT \<equiv> 16"
abbreviation SMALL :: u32 where "SMALL \<equiv> 32"
abbreviation SPECIAL :: u32 where "SPECIAL \<equiv> 64"

definition hex_digits :: string where
  "hex_digits = ''0123456789ABCDEF''"

text \<open>\<open>digits[((unsigned char)num) & mask] | locase\<close>, with \<open>locase = type & SMALL\<close>.\<close>

definition digit_char :: "u32 \<Rightarrow> u8 \<Rightarrow> char" where
  "digit_char locase d = chr_of (byte_of (hex_digits ! unat d) OR ucast locase)"

function radix_digits :: "bool \<Rightarrow> u32 \<Rightarrow> u64 \<Rightarrow> string" where
  "radix_digits hex locase num =
     (let mask = (if hex then 15 else 7); shift = (if hex then 4 else 3);
          num' = drop_bit shift num
      in digit_char locase (ucast num AND mask) #
         (if num' \<noteq> 0 then radix_digits hex locase num' else []))"
  by pat_completeness auto
termination
proof (relation "measure (\<lambda>(h, l, n). unat n)")
  show "wf (measure (\<lambda>(h, l, n). unat n))" by simp
next
  fix hex and locase :: u32 and num mask :: u64 and shift :: nat and num' :: u64
  fix mask :: u8
  assume "mask = (if hex then 15 else 7)" and shift: "shift = (if hex then 4 else 3)"
    and num': "num' = drop_bit shift num" and nz: "num' \<noteq> 0"
  have "unat num' = unat num div 2 ^ shift"
    by (simp only: num' unat_drop_bit_eq drop_bit_eq_div [where 'a = nat])
  moreover have "unat num' \<noteq> 0" using nz by (simp add: unat_eq_zero)
  ultimately have "unat num' < unat num" using shift 
     by (cases hex) (auto intro!: div_less_dividend gr0I)
  then show "((hex, locase, num'), (hex, locase, num)) \<in> measure (\<lambda>(h, l, n). unat n)"
    by simp
qed

declare radix_digits.simps [simp del]

text \<open>\<open>while (--size >= 0) ADDCH(buf, c)\<close> emits \<open>size\<close> characters and leaves \<open>size\<close> negative.\<close>

definition pad :: "int \<Rightarrow> char \<Rightarrow> string" where
  "pad n c = replicate (nat n) c"

definition after_pad :: "int \<Rightarrow> int" where
  "after_pad n = (if n < 0 then n - 1 else -1)"

definition number :: "u64 \<Rightarrow> u32 \<Rightarrow> int \<Rightarrow> int \<Rightarrow> u32 \<Rightarrow> string" where
  "number num base sz precision type =
     (let need_pfx = (type AND SPECIAL \<noteq> 0 \<and> base \<noteq> 10);
          locase = type AND SMALL;
          type = (if type AND LEFT \<noteq> 0 then type AND NOT ZEROPAD else type);
          (sign, num, sz) =
            (if type AND SIGN \<noteq> 0 then
               if num <s 0 then (''-'', - num, sz - 1)
               else if type AND PLUS \<noteq> 0 then (''+'', num, sz - 1)
               else if type AND SPACE \<noteq> 0 then ('' '', num, sz - 1)
               else ('''', num, sz)
             else ('''', num, sz));
          sz = (if need_pfx then if base = 16 then sz - 2 else sz - 1 else sz);
          tmp = (if num = 0 then ''0''
                 else if base \<noteq> 10 then radix_digits (base = 16) locase num
                 else put_dec num);
          i = int (length tmp);
          precision = (if i > precision then i else precision);
          sz = sz - precision;
          blank = (type AND (ZEROPAD + LEFT) = 0);
          lead = (if blank then pad sz CHR '' '' else '''');
          sz = (if blank then after_pad sz else sz);
          pfx = (if need_pfx then
                   CHR ''0'' # (if base = 16 then [chr_of (byte_of CHR ''X'' OR ucast locase)] else [])
                 else '''');
          right = (type AND LEFT = 0);
          fill = (if right then pad sz (if type AND ZEROPAD \<noteq> 0 then CHR ''0'' else CHR '' '') else '''');
          sz = (if right then after_pad sz else sz)
      in lead @ sign @ pfx @ fill @ pad (precision - i) CHR ''0'' @ rev tmp @ pad sz CHR '' '')"

subsection \<open>Strings and pointers\<close>

text \<open>
  \<open>string\<close>: the precision bounds how much of the string is read (\<open>strnlen\<close> takes it as a
  \<open>size_t\<close>, so -1 is no bound), and the padding loops compare the length with \<open>field_width--\<close>.
\<close>

definition string_conv :: "string option \<Rightarrow> int \<Rightarrow> int \<Rightarrow> u32 \<Rightarrow> string" where
  "string_conv s field_width precision flags =
     (let s = (case s of None \<Rightarrow> ''<NULL>'' | Some s \<Rightarrow> s);
          s = (if precision < 0 then s else take (nat precision) s);
          len = int (length s);
          left = (flags AND LEFT \<noteq> 0);
          lead = (if left then '''' else pad (field_width - len) CHR '' '');
          field_width = (if left then field_width
                         else if len < field_width then len - 1 else field_width - 1)
      in lead @ s @ pad (field_width - len) CHR '' '')"

definition char_conv :: "u32 \<Rightarrow> int \<Rightarrow> u32 \<Rightarrow> string" where
  "char_conv c field_width flags =
     (let left = (flags AND LEFT \<noteq> 0);
          lead = (if left then '''' else pad (field_width - 1) CHR '' '');
          field_width = (if left then field_width else if field_width > 0 then 0 else field_width - 1)
      in lead @ [chr_of (ucast c)] @ pad (field_width - 1) CHR '' '')"

definition hex_asc :: string where
  "hex_asc = ''0123456789abcdef''"

definition hex_byte_pack :: "u8 \<Rightarrow> string" where
  "hex_byte_pack byte = [hex_asc ! unat (drop_bit 4 (byte AND 0xf0)), hex_asc ! unat (byte AND 0x0f)]"

definition mac_address_string :: "u8 list \<Rightarrow> int \<Rightarrow> int \<Rightarrow> u32 \<Rightarrow> string" where
  "mac_address_string addr field_width precision flags =
     string_conv
       (Some (concat (map (\<lambda>i. hex_byte_pack (addr ! i) @
          (if flags AND SPECIAL = 0 \<and> i \<noteq> 5 then '':'' else '''')) [0,1,2,3,4,5])))
       field_width precision (flags AND NOT SPECIAL)"

definition ip6_addr_string :: "u8 list \<Rightarrow> int \<Rightarrow> int \<Rightarrow> u32 \<Rightarrow> string" where
  "ip6_addr_string addr field_width precision flags =
     string_conv
       (Some (concat (map (\<lambda>i. hex_byte_pack (addr ! (2 * i)) @ hex_byte_pack (addr ! (2 * i + 1)) @
          (if flags AND SPECIAL = 0 \<and> i \<noteq> 7 then '':'' else '''')) [0,1,2,3,4,5,6,7])))
       field_width precision (flags AND NOT SPECIAL)"

definition ip4_addr_string :: "u8 list \<Rightarrow> int \<Rightarrow> int \<Rightarrow> u32 \<Rightarrow> string" where
  "ip4_addr_string addr field_width precision flags =
     string_conv
       (Some (concat (map (\<lambda>i. rev (put_dec_trunc (ucast (addr ! i))) @
          (if i \<noteq> 3 then ''.'' else '''')) [0,1,2,3])))
       field_width precision (flags AND NOT SPECIAL)"

subsection \<open>The format loop\<close>

datatype va_arg = VInt u32 | VLLong u64 | VStr "string option" | VPtr u32 "u8 list"

fun va_int :: "va_arg list \<Rightarrow> (u32 \<times> va_arg list) option" where
  "va_int (VInt w # args) = Some (w, args)"
| "va_int _ = None"

fun va_llong :: "va_arg list \<Rightarrow> (u64 \<times> va_arg list) option" where
  "va_llong (VLLong w # args) = Some (w, args)"
| "va_llong _ = None"

fun va_str :: "va_arg list \<Rightarrow> (string option \<times> va_arg list) option" where
  "va_str (VStr s # args) = Some (s, args)"
| "va_str _ = None"

fun va_ptr :: "va_arg list \<Rightarrow> ((u32 \<times> u8 list) \<times> va_arg list) option" where
  "va_ptr (VPtr p mem # args) = Some ((p, mem), args)"
| "va_ptr _ = None"

text \<open>
  \<open>pointer\<close>: \<open>mem\<close> holds the bytes at the pointer; a conversion that reads more of them than
  there are is undefined. \<open>phys_addr_t\<close> is 32 bits wide, little-endian.
\<close>

definition pointer :: "string \<Rightarrow> u32 \<Rightarrow> u8 list \<Rightarrow> int \<Rightarrow> int \<Rightarrow> u32 \<Rightarrow> string option" where
  "pointer fmt ptr mem field_width precision flags =
     (let plain = (\<lambda>num field_width flags.
            let flags = flags OR SMALL in
            if field_width = -1 then number num 16 8 precision (flags OR ZEROPAD)
            else number num 16 field_width precision flags);
          guarded = (\<lambda>n s. if length mem < n then None else Some s);
          c = ch_at fmt 0
      in if c = CHR ''a'' then
           guarded 4 (plain (ucast (word_rcat (rev (take 4 mem)) :: u32)) 10
                            (flags OR (SPECIAL OR ZEROPAD)))
         else if c = CHR ''m'' \<or> c = CHR ''M'' then
           guarded 6 (mac_address_string mem field_width precision
                        (if c = CHR ''m'' then flags OR SPECIAL else flags))
         else if c = CHR ''i'' \<or> c = CHR ''I'' then
           let flags = (if c = CHR ''i'' then flags OR SPECIAL else flags) in
           if ch_at fmt 1 = CHR ''6'' then
             guarded 16 (ip6_addr_string mem field_width precision flags)
           else if ch_at fmt 1 = CHR ''4'' then
             guarded 4 (ip4_addr_string mem field_width precision flags)
           else Some (plain (ucast ptr) field_width (flags AND NOT SPECIAL))
         else Some (plain (ucast ptr) field_width flags))"

text \<open>The label \<open>repeat\<close>: \<open>fmt\<close> points behind the percent sign or the last flag.\<close>

fun parse_flags :: "string \<Rightarrow> u32 \<Rightarrow> u32 \<times> string" where
  "parse_flags [] flags = (flags, [])"
| "parse_flags (c # fmt) flags =
     (if c = CHR ''-'' then parse_flags fmt (flags OR LEFT)
      else if c = CHR ''+'' then parse_flags fmt (flags OR PLUS)
      else if c = CHR '' '' then parse_flags fmt (flags OR SPACE)
      else if c = CHR ''#'' then parse_flags fmt (flags OR SPECIAL)
      else if c = CHR ''0'' then parse_flags fmt (flags OR ZEROPAD)
      else (flags, c # fmt))"

definition parse_width ::
  "string \<Rightarrow> u32 \<Rightarrow> va_arg list \<Rightarrow> (int \<times> u32 \<times> string \<times> va_arg list) option" where
  "parse_width fmt flags args =
     (if is_digit (ch_at fmt 0) then
        let (w, fmt) = skip_atoi fmt in Some (w, flags, fmt, args)
      else if ch_at fmt 0 = CHR ''*'' then
        (case va_int args of
           None \<Rightarrow> None
         | Some (w, args) \<Rightarrow>
             if sint w < 0 then Some (- sint w, flags OR LEFT, drop 1 fmt, args)
             else Some (sint w, flags, drop 1 fmt, args))
      else Some (-1, flags, fmt, args))"

definition parse_precision ::
  "string \<Rightarrow> va_arg list \<Rightarrow> (int \<times> string \<times> va_arg list) option" where
  "parse_precision fmt args =
     (if ch_at fmt 0 = CHR ''.'' then
        let fmt = drop 1 fmt in
        if is_digit (ch_at fmt 0) then
          let (p, fmt) = skip_atoi fmt in Some (if p < 0 then 0 else p, fmt, args)
        else if ch_at fmt 0 = CHR ''*'' then
          (case va_int args of
             None \<Rightarrow> None
           | Some (p, args) \<Rightarrow> Some (if sint p < 0 then 0 else sint p, drop 1 fmt, args))
        else Some (0, fmt, args)
      else Some (-1, fmt, args))"

definition parse_qualifier :: "string \<Rightarrow> char option \<times> string" where
  "parse_qualifier fmt =
     (let c = ch_at fmt 0 in
      if c \<in> {CHR ''h'', CHR ''l'', CHR ''L'', CHR ''Z'', CHR ''z'', CHR ''t''} then
        if c = CHR ''l'' \<and> ch_at fmt 1 = CHR ''l'' then (Some CHR ''L'', drop 2 fmt)
        else (Some c, drop 1 fmt)
      else (None, fmt))"

text \<open>
  The integer argument selected by the qualifier, widened to 64 bits. \<open>unsigned long\<close>,
  \<open>size_t\<close> and \<open>unsigned int\<close> are one 32-bit slot and widen with zeros unless the conversion
  is signed; \<open>ptrdiff_t\<close> is signed; \<open>h\<close> first truncates to 16 bits.
\<close>

definition va_number :: "char option \<Rightarrow> u32 \<Rightarrow> va_arg list \<Rightarrow> (u64 \<times> va_arg list) option" where
  "va_number qualifier flags args =
     (if qualifier = Some CHR ''L'' then va_llong args
      else map_option (\<lambda>(w, args).
             (let signed = (flags AND SIGN \<noteq> 0) in
              if qualifier = Some CHR ''l'' then if signed then scast w else ucast w
              else if qualifier = Some CHR ''Z'' \<or> qualifier = Some CHR ''z'' then ucast w
              else if qualifier = Some CHR ''t'' then scast w
              else if qualifier = Some CHR ''h'' then
                if signed then scast (ucast w :: u16) else ucast (ucast w :: u16)
              else if signed then scast w else ucast w, args)) (va_int args))"

text \<open>The conversion switch; \<open>fmt\<close> points to the conversion character.\<close>

definition convert ::
  "u32 \<Rightarrow> int \<Rightarrow> int \<Rightarrow> char option \<Rightarrow> string \<Rightarrow> va_arg list \<Rightarrow>
   (string \<times> string \<times> va_arg list) option" where
  "convert flags field_width precision qualifier fmt args =
     (let c = ch_at fmt 0; rest = drop 1 fmt;
          numeric = (\<lambda>base flags.
            case va_number qualifier flags args of
              None \<Rightarrow> None
            | Some (num, args) \<Rightarrow> Some (number num base field_width precision flags, rest, args))
      in if c = CHR ''c'' then
           (case va_int args of
              None \<Rightarrow> None
            | Some (w, args) \<Rightarrow> Some (char_conv w field_width flags, rest, args))
         else if c = CHR ''s'' then
           (case va_str args of
              None \<Rightarrow> None
            | Some (s, args) \<Rightarrow> Some (string_conv s field_width precision flags, rest, args))
         else if c = CHR ''p'' then
           (case va_ptr args of
              None \<Rightarrow> None
            | Some ((p, mem), args) \<Rightarrow>
                (case pointer rest p mem field_width precision flags of
                   None \<Rightarrow> None
                 | Some out \<Rightarrow> Some (out, dropWhile isalnum rest, args)))
         else if c = CHR ''n'' then None
         else if c = CHR ''%'' then Some (''%'', rest, args)
         else if c = CHR ''o'' then numeric 8 flags
         else if c = CHR ''x'' then numeric 16 (flags OR SMALL)
         else if c = CHR ''X'' then numeric 16 flags
         else if c = CHR ''d'' \<or> c = CHR ''i'' then numeric 10 (flags OR SIGN)
         else if c = CHR ''u'' then numeric 10 flags
         else Some (if c \<noteq> NUL then [CHR ''%'', c] else ''%'', rest, args))"

definition directive :: "string \<Rightarrow> va_arg list \<Rightarrow> (string \<times> string \<times> va_arg list) option" where
  "directive fmt args =
     (let (flags, fmt) = parse_flags fmt 0 in
      case parse_width fmt flags args of
        None \<Rightarrow> None
      | Some (field_width, flags, fmt, args) \<Rightarrow>
          (case parse_precision fmt args of
             None \<Rightarrow> None
           | Some (precision, fmt, args) \<Rightarrow>
               let (qualifier, fmt) = parse_qualifier fmt in
               convert flags field_width precision qualifier fmt args))"

lemma length_parse_flags: "length (snd (parse_flags fmt flags)) \<le> length fmt"
  by (induction fmt flags rule: parse_flags.induct) (auto simp: le_SucI)

lemma length_skip_atoi_loop: "length (snd (skip_atoi_loop s i)) \<le> length s"
  by (induction s i rule: skip_atoi_loop.induct) (auto simp: le_SucI)

lemma length_parse_width:
  "parse_width fmt flags args = Some (w, flags', fmt', args') \<Longrightarrow> length fmt' \<le> length fmt"
  using length_skip_atoi_loop [of fmt 0]
  by (auto simp: parse_width_def skip_atoi_def split: if_splits prod.splits option.splits)

lemma length_parse_precision:
  "parse_precision fmt args = Some (p, fmt', args') \<Longrightarrow> length fmt' \<le> length fmt"
  using length_skip_atoi_loop [of "drop 1 fmt" 0]
  by (auto simp: parse_precision_def skip_atoi_def Let_def
      split: if_splits prod.splits option.splits)

lemma length_parse_qualifier: "length (snd (parse_qualifier fmt)) \<le> length fmt"
  by (auto simp: parse_qualifier_def Let_def)

lemma length_convert:
  "convert flags w p q fmt args = Some (out, fmt', args') \<Longrightarrow> length fmt' \<le> length fmt"
  by (auto simp: convert_def Let_def split: if_splits option.splits prod.splits
      intro: order_trans [OF length_dropWhile_le])

lemma length_directive:
  assumes "directive fmt args = Some (out, fmt', args')"
  shows "length fmt' \<le> length fmt"
proof -
  obtain flags f1 where 1: "parse_flags fmt 0 = (flags, f1)" by fastforce
  from assms 1 obtain w flags' f2 args2 where 2: "parse_width f1 flags args = Some (w, flags', f2, args2)"
    by (auto simp: directive_def split: option.splits)
  with assms 1 obtain p f3 args3 where 3: "parse_precision f2 args2 = Some (p, f3, args3)"
    by (auto simp: directive_def split: option.splits)
  obtain q f4 where 4: "parse_qualifier f3 = (q, f4)" by fastforce
  with assms 1 2 3 have 5: "convert flags' w p q f4 args3 = Some (out, fmt', args')"
    by (simp add: directive_def)
  show ?thesis
    using length_parse_flags [of fmt 0] length_parse_width [OF 2] length_parse_precision [OF 3]
      length_parse_qualifier [of f3] length_convert [OF 5] 1 4
    by simp
qed

text \<open>The characters that the loop over the format emits.\<close>

function emit :: "string \<Rightarrow> va_arg list \<Rightarrow> string option" where
  "emit [] args = Some []"
| "emit (c # fmt) args =
     (if c \<noteq> CHR ''%'' then map_option (Cons c) (emit fmt args)
      else case directive fmt args of
             None \<Rightarrow> None
           | Some (out, fmt', args') \<Rightarrow> map_option (append out) (emit fmt' args'))"
  by pat_completeness auto
termination
  by (relation "measure (length \<circ> fst)") (auto dest: length_directive)

subsection \<open>Buffers\<close>

text \<open>
  \<open>ADDCH\<close> at position \<open>pos\<close> of the buffer; \<open>fin\<close> is the position of \<open>end\<close>.
\<close>

definition addch :: "nat \<Rightarrow> nat \<times> string \<Rightarrow> char \<Rightarrow> (nat \<times> string) option" where
  "addch fin st ch =
     (let (pos, buf) = st in
      if pos < fin then
        if pos < length buf then Some (Suc pos, buf[pos := ch]) else None
      else Some (Suc pos, buf))"

fun addchs :: "nat \<Rightarrow> nat \<times> string \<Rightarrow> string \<Rightarrow> (nat \<times> string) option" where
  "addchs fin st [] = Some st"
| "addchs fin st (c # cs) =
     (case addch fin st c of None \<Rightarrow> None | Some st' \<Rightarrow> addchs fin st' cs)"

text \<open>
  The buffer lies at address \<open>addr\<close>. When \<open>buf + size\<close> wraps around, \<open>end\<close> becomes the last
  address.
\<close>

definition buf_end :: "u32 \<Rightarrow> u32 \<Rightarrow> u32" where
  "buf_end addr sz = (if addr + sz < addr then - 1 - addr else sz)"

definition vsnprintf_internal ::
  "u32 \<Rightarrow> string \<Rightarrow> u32 \<Rightarrow> string \<Rightarrow> va_arg list \<Rightarrow> (u32 \<times> string) option" where
  "vsnprintf_internal addr buf sz fmt args =
     (let sz = buf_end addr sz; fin = unat sz in
      case emit fmt args of
        None \<Rightarrow> None
      | Some out \<Rightarrow>
          (case addchs fin (0, buf) out of
             None \<Rightarrow> None
           | Some (pos, buf) \<Rightarrow>
               if sz > 0 then
                 (case addch fin (pos, buf) NUL of
                    None \<Rightarrow> None
                  | Some (pos, buf) \<Rightarrow>
                      Some (of_nat (pos - 1), if pos > fin then buf[fin - 1 := NUL] else buf))
               else Some (of_nat pos, buf)))"

definition vsnprintf where
  "vsnprintf addr buf sz fmt args = vsnprintf_internal addr buf sz fmt args"

definition vscnprintf ::
  "u32 \<Rightarrow> string \<Rightarrow> u32 \<Rightarrow> string \<Rightarrow> va_arg list \<Rightarrow> (u32 \<times> string) option" where
  "vscnprintf addr buf sz fmt args =
     map_option (\<lambda>(i, buf).
       (if i < sz then i else if sz \<noteq> 0 then sz - 1 else 0, buf))
     (vsnprintf addr buf sz fmt args)"

definition snprintf where
  "snprintf addr buf sz fmt args = vsnprintf addr buf sz fmt args"

definition scnprintf where
  "scnprintf addr buf sz fmt args = vscnprintf addr buf sz fmt args"

definition INT_MAX :: u32 where
  "INT_MAX = 0x7fffffff"

definition vsprintf where
  "vsprintf addr buf fmt args = vsnprintf_internal addr buf INT_MAX fmt args"

definition sprintf where
  "sprintf addr buf fmt args = vsprintf addr buf fmt args"

subsection \<open>Printing\<close>

definition CONFIG_SYS_PBSIZE :: u32 where
  "CONFIG_SYS_PBSIZE = 1044"

text \<open>
  \<open>printf\<close> formats into a buffer on its stack and hands that buffer to \<open>puts\<close>. The result is
  the returned count and the characters printed. The previous contents and the address of the
  stack buffer do not matter (lemma \<open>printf_emit\<close>); zeros at address 0 stand for them.
\<close>

definition vprintf :: "string \<Rightarrow> va_arg list \<Rightarrow> (u32 \<times> string) option" where
  "vprintf fmt args =
     (case vscnprintf 0 (replicate (unat CONFIG_SYS_PBSIZE) NUL) CONFIG_SYS_PBSIZE fmt args of
        None \<Rightarrow> None
      | Some (i, printbuffer) \<Rightarrow>
          if i \<le> 0 then Some (i, []) else Some (i, cstr printbuffer))"

definition printf :: "string \<Rightarrow> va_arg list \<Rightarrow> (u32 \<times> string) option" where
  "printf fmt args = vprintf fmt args"

function simple_itoa_rev :: "ulong \<Rightarrow> string" where
  "simple_itoa_rev i =
     (let d = chr_of (48 + ucast (i mod 10)); i' = i div 10
      in d # (if i' > 0 then simple_itoa_rev i' else []))"
  by pat_completeness auto
termination
proof (relation "measure unat")
  fix d and i i' :: ulong
  assume i': "i' = i div 10" and "0 < i'"
  then have "unat i' = unat i div 10" "0 < unat i'"
    by (simp_all add: unat_div word_less_nat_alt)
  then show "(i', i) \<in> measure unat"
    by (simp add: div_less_dividend)
qed simp

declare simple_itoa_rev.simps [simp del]

definition simple_itoa :: "ulong \<Rightarrow> string" where
  "simple_itoa i = rev (simple_itoa_rev i)"

text \<open>The loop of \<open>print_grouped_ull\<close> prints three characters a time, \<open>prev\<close> is \<open>s[-1]\<close>.\<close>

function print_groups :: "char option \<Rightarrow> string \<Rightarrow> string" where
  "print_groups prev s =
     (if s = [] then []
      else (case prev of None \<Rightarrow> [] | Some c \<Rightarrow> [if c \<noteq> CHR '' '' then CHR '','' else CHR '' '']) @
           take 3 s @ print_groups (Some (ch_at s 2)) (drop 3 s))"
  by pat_completeness auto
termination
  by (relation "measure (length \<circ> snd)") auto

declare print_groups.simps [simp del]

definition print_grouped_ull :: "u64 \<Rightarrow> nat \<Rightarrow> string option" where
  "print_grouped_ull int_val digits =
     (let digits = (digits + 2) div 3 in
      case sprintf 0 (replicate 21 NUL) ''%*llu'' [VInt (of_nat (digits * 3)), VLLong int_val] of
        None \<Rightarrow> None
      | Some (i, str) \<Rightarrow> Some (print_groups None (cstr str)))"

definition str2off :: "string \<Rightarrow> u64 \<times> bool" where
  "str2off p = (let (num, endptr) = simple_strtoull p 16 in (num, p \<noteq> [] \<and> endptr = []))"

definition str2long :: "string \<Rightarrow> ulong \<times> bool" where
  "str2long p = (let (num, endptr) = simple_strtoul p 16 in (num, p \<noteq> [] \<and> endptr = []))"

definition DIV_ROUND_CLOSEST :: "ulong \<Rightarrow> ulong \<Rightarrow> ulong" where
  "DIV_ROUND_CLOSEST x divisor = (x + divisor div 2) div divisor"

definition strmhz :: "u32 \<Rightarrow> string \<Rightarrow> ulong \<Rightarrow> string option" where
  "strmhz addr buf hz =
     (let n = DIV_ROUND_CLOSEST hz 1000 div 1000 in
      case sprintf addr buf ''%ld'' [VInt n] of
        None \<Rightarrow> None
      | Some (l, buf) \<Rightarrow>
          let hz = hz - n * 1000000; m = DIV_ROUND_CLOSEST hz 1000 in
          if m \<noteq> 0 then
            map_option (\<lambda>(_, tail). take (unat l) buf @ tail)
              (sprintf (addr + l) (drop (unat l) buf) ''.%03ld'' [VInt m])
          else Some buf)"

subsection \<open>Decimal digits are correct\<close>
definition digit_chr :: "nat \<Rightarrow> char" where
  "digit_chr d = char_of (48 + d)"

fun dec_rev :: "nat \<Rightarrow> string" where
  "dec_rev n = (if n < 10 then [digit_chr n] else digit_chr (n mod 10) # dec_rev (n div 10))"
declare dec_rev.simps [simp del]

lemma div10_cd: "(x::nat) < 400 \<Longrightarrow> (x * 205) div 2048 = x div 10"
proof (rule div_nat_eqI)
  assume x: "x < 400"
  obtain q r where qr: "x div 10 = q" "x = 10 * q + r" "r \<le> 9"
    using that [of "x div 10" "x mod 10"] by simp
  from x qr have "q \<le> 39" by linarith
  with qr show "2048 * (x div 10) \<le> x * 205" "x * 205 < 2048 * Suc (x div 10)"
    by (simp_all add: algebra_simps)
qed

lemma div10_d: "(x::nat) < 69 \<Longrightarrow> (x * 13) div 128 = x div 10"
proof (rule div_nat_eqI)
  assume x: "x < 69"
  obtain q r where qr: "x div 10 = q" "x = 10 * q + r" "r \<le> 9"
    using that [of "x div 10" "x mod 10"] by simp
  from x qr have "q \<le> 5 \<or> q = 6 \<and> r \<le> 8" by linarith
  with qr show "128 * (x div 10) \<le> x * 13" "x * 13 < 128 * Suc (x div 10)"
    by (auto simp add: algebra_simps)
qed

lemma drop_bit_of_nat_u32: "k < 2 ^ 32 \<Longrightarrow> drop_bit m (of_nat k :: u32) = of_nat (k div 2 ^ m)"
  by (simp only: word_unat_eq_iff unat_drop_bit_eq drop_bit_eq_div [where 'a = nat] unat_of_nat)
    (simp add: div_less_dividend le_less_trans [OF div_le_dividend])

lemma and_15_of_nat_u32: "(of_nat k :: u32) AND 15 = of_nat (k mod 16)"
proof -
  have "(of_nat k :: u32) AND mask 4 = of_nat (k mod 16)"
    by (simp only: take_bit_eq_mask [symmetric] take_bit_of_nat) (simp add: take_bit_eq_mod)
  then show ?thesis by (simp add: mask_eq_exp_minus_1)
qed

lemma of_nat_u32_eq_0: "k < 2 ^ 32 \<Longrightarrow> (of_nat k :: u32) = 0 \<longleftrightarrow> k = 0"
  by (simp add: word_unat_eq_iff unat_of_nat take_bit_nat_eq_self)

lemma dec_chr_of_nat: "d < 10 \<Longrightarrow> dec_chr (of_nat d) = digit_chr d"
proof -
  assume "d < 10"
  then have "unat (ucast (of_nat d + 48 :: u32) :: u8) = 48 + d"
    by (simp add: unat_of_nat unsigned_ucast_eq unat_word_ariths take_bit_eq_mod)
  then show ?thesis by (simp add: dec_chr_def digit_chr_def chr_of_def)
qed

lemma of_nat_diff_u32: "b \<le> a \<Longrightarrow> (of_nat a :: u32) - of_nat b = of_nat (a - b)"
  by simp

text \<open>The shift-and-add arithmetic of the two routines, on the hexadecimal digits of the input.\<close>

lemma jones_arith:
  fixes n :: nat
  assumes n: "n = 4096 * e3 + 256 * e2 + 16 * e1 + e0"
    and a0: "a0 = 6 * (e3 + e2 + e1) + e0"
    and a1: "a1 = a0 div 10 + 9 * e3 + 5 * e2 + e1"
    and a2: "a2 = a1 div 10 + 2 * e2"
    and a3: "a3 = a2 div 10 + 4 * e3"
  shows "a0 mod 10 = n mod 10" "n div 10 = 10 * (40 * e3 + 2 * e2) + a1"
    "n div 100 = 10 * (4 * e3) + a2" "n div 1000 = a3"
proof -
  have step: "x = 10 * y + a \<Longrightarrow> x div 10 = y + a div 10 \<and> a mod 10 = x mod 10"
    for x y a :: nat by simp
  have d: "n div 100 = n div 10 div 10" "n div 1000 = n div 100 div 10" by simp_all
  have n0: "n = 10 * (409 * e3 + 25 * e2 + e1) + a0" using n a0 by simp
  then show "a0 mod 10 = n mod 10" using step by blast
  show n1: "n div 10 = 10 * (40 * e3 + 2 * e2) + a1"
    using step [OF n0] a1 by simp
  show n2: "n div 100 = 10 * (4 * e3) + a2" using step [OF n1] d a2 by simp
  show "n div 1000 = a3" using step [OF n2] d a3 by simp
qed

lemma hex_split:
  fixes n :: nat
  shows "n = 4096 * (n div 4096) + 256 * (n div 256 mod 16) + 16 * (n div 16 mod 16) + n mod 16"
proof -
  have split: "x = 16 * (x div 16) + x mod 16" for x :: nat by simp
  have "n div 256 = n div 16 div 16" "n div 4096 = n div 256 div 16" by simp_all
  then show ?thesis
    using split [of n] split [of "n div 16"] split [of "n div 256"] by linarith
qed

lemma div10_word: "x < 400 \<Longrightarrow> drop_bit 11 (of_nat x * 0xcd :: u32) = of_nat (x div 10)"
  using drop_bit_of_nat_u32 [of "x * 205" 11] div10_cd [of x] by simp

lemma div10_word': "x < 69 \<Longrightarrow> drop_bit 7 (of_nat x * 0xd :: u32) = of_nat (x div 10)"
  using drop_bit_of_nat_u32 [of "x * 13" 7] div10_d [of x] by simp

lemma mod10_word: "(of_nat x :: u32) - 10 * of_nat (x div 10) = of_nat (x mod 10)"
proof -
  have "of_nat x = (of_nat (10 * (x div 10) + x mod 10) :: u32)" by simp
  then show ?thesis by (simp only: of_nat_add of_nat_mult) simp
qed

lemma jones_words:
  assumes "n < 100000"
  obtains e1 e2 e3 a0 a1 a2 a3 :: nat where
    "drop_bit 4 (of_nat n :: u32) AND 15 = of_nat e1"
    "drop_bit 8 (of_nat n :: u32) AND 15 = of_nat e2"
    "drop_bit 12 (of_nat n :: u32) = of_nat e3"
    "6 * (of_nat e3 + of_nat e2 + of_nat e1) + ((of_nat n :: u32) AND 15) = of_nat a0"
    "(of_nat (a0 div 10) :: u32) + 9 * of_nat e3 + 5 * of_nat e2 + of_nat e1 = of_nat a1"
    "(of_nat (a1 div 10) :: u32) + 2 * of_nat e2 = of_nat a2"
    "(of_nat (a2 div 10) :: u32) + 4 * of_nat e3 = of_nat a3"
    "a0 < 400" "a1 < 400" "a2 < 69" "a3 < 100" "e3 < 25"
    "n mod 10 = a0 mod 10" "n div 10 mod 10 = a1 mod 10" "n div 100 mod 10 = a2 mod 10"
    "n div 1000 mod 10 = a3 mod 10" "n div 10000 = a3 div 10"
    "n < 10 \<longleftrightarrow> a1 = 0" "n < 100 \<longleftrightarrow> a2 = 0 \<and> e3 = 0" "n < 1000 \<longleftrightarrow> a3 = 0"
proof -
  define e0 e1 e2 e3 where e: "e0 = n mod 16" "e1 = n div 16 mod 16" "e2 = n div 256 mod 16"
    "e3 = n div 4096"
  define a0 where a0: "a0 = 6 * (e3 + e2 + e1) + e0"
  define a1 where a1: "a1 = a0 div 10 + 9 * e3 + 5 * e2 + e1"
  define a2 where a2: "a2 = a1 div 10 + 2 * e2"
  define a3 where a3: "a3 = a2 div 10 + 4 * e3"
  have n: "n = 4096 * e3 + 256 * e2 + 16 * e1 + e0" unfolding e by (rule hex_split)
  have b: "e0 \<le> 15" "e1 \<le> 15" "e2 \<le> 15" "e3 \<le> 24" using assms unfolding e by simp_all
  have b0: "a0 \<le> 339" using b unfolding a0 by simp
  have b1: "a1 \<le> 339" using b b0 unfolding a1 by simp
  have b2: "a2 \<le> 63" using b b1 unfolding a2 by simp
  note ja = jones_arith [OF n a0 a1 a2 a3]
  have b3: "a3 < 100" using assms ja(4) by simp
  show ?thesis
  proof (rule that [of e1 e2 e3 a0 a1 a2 a3])
    show "drop_bit 4 (of_nat n :: u32) AND 15 = of_nat e1"
      "drop_bit 8 (of_nat n :: u32) AND 15 = of_nat e2"
      "drop_bit 12 (of_nat n :: u32) = of_nat e3"
      using assms by (simp_all add: drop_bit_of_nat_u32 and_15_of_nat_u32 e del: of_nat_div of_nat_mod)
    show "6 * (of_nat e3 + of_nat e2 + of_nat e1) + ((of_nat n :: u32) AND 15) = of_nat a0"
      by (simp add: and_15_of_nat_u32 a0 e(1))
    show "(of_nat (a0 div 10) :: u32) + 9 * of_nat e3 + 5 * of_nat e2 + of_nat e1 = of_nat a1"
      "(of_nat (a1 div 10) :: u32) + 2 * of_nat e2 = of_nat a2"
      "(of_nat (a2 div 10) :: u32) + 4 * of_nat e3 = of_nat a3"
      by (simp_all add: a1 a2 a3)
    show "n div 10 mod 10 = a1 mod 10" "n div 100 mod 10 = a2 mod 10"
      by (simp_all only: ja mod_mult_self4)
    have z: "n < 10 \<longleftrightarrow> n div 10 = 0" "n < 100 \<longleftrightarrow> n div 100 = 0" "n < 1000 \<longleftrightarrow> n div 1000 = 0"
      by (simp_all add: div_eq_0_iff)
    show "n < 10 \<longleftrightarrow> a1 = 0" unfolding z ja by (auto simp: a1)
    show "n < 100 \<longleftrightarrow> a2 = 0 \<and> e3 = 0" unfolding z ja by auto
    show "n < 1000 \<longleftrightarrow> a3 = 0" unfolding z ja by simp
    have "n div 10000 = n div 1000 div 10" by simp
    then show "n div 10000 = a3 div 10" by (simp only: ja)
  qed (use b b0 b1 b2 b3 ja in simp_all)
qed

lemmas jones_simps = Let_def div10_word div10_word' mod10_word dec_chr_of_nat of_nat_u32_eq_0

lemma put_dec_full_nat:
  assumes "n < 100000"
  shows "put_dec_full (of_nat n) =
    map digit_chr [n mod 10, n div 10 mod 10, n div 100 mod 10, n div 1000 mod 10, n div 10000]"
  using assms
proof (rule jones_words)
  fix e1 e2 e3 a0 a1 a2 a3 :: nat
  assume w: "drop_bit 4 (of_nat n :: u32) AND 15 = of_nat e1"
    "drop_bit 8 (of_nat n :: u32) AND 15 = of_nat e2"
    "drop_bit 12 (of_nat n :: u32) = of_nat e3"
    "6 * (of_nat e3 + of_nat e2 + of_nat e1) + ((of_nat n :: u32) AND 15) = of_nat a0"
    "(of_nat (a0 div 10) :: u32) + 9 * of_nat e3 + 5 * of_nat e2 + of_nat e1 = of_nat a1"
    "(of_nat (a1 div 10) :: u32) + 2 * of_nat e2 = of_nat a2"
    "(of_nat (a2 div 10) :: u32) + 4 * of_nat e3 = of_nat a3"
    and b: "a0 < 400" "a1 < 400" "a2 < 69" "a3 < 100" "e3 < 25"
    and m: "n mod 10 = a0 mod 10" "n div 10 mod 10 = a1 mod 10" "n div 100 mod 10 = a2 mod 10"
    "n div 1000 mod 10 = a3 mod 10" "n div 10000 = a3 div 10"
    "n < 10 \<longleftrightarrow> a1 = 0" "n < 100 \<longleftrightarrow> a2 = 0 \<and> e3 = 0" "n < 1000 \<longleftrightarrow> a3 = 0"
  show ?thesis using b unfolding put_dec_full_def Let_def w m
    by (simp add: div10_word w div10_word' mod10_word dec_chr_of_nat)
qed

lemma dec_rev_5:
  assumes "n < 100000"
  shows "dec_rev n = digit_chr (n mod 10) # (if n < 10 then [] else digit_chr (n div 10 mod 10) #
    (if n < 100 then [] else digit_chr (n div 100 mod 10) # (if n < 1000 then [] else
      digit_chr (n div 1000 mod 10) # (if n < 10000 then [] else [digit_chr (n div 10000)]))))"
  using assms by (simp add: dec_rev.simps div_mult2_eq [symmetric] div_less_iff_less_mult)

lemma put_dec_trunc_nat:
  assumes "n < 100000"
  shows "put_dec_trunc (of_nat n) = dec_rev n"
  using assms
proof (rule jones_words)
  fix e1 e2 e3 a0 a1 a2 a3 :: nat
  assume w: "drop_bit 4 (of_nat n :: u32) AND 15 = of_nat e1"
    "drop_bit 8 (of_nat n :: u32) AND 15 = of_nat e2"
    "drop_bit 12 (of_nat n :: u32) = of_nat e3"
    "6 * (of_nat e3 + of_nat e2 + of_nat e1) + ((of_nat n :: u32) AND 15) = of_nat a0"
    "(of_nat (a0 div 10) :: u32) + 9 * of_nat e3 + 5 * of_nat e2 + of_nat e1 = of_nat a1"
    "(of_nat (a1 div 10) :: u32) + 2 * of_nat e2 = of_nat a2"
    "(of_nat (a2 div 10) :: u32) + 4 * of_nat e3 = of_nat a3"
    and b: "a0 < 400" "a1 < 400" "a2 < 69" "a3 < 100" "e3 < 25"
    and m: "n mod 10 = a0 mod 10" "n div 10 mod 10 = a1 mod 10" "n div 100 mod 10 = a2 mod 10"
    "n div 1000 mod 10 = a3 mod 10" "n div 10000 = a3 div 10"
    "n < 10 \<longleftrightarrow> a1 = 0" "n < 100 \<longleftrightarrow> a2 = 0 \<and> e3 = 0" "n < 1000 \<longleftrightarrow> a3 = 0"
  have "n < 10000 \<longleftrightarrow> n div 10000 = 0" by (simp add: div_eq_0_iff)
  then have "n < 10000 \<longleftrightarrow> a3 div 10 = 0" unfolding m(5) .
  then show ?thesis using b unfolding dec_rev_5 [OF assms] put_dec_trunc_def Let_def w m
    by (simp add: w jones_simps)
qed

lemma dec_rev_split:
  assumes "\<not> n < 100000"
  shows "dec_rev n = map digit_chr [n mod 10, n div 10 mod 10, n div 100 mod 10,
    n div 1000 mod 10, n div 10000 mod 10] @ dec_rev (n div 100000)"
proof -
  have step: "\<not> m < 10 \<Longrightarrow> dec_rev m = digit_chr (m mod 10) # dec_rev (m div 10)" for m
    by (simp add: dec_rev.simps [of m])
  show ?thesis using assms
    by (simp add: step div_mult2_eq [symmetric] div_less_iff_less_mult)
qed

lemma mod_100000: "map digit_chr [(n::nat) mod 100000 mod 10, n mod 100000 div 10 mod 10, n mod 100000 div 100 mod 10,
   n mod 100000 div 1000 mod 10, n mod 100000 div 10000] = map digit_chr [n mod 10, n div 10 mod 10, n div 100 mod 10,
    n div 1000 mod 10, n div 10000 mod 10]"
proof -
  have "n mod (a * (10 * b)) div a mod 10 = n div a mod 10" for a b :: nat
    using mod_mult2_eq [of n a "10 * b"] 
    by (cases "a = 0") (simp_all add: mod_mod_cancel)
  from this [of 1 10000] this [of 10 1000] this [of 100 100] this [of 1000 10]
  have "n mod 100000 mod 10 = n mod 10" "n mod 100000 div 10 mod 10 = n div 10 mod 10"
    "n mod 100000 div 100 mod 10 = n div 100 mod 10" "n mod 100000 div 1000 mod 10 = n div 1000 mod 10"
    by simp_all
  moreover have "n mod 100000 div 10000 = n div 10000 mod 10"
    using mod_mult2_eq [of n 10000 10] by simp
  ultimately show ?thesis by (simp only: list.map)
qed

lemma ucast_of_nat_unat: "ucast (w :: u64) = (of_nat (unat w) :: u32)"
  by simp

lemma put_dec_dec_rev: "put_dec num = dec_rev (unat num)"
proof (induction num rule: put_dec.induct)
  case (1 num)
  show ?case
  proof (cases "num < 100000")
    case True
    then have "unat num < 100000" by (simp add: word_less_nat_alt)
    then show ?thesis using True put_dec_trunc_nat [of "unat num"] by (simp add: put_dec.simps)
  next
    case False
    have unat_100000: "unat (100000 :: u64) = 100000" by simp
    from False have n: "\<not> unat num < 100000" by (simp add: word_less_nat_alt)
    have "put_dec_full (ucast (num mod 100000)) = put_dec_full (of_nat (unat num mod 100000))"
      by (rule arg_cong [where f = put_dec_full])
        (simp only: ucast_of_nat_unat unat_mod unat_100000)
    then show ?thesis using False 1 n
      by (subst put_dec.simps)
        (simp only: if_False put_dec_full_nat mod_100000 dec_rev_split unat_div mod_less_divisor,
          simp add: dec_rev_split [of "unat num"])
  qed
qed

subsection \<open>Stores stay in the buffer\<close>


lemma addchs_fits:
  assumes "pos + length cs \<le> fin" "pos + length cs \<le> length buf"
  shows "addchs fin (pos, buf) cs = Some (pos + length cs, take pos buf @ cs @ drop (pos + length cs) buf)"
  using assms
proof (induction cs arbitrary: pos buf)
  case (Cons c cs)
  then show ?case
    by (simp add: addch_def upd_conv_take_nth_drop take_Suc_conv_app_nth min_def add.commute)
qed simp

lemma addchs_beyond:
  assumes "fin \<le> pos"
  shows "addchs fin (pos, buf) cs = Some (pos + length cs, buf)"
  using assms by (induction cs arbitrary: pos) (auto simp: addch_def)

lemma addchs_append:
  "addchs fin st (xs @ ys) = (case addchs fin st xs of None \<Rightarrow> None | Some st' \<Rightarrow> addchs fin st' ys)"
  by (induction xs arbitrary: st) (auto split: option.splits)

lemma addchs_from_0:
  assumes "fin \<le> length buf"
  shows "addchs fin (0, buf) cs = Some (length cs, take fin cs @ drop (min fin (length cs)) buf)"
proof (cases "length cs \<le> fin")
  case True
  then show ?thesis using assms addchs_fits [of 0 cs fin buf] by simp
next
  case False
  have "addchs fin (0, buf) (take fin cs @ drop fin cs) = 
    Some (length cs, take fin cs @ drop (min fin (length cs)) buf)"
    using assms False addchs_fits [of 0 "take fin cs" fin buf] addchs_beyond [of fin fin]
    by (simp only: addchs_append) simp
  then show ?thesis by simp
qed

lemma buf_end_object: "unat addr + unat sz < 2 ^ 32 \<Longrightarrow> buf_end addr sz = sz"
  by (simp add: buf_end_def word_less_nat_alt unat_word_ariths)

lemma vsnprintf_internal_emit:
  assumes "0 < sz" and "unat addr + unat sz < 2 ^ 32" and "unat sz \<le> length buf" 
    and "emit fmt args = Some out"
  shows "vsnprintf_internal addr buf sz fmt args =
    Some (of_nat (length out),
      take (unat sz - 1) out @ NUL # drop (Suc (min (unat sz - 1) (length out))) buf)"
proof -
  let ?n = "unat sz"
  have n: "0 < ?n" using assms(1) by (simp add: word_less_nat_alt)
  have out: "addchs ?n (0, buf) out = Some (length out, take ?n out @ drop (min ?n (length out)) buf)"
    by (rule addchs_from_0 [OF assms(3)])
  have take: "length out \<ge> ?n \<Longrightarrow> (take ?n out)[?n - 1 := NUL] = take (?n - 1) out @ [NUL]"
    using n by (cases ?n) (simp_all add: take_Suc_conv_app_nth list_update_append)
  show ?thesis
  proof (cases "length out < ?n")
    case True
    then show ?thesis using assms out n
      by (simp add: vsnprintf_internal_def Let_def buf_end_object addch_def list_update_append
          drop_update_swap Cons_nth_drop_Suc [symmetric])
  next
    case False
    then show ?thesis using assms out n take
      by (simp add: vsnprintf_internal_def Let_def buf_end_object addch_def list_update_append)
  qed
qed

lemma vscnprintf_emit:
  assumes "0 < sz" and "unat addr + unat sz < 2 ^ 32" and "unat sz \<le> length buf" 
    and "emit fmt args = Some out" and "length out < 2 ^ 32"
  shows "vscnprintf addr buf sz fmt args =
    Some (of_nat (min (unat sz - 1) (length out)),
      take (unat sz - 1) out @ NUL # drop (Suc (min (unat sz - 1) (length out))) buf)"
proof -
  have n: "1 \<le> unat sz" using assms(1) by (simp add: word_less_nat_alt)
  have "(if of_nat (length out) < sz then of_nat (length out) else if sz \<noteq> 0 then sz - 1 else 0)
    = of_nat (min (unat sz - 1) (length out))"
  proof (cases "length out < unat sz")
    case True
    then have "min (unat sz - 1) (length out) = length out" by simp
    then show ?thesis using True assms(5) by (simp add: word_less_nat_alt unat_of_nat)
  next
    case False
    have "of_nat (unat sz - 1) = sz - 1" using n by (simp only: of_nat_diff) simp
    moreover have "min (unat sz - 1) (length out) = unat sz - 1" using False by simp
    ultimately show ?thesis using False assms(1,5)
      by (auto simp add: word_less_nat_alt unat_of_nat)
  qed
  then show ?thesis using assms
    by (simp only: vscnprintf_def vsnprintf_def vsnprintf_internal_emit) simp
qed

lemma cstr_NUL: "cstr (xs @ NUL # ys) = cstr xs"
  by (induction xs) (simp_all add: cstr_def)

lemma cstr_Nil [simp]: "cstr [] = []"
  by (simp add: cstr_def)

lemma printf_emit:
  assumes "emit fmt args = Some out" and "length out < 2 ^ 32"
  shows "printf fmt args = Some (of_nat (min 1043 (length out)), cstr (take 1043 out))"
proof -
  have "vscnprintf 0 (replicate 1044 NUL) 1044 fmt args =
    Some (of_nat (min 1043 (length out)),
      take 1043 out @ NUL # drop (Suc (min 1043 (length out))) (replicate 1044 NUL))"
    using vscnprintf_emit [of 1044 0 "replicate 1044 NUL" fmt args out] assms by simp
  moreover have "(of_nat (min 1043 (length out)) :: u32) = 0 \<longleftrightarrow> out = []"
    using of_nat_u32_eq_0 [of "min 1043 (length out)"] by (auto simp: min_def)
  ultimately show ?thesis
    by (auto simp add: printf_def vprintf_def CONFIG_SYS_PBSIZE_def cstr_NUL)
qed

subsection \<open>Printing and parsing numbers\<close>

lemma digit_chr_props: "d < 10 \<Longrightarrow> isdigit (digit_chr d) \<and> digit_nat (digit_chr d) = d"
  by (simp add: digit_chr_def isdigit_iff digit_nat_def)

lemma isdigit_dec_rev: "c \<in> set (dec_rev n) \<Longrightarrow> isdigit c"
  by (induction n rule: dec_rev.induct)
    (subst (asm) dec_rev.simps, auto simp: digit_chr_props split: if_splits)

lemma digits_value_dec_rev: "digits_value 10 (rev (dec_rev n)) = n"
  by (induction n rule: dec_rev.induct) (subst dec_rev.simps, auto simp: digit_chr_props digits_value_def)

lemma dec_rev_Nil [simp]: "dec_rev n \<noteq> []"
  by (subst dec_rev.simps) simp

lemma digit_chr_eq_0: "d < 10 \<Longrightarrow> digit_chr d = CHR ''0'' \<longleftrightarrow> d = 0"
proof
  assume "d < 10" "digit_chr d = CHR ''0''"
  then have "(of_char (digit_chr d) :: nat) = of_char CHR ''0''" by simp
  then show "d = 0" using \<open>d < 10\<close> by (simp add: digit_chr_def)
next
  assume "d = 0"
  moreover have "digit_chr 0 = CHR ''0''" by code_simp
  ultimately show "digit_chr d = CHR ''0''" by simp
qed

lemma hd_dec_rev: "0 < n \<Longrightarrow> last (dec_rev n) \<noteq> CHR ''0''"
  by (induction n rule: dec_rev.induct) 
    (subst dec_rev.simps, auto simp: digit_chr_eq_0)

lemma hex_digit_list:
  "list_all2 (\<lambda>k c. isxdigit c \<and> digit_nat c = k) [0,1,2,3,4,5,6,7,8,9,10,11,12,13,14,15] hex_digits"
  "list_all2 (\<lambda>k c. isxdigit c \<and> digit_nat c = k) [0,1,2,3,4,5,6,7,8,9,10,11,12,13,14,15] hex_asc"
  by (simp_all add: hex_digits_def hex_asc_def digit_nat_def ebbtf_simps)

lemma digit_char_list:
  "map (digit_char 0) [0,1,2,3,4,5,6,7,8,9,10,11,12,13,14,15] = hex_digits"
  "map (digit_char SMALL) [0,1,2,3,4,5,6,7,8,9,10,11,12,13,14,15] = hex_asc"
  by code_simp+

lemma list_16: "k < 16 \<Longrightarrow> [0,1,2,3,4,5,6,7,8,9,10,11,12,13,14,15] ! k = (of_nat k :: 'a::semiring_1)"
  by (auto simp: less_Suc_eq numeral_eq_Suc)

lemma digit_char_props:
  assumes "unat d < 16" "locase = 0 \<or> locase = SMALL"
  shows "isxdigit (digit_char locase d) \<and> digit_nat (digit_char locase d) = unat d"
proof -
  let ?ks = "[0,1,2,3,4,5,6,7,8,9,10,11,12,13,14,15]"
  have k: "?ks ! unat d = unat d" "?ks ! unat d = d"
    using list_16 [OF assms(1), where 'a = nat] list_16 [OF assms(1), where 'a = "8 word"] by simp_all
  have "digit_char locase d = (if locase = 0 then hex_digits else hex_asc) ! unat d"
    using assms nth_map [of "unat d" ?ks "digit_char 0"] nth_map [of "unat d" ?ks "digit_char SMALL"]
    unfolding digit_char_list k(2) by auto
  then show ?thesis
    using hex_digit_list [THEN list_all2_nthD, of "unat d"] assms k(1) by (auto split: if_splits)
qed

lemma low_nibble: "unat (ucast (w :: u64) AND 15 :: u8) = unat w mod 16"
proof -
  have "ucast w AND (15 :: u8) = take_bit 4 (ucast w)" 
    by (simp add: take_bit_eq_mask mask_eq_exp_minus_1)
  then show ?thesis
    by (simp only: unsigned_take_bit_eq unsigned_ucast_eq)
      (simp add: take_bit_eq_mod [where 'a = nat] mod_mod_cancel)
qed

lemma unat_drop_4: "unat (drop_bit 4 (w :: u64)) = unat w div 16"
  by (simp add: unat_drop_bit_eq drop_bit_eq_div [where 'a = nat])

lemma radix_digits_hex_step:
  "radix_digits True locase w = digit_char locase (ucast w AND 15) #
     (if unat w div 16 \<noteq> 0 then radix_digits True locase (drop_bit 4 w) else [])"
proof -
  have "drop_bit 4 w = 0 \<longleftrightarrow> unat w div 16 = 0"
    by (simp only: unat_drop_4 [symmetric] unat_eq_zero)
  then show ?thesis
    by (subst radix_digits.simps) (simp only: Let_def if_True)
qed

lemma radix_digits_hex:
  assumes "locase = 0 \<or> locase = SMALL"
  shows "(\<forall>c \<in> set (radix_digits True locase w). isxdigit c) \<and>
    digits_value 16 (rev (radix_digits True locase w)) = unat w"
proof (induction "unat w" arbitrary: w rule: less_induct)
  case less
  have "unat (ucast w AND 15 :: u8) < 16" by (simp add: low_nibble)
  note d = digit_char_props [OF this assms]
  show ?case
  proof (cases "unat w div 16 = 0")
    case True
    then show ?thesis using d
      by (subst (1 2) radix_digits_hex_step) (simp add: digits_value_def low_nibble)
  next
    case False
    then have "unat w div 16 < unat w" by (intro div_less_dividend) auto
    then show ?thesis using less [of "drop_bit 4 w"] d False unat_drop_4
      by (subst (1 2) radix_digits_hex_step) (simp add: low_nibble)
  qed
qed

lemma length_radix_digits_hex:
  "unat w < 16 ^ Suc n \<Longrightarrow> length (radix_digits True locase w) \<le> Suc n"
proof (induction n arbitrary: w)
  case (Suc n)
  show ?case using Suc.IH [of "drop_bit 4 w"] Suc.prems
    by (subst radix_digits_hex_step) (simp add: unat_drop_4)
qed (subst radix_digits_hex_step, simp)

lemma dec_rev_0: "dec_rev 0 = ''0''"
  by code_simp

lemma unat_lt_u32 [bounds_simps]: "unat (w :: u32) < 4294967296"
  by (rule order_less_le_trans [OF unsigned_less]) simp

lemma unat_ucast_u64 [simp]: "unat (ucast (w :: u32) :: u64) = unat w"
  using unat_lt_u32 [of w] by (simp add: unsigned_ucast_eq take_bit_nat_eq_self)

lemma number_u: "number num 10 (-1) (-1) 0 = rev (dec_rev (unat num))"
  by (cases "num = 0") (simp_all add: number_def put_dec_dec_rev pad_def after_pad_def dec_rev_0)

lemma emit_u: "emit ''%u'' [VInt w] = Some (rev (dec_rev (unat w)))"
  by (simp add: directive_def parse_width_def is_digit_def parse_precision_def parse_qualifier_def
     convert_def va_number_def number_u)

lemmas directive_simps = directive_def parse_width_def is_digit_def parse_precision_def
  parse_qualifier_def convert_def va_number_def skip_atoi_def

definition hex_rev :: "u32 \<Rightarrow> u32 \<Rightarrow> string" where
  "hex_rev locase w = (if w = 0 then ''0'' else radix_digits True locase (ucast w))"

lemma hex_rev_props:
  assumes "locase = 0 \<or> locase = SMALL"
  shows "\<forall>c \<in> set (hex_rev locase w). isxdigit c"
    "digits_value 16 (rev (hex_rev locase w)) = unat w" "length (hex_rev locase w) \<le> 8"
    "hex_rev locase w \<noteq> []"
proof -
  have z: "isxdigit CHR ''0''" "digits_value 16 ''0'' = 0"
    by (simp_all add: digits_value_def digit_nat_def ebbtf_simps)
  show "\<forall>c \<in> set (hex_rev locase w). isxdigit c"
    "digits_value 16 (rev (hex_rev locase w)) = unat w"
    using radix_digits_hex [OF assms, of "ucast w"] z by (auto simp: hex_rev_def)
  show "length (hex_rev locase w) \<le> 8"
    using length_radix_digits_hex [of "ucast w" 7 locase] unat_lt_u32 [of w] by (simp add: hex_rev_def)
  show "hex_rev locase w \<noteq> []"
    by (simp add: hex_rev_def) (subst radix_digits_hex_step, simp)
qed

lemma ucast_u64_eq_0 [simp]: "(ucast (w :: u32) :: u64) = 0 \<longleftrightarrow> w = 0"
  using unat_ucast_u64 [of w] by (metis unat_eq_zero)

lemma number_hex:
  assumes "type \<in> {0, SMALL, ZEROPAD, ZEROPAD OR SMALL}"
  shows "number (ucast (w :: u32)) 16 sz (-1) type =
    (let tmp = hex_rev (type AND SMALL) w in
     replicate (nat sz - length tmp) (if type AND ZEROPAD \<noteq> 0 then CHR ''0'' else CHR '' '') @ rev tmp)"
proof -
  have n: "nat (sz - int k) = nat sz - k" for k by simp
  show ?thesis using assms
    by (elim insertE emptyE; cases "w = 0") (simp_all add: number_def hex_rev_def pad_def after_pad_def n)
qed

lemma digits_value_0s: "digits_value b (replicate n CHR ''0'' @ s) = digits_value b s"
proof -
  have "foldl (\<lambda>v c. v * b + digit_nat c) 0 (replicate n CHR ''0'') = 0"
    by (induction n) (simp_all add: digit_nat_def ebbtf_simps)
  then show ?thesis by (simp add: digits_value_def)
qed

lemma directive_08X:
  "directive ''08X'' (VInt w # args) = Some (number (ucast w) 16 8 (-1) ZEROPAD, [], args)"
  by (simp add: directive_simps)

text \<open>
  (C13) Decimal output is parsed back: \<open>%u\<close> prints any 32-bit value as a string that
  \<open>simple_strtoul\<close> in base 10 reads completely and maps to the same value.
\<close>
theorem print_parse_decimal:
  "\<exists>s. emit ''%u'' [VInt w] = Some s \<and> no_nul s \<and> simple_strtoul s 10 = (w, [])"
proof -
  have "simple_strtoul (rev (dec_rev (unat w)) @ []) 10 = (of_nat (digits_value 10 (rev (dec_rev (unat w)))), [])"
    by (rule simple_strtoul_10) (auto dest: isdigit_dec_rev)
  moreover have "no_nul (rev (dec_rev (unat w)))"
    using isdigit_dec_rev [of NUL] by (auto simp: no_nul_def isdigit_iff)
  ultimately show ?thesis
    by (intro exI [of _ "rev (dec_rev (unat w))"] conjI emit_u) (simp_all add: digits_value_dec_rev)
qed

text \<open>
  Register dumps are parsed back: \<open>0x%08X\<close> prints any 32-bit value as ten characters that
  \<open>simple_strtoul\<close> reads completely, in base 16 and with the base detected, as the same value.
\<close>
theorem print_parse_hex:
  "\<exists>s. emit ''0x%08X'' [VInt w] = Some s \<and> length s = 10 \<and>
       simple_strtoul s 16 = (w, []) \<and> simple_strtoul s 0 = (w, [])"
proof -
  let ?h = "hex_rev 0 w" let ?d = "replicate (8 - length ?h) CHR ''0'' @ rev ?h"
  note h = hex_rev_props [of 0 w, simplified]
  have e: "emit ''0x%08X'' [VInt w] = Some (''0x'' @ ?d)"
    by (simp add: directive_08X number_hex Let_def)
  have x: "isxdigit CHR ''0''" by (simp add: ebbtf_simps)
  have "simple_strtoul (''0x'' @ ?d @ []) b = (of_nat (digits_value 16 ?d), [])" if "b \<in> {0, 16}" for b
    using that h x by (intro simple_strtoul_0x) auto
  then show ?thesis using e h by (simp add: digits_value_0s)
qed

text \<open>
  (C6) \<open>vsnprintf\<close> on a buffer of at least \<open>size > 0\<close> characters: no store leaves the buffer,
  the buffer then holds the output cut to \<open>size - 1\<close> characters and a NUL, everything behind
  that NUL is unchanged, and the result is the length of the uncut output. With \<open>size\<close> 0
  nothing is stored.
\<close>
theorem vsnprintf_truncates:
  assumes "emit fmt args = Some out" and "unat addr + unat sz < 2 ^ 32" and "unat sz \<le> length buf"
  shows "vsnprintf addr buf sz fmt args =
    Some (of_nat (length out),
      if sz = 0 then buf
      else take (unat sz - 1) out @ NUL # drop (Suc (min (unat sz - 1) (length out))) buf)"
proof (cases "sz = 0")
  case True
  then show ?thesis using assms addchs_beyond [of 0 0 buf out]
    by (simp add: vsnprintf_def vsnprintf_internal_def buf_end_def)
next
  case False
  then have "0 < sz" by (simp add: word_gt_0)
  then show ?thesis using vsnprintf_internal_emit [OF _ assms(2,3,1)] False by (simp add: vsnprintf_def)
qed

theorem vsnprintf_truncates_witness:
  "vsnprintf 0x1000 ''abcdefgh'' 5 ''id=%u!'' [VInt 1234] = Some (8, ''id=1'' @ NUL # ''fgh'')"
proof -
  have "emit ''id=%u!'' [VInt 1234] = Some ''id=1234!''" by code_simp
  from vsnprintf_truncates [OF this, where addr = "0x1000" and sz = 5 and buf = "''abcdefgh''"] show ?thesis by simp
qed

subsection \<open>Unbounded output\<close>

lemma addchs_overflow:
  assumes "length buf < pos + length cs" "length buf < fin" "pos \<le> length buf"
  shows "addchs fin (pos, buf) cs = None"
  using assms
proof (induction cs arbitrary: pos buf)
  case (Cons c cs)
  then show ?case by (cases "pos = length buf") (simp_all add: addch_def)
qed simp

text \<open>The whole address space behind a buffer is below \<open>end\<close> when the bound is \<open>INT_MAX\<close>.\<close>

lemma buf_end_INT_MAX:
  assumes "unat addr + n < 2 ^ 32 - 1" "n < 2 ^ 31 - 1"
  shows "n < unat (buf_end addr INT_MAX)"
proof (cases "addr + INT_MAX < addr")
  case True
  have "unat (- 1 - addr) = 2 ^ 32 - 1 - unat addr"
    using unat_sub [OF word_order.extremum [of addr]]
    by (simp add: unsigned_minus_1_eq_mask mask_eq_exp_minus_1)
  then show ?thesis using True assms by (simp add: buf_end_def)
next
  case False
  then show ?thesis using assms by (simp add: buf_end_def INT_MAX_def)
qed

lemma vsprintf_fits:
  assumes "emit fmt args = Some out" and "length out < length buf"
    and "unat addr + length buf < 2 ^ 32" "length buf < 2 ^ 31"
  shows "vsprintf addr buf fmt args = Some (of_nat (length out), out @ NUL # drop (Suc (length out)) buf)"
proof -
  let ?fin = "unat (buf_end addr INT_MAX)"
  have n: "length out < ?fin" "length buf - 1 < ?fin" using assms by (auto intro!: buf_end_INT_MAX)
  have "0 < buf_end addr INT_MAX" using n by (simp add: word_less_nat_alt)
  moreover have "addchs ?fin (0, buf) out = Some (length out, out @ drop (length out) buf)"
    using addchs_fits [of 0 out ?fin buf] n assms(2) by simp
  ultimately show ?thesis using assms n
    by (simp add: vsprintf_def vsnprintf_internal_def Let_def addch_def list_update_append
        Cons_nth_drop_Suc [symmetric])
qed

lemma vsprintf_overflows:
  assumes "emit fmt args = Some out" and "length buf \<le> length out"
    and "unat addr + length buf < 2 ^ 32 - 1" "length buf < 2 ^ 31 - 1"
  shows "vsprintf addr buf fmt args = None"
proof -
  let ?fin = "unat (buf_end addr INT_MAX)"
  have n: "length buf < ?fin" using assms by (intro buf_end_INT_MAX)
  have z: "0 < buf_end addr INT_MAX" using n by (simp add: word_less_nat_alt)
  show ?thesis
  proof (cases "length out = length buf")
    case True
    then have "addchs ?fin (0, buf) out = Some (length out, out)"
      using addchs_fits [of 0 out ?fin buf] n by simp
    then show ?thesis using assms n z True
      by (simp add: vsprintf_def vsnprintf_internal_def Let_def addch_def)
  next
    case False
    then have "addchs ?fin (0, buf) out = None"
      using assms(2) n by (intro addchs_overflow) auto
    then show ?thesis using assms by (simp add: vsprintf_def vsnprintf_internal_def Let_def)
  qed
qed

text \<open>
  (C12) \<open>sprintf\<close> is given no bound. It stays in the buffer it writes to exactly when the
  output and its NUL fit, and then stores just them and returns the length.
\<close>

theorem sprintf_safe_iff:
  assumes "emit fmt args = Some out"
    and "unat addr + length buf < 2 ^ 32 - 1" "length buf < 2 ^ 31 - 1"
  shows "sprintf addr buf fmt args =
    (if length out < length buf
     then Some (of_nat (length out), out @ NUL # drop (Suc (length out)) buf) else None)"
  using assms vsprintf_fits [of fmt args out buf addr] vsprintf_overflows [of fmt args out buf addr]
  by (simp add: sprintf_def)

theorem sprintf_safe_iff_witness:
  "sprintf 0x9000 ''........'' ''%u'' [VInt 1234567] = Some (7, ''1234567'' @ [NUL]) \<and>
   sprintf 0x9000 ''.......'' ''%u'' [VInt 1234567] = None"
proof -
  have "emit ''%u'' [VInt 1234567] = Some ''1234567''" by code_simp
  from sprintf_safe_iff [OF this, of "0x9000" "''........''"]
    sprintf_safe_iff [OF this, of "0x9000" "''.......''"] show ?thesis by simp
qed

subsection \<open>Which formats match their arguments\<close>

text \<open>
  Whether the arguments match the format depends on their kinds only: \<open>skel\<close> forgets the values.
\<close>

fun skel :: "va_arg \<Rightarrow> va_arg" where
  "skel (VInt w) = VInt 0"
| "skel (VLLong w) = VLLong 0"
| "skel (VStr s) = VStr None"
| "skel (VPtr p mem) = VPtr 0 (replicate (length mem) 0)"

lemma va_skel:
  "va_int (map skel args) = map_option (\<lambda>(w, as). (0, map skel as)) (va_int args)"
  "va_llong (map skel args) = map_option (\<lambda>(w, as). (0, map skel as)) (va_llong args)"
  "va_str (map skel args) = map_option (\<lambda>(w, as). (None, map skel as)) (va_str args)"
  "va_ptr (map skel args) =
     map_option (\<lambda>((p, mem), as). ((0, replicate (length mem) 0), map skel as)) (va_ptr args)"
  by (cases args; cases "hd args"; simp)+

definition same_rest :: "('b \<times> string \<times> va_arg list) option \<Rightarrow> ('b \<times> string \<times> va_arg list) option \<Rightarrow> bool" where
  "same_rest x y \<longleftrightarrow> map_option (\<lambda>(_, f, as). (f, map skel as)) x = map_option snd y"

lemma parse_width_skel:
  "map_option (\<lambda>(w, fl, f, as). (f, map skel as)) (parse_width fmt flags args) =
   map_option (\<lambda>(w, fl, f, as). (f, as)) (parse_width fmt flags' (map skel args))"
  by (auto simp: parse_width_def va_skel option.map_comp split: prod.splits option.splits)

lemma parse_precision_skel:
  "same_rest (parse_precision fmt args) (parse_precision fmt (map skel args))"
  by (auto simp: same_rest_def parse_precision_def Let_def va_skel split: prod.splits option.splits)

lemma pointer_skel:
  "pointer fmt p mem w pr fl = None \<longleftrightarrow> pointer fmt p' (replicate (length mem) 0) w' pr' fl' = None"
  by (auto simp: pointer_def Let_def)

lemma va_number_skel:
  "map_option (\<lambda>(w, as). map skel as) (va_number q fl args) = map_option snd (va_number q fl' (map skel args))"
  by (auto simp: va_number_def va_skel option.map_comp comp_def split_def)

lemma same_rest_if:
  "same_rest a a' \<Longrightarrow> same_rest b b' \<Longrightarrow> same_rest (if c then a else b) (if c then a' else b')"
  by simp

lemma same_rest_simps [simp]:
  "same_rest None None" "same_rest (Some (o1, f, as)) (Some (o2, f, map skel as))"
  by (simp_all add: same_rest_def)

lemma convert_skel:
  "same_rest (convert fl w p q fmt args) (convert fl' w' p' q fmt (map skel args))"
proof -
  have n: "same_rest
      (case va_number q fl args of None \<Rightarrow> None | Some (num, as) \<Rightarrow> Some (number num b w p fl2, r, as))
      (case va_number q fl' (map skel args) of None \<Rightarrow> None | Some (num, as) \<Rightarrow> Some (number num b' w' p' fl2', r, as))"
    for b b' fl fl' fl2 fl2' r
    using va_number_skel [of q fl args fl']
    by (cases "va_number q fl args"; cases "va_number q fl' (map skel args)") auto
  have pt: "same_rest
      (case va_ptr args of None \<Rightarrow> None | Some ((pt, mem), as) \<Rightarrow>
         (case pointer r pt mem w p fl of None \<Rightarrow> None | Some out \<Rightarrow> Some (out, r', as)))
      (case va_ptr (map skel args) of None \<Rightarrow> None | Some ((pt, mem), as) \<Rightarrow>
         (case pointer r pt mem w' p' fl' of None \<Rightarrow> None | Some out \<Rightarrow> Some (out, r', as)))"
    for r r'
  proof (cases "va_ptr args")
    case (Some x)
    then obtain pt mem as where x: "va_ptr args = Some ((pt, mem), as)" by (cases x) auto
    show ?thesis using pointer_skel [of r pt mem w p fl 0 w' p' fl']
      by (cases "pointer r pt mem w p fl"; cases "pointer r 0 (replicate (length mem) 0) w' p' fl'")
        (auto simp: va_skel x)
  qed (simp add: va_skel)
  have c: "same_rest
      (case va_int args of None \<Rightarrow> None | Some (c, as) \<Rightarrow> Some (char_conv c w fl, r, as))
      (case va_int (map skel args) of None \<Rightarrow> None | Some (c, as) \<Rightarrow> Some (char_conv c w' fl', r, as))" for r
    by (auto simp: va_skel split: option.splits)
  have st: "same_rest
      (case va_str args of None \<Rightarrow> None | Some (c, as) \<Rightarrow> Some (string_conv c w p fl, r, as))
      (case va_str (map skel args) of None \<Rightarrow> None | Some (c, as) \<Rightarrow> Some (string_conv c w' p' fl', r, as))" for r
    by (auto simp: va_skel split: option.splits)
  show ?thesis
    unfolding convert_def Let_def by (intro same_rest_if n pt c st same_rest_simps)
qed

lemma same_rest_cases:
  assumes "same_rest x y"
  obtains "x = None" "y = None"
  | a b f as where "x = Some (a, f, as)" "y = Some (b, f, map skel as)"
  using assms by (cases x; cases y) (auto simp: same_rest_def)

lemma directive_skel: "same_rest (directive fmt args) (directive fmt (map skel args))"
proof -
  obtain fl f where p: "parse_flags fmt 0 = (fl, f)" by fastforce
  show ?thesis
  proof (cases "parse_width f fl args")
    case None
    then show ?thesis using p parse_width_skel [of f fl args fl]
      by (simp add: directive_def same_rest_def)
  next
    case (Some r)
    then obtain w fl2 f2 as2 where w: "parse_width f fl args = Some (w, fl2, f2, as2)"
      by (cases r) auto
    then obtain w' fl2' where w': "parse_width f fl (map skel args) = Some (w', fl2', f2, map skel as2)"
      using parse_width_skel [of f fl args fl] by (cases "parse_width f fl (map skel args)") auto
    show ?thesis
      using parse_precision_skel [of f2 as2]
      by (rule same_rest_cases) 
        (auto simp: directive_def p w w' convert_skel same_rest_def [of None] split: prod.split)
  qed
qed

lemma emit_skel: "emit fmt (map skel args) = None \<longleftrightarrow> emit fmt args = None"
proof (induction fmt args rule: emit.induct)
  case (2 c fmt args)
  show ?case using directive_skel [of fmt args]
    by (rule same_rest_cases) (use 2 in \<open>auto split: prod.splits\<close>)
qed simp

lemma printf_None_iff: "printf fmt args = None \<longleftrightarrow> emit fmt args = None"
proof (cases "emit fmt args")
  case None
  then show ?thesis by (simp add: printf_def vprintf_def vscnprintf_def vsnprintf_def vsnprintf_internal_def Let_def)
next
  case (Some out)
  then show ?thesis
    using vsnprintf_internal_emit [of CONFIG_SYS_PBSIZE 0 "replicate (unat CONFIG_SYS_PBSIZE) NUL" fmt args out]
    by (simp add: printf_def vprintf_def vscnprintf_def vsnprintf_def CONFIG_SYS_PBSIZE_def)
qed

lemma printf_matches: "emit fmt (map skel args) \<noteq> None \<Longrightarrow> printf fmt args \<noteq> None"
  by (simp add: printf_None_iff emit_skel)

end
