(* ===== verification/Eventlog.thy ===== *)
theory Eventlog
  imports Vsprintf
begin

text \<open>
  Events, results and the console log: \<^verbatim>\<open>test-framework/common/eventId.h\<close>, \<^verbatim>\<open>eventlog.c\<close>,
  \<^verbatim>\<open>consolelog.c\<close>.

  The state that the log shares with the device tests is a record: the characters printed on
  the console so far, the log mode, the log mask, the current test id, and the hardware that
  the device tests talk to, a type parameter. Undefined behaviour of C (a \<open>printf\<close> whose
  arguments do not match its format, an access outside an array) sets the flag \<open>ub\<close>, after
  which the state says nothing about the program.
\<close>

subsection \<open>Event and result types\<close>

datatype DiagErrEventIDTypes_e =
  DIAG_INFO_EVENT | DIAG_GENERIC_ERR_EVENT | DIAG_ASSERT_ERR_EVENT | DIAG_COM_ASSERT_ERR_EVENT
  | DIAG_TEST_NOT_FOUND_ERR_EVENT | DIAG_BUS_INIT_ERR_EVENT | DIAG_BUS_READ_ERR_EVENT
  | DIAG_BUS_WRITE_ERR_EVENT | DIAG_BUS_NOT_FOUND_ERR_EVENT | DIAG_BUS_BUFFER_OVERRUN_ERR_EVENT
  | DIAG_BUS_BUFFER_UNDERRUN_ERR_EVENT | DIAG_BUS_CONFIG_ERR_EVENT
  | DIAG_BUS_DATA_MISMATCH_ERR_EVENT | DIAG_BUS_TIMEOUT_ERR_EVENT | DIAG_DEV_INIT_ERR_EVENT
  | DIAG_DEV_NOT_PRESENT_ERR_EVENT | DIAG_DEV_READ_ERR_EVENT | DIAG_DEV_WRITE_ERR_EVENT
  | DIAG_DEV_DATA_MISMATCH_ERR_EVENT | DIAG_DEV_DATA_TIMEOUT_ERR_EVENT
  | DIAG_DEV_COMMAND_ERR_EVENT | DIAG_DEV_ID_MISMATCH_ERR_EVENT | DIAG_DEV_ADDR_ERR_EVENT
  | DIAG_DEV_RESET_ERR_EVENT | DIAG_DEV_CONFIG_ERR_EVENT | DIAG_DEV_BUFFER_OVERRUN_ERR_EVENT
  | DIAG_DEV_BUFFER_UNDERRUN_ERR_EVENT | DIAG_DEV_UNEXPECTED_DEVICE_ERR_EVENT
  | DIAG_DEV_TIMEOUT_ERR_EVENT | DIAG_DEV_ERASE_ERR_EVENT | DIAG_VALUE_NOT_EXPECTED_ERR_EVENT
  | DIAG_VALUE_TOO_SMALL_ERR_EVENT | DIAG_VALUE_TOO_LARGE_ERR_EVENT
  | DIAG_VALUE_NOT_IN_RANGE_ERR_EVENT | DIAG_MODE_PROTECTED_ERR_EVENT
  | DIAG_MEMORY_ALLOC_ERR_EVENT | DIAG_MEMORY_FREE_ERR_EVENT

definition event_list :: "DiagErrEventIDTypes_e list" where
  "event_list = [
    DIAG_INFO_EVENT, DIAG_GENERIC_ERR_EVENT, DIAG_ASSERT_ERR_EVENT, DIAG_COM_ASSERT_ERR_EVENT
    , DIAG_TEST_NOT_FOUND_ERR_EVENT, DIAG_BUS_INIT_ERR_EVENT, DIAG_BUS_READ_ERR_EVENT
    , DIAG_BUS_WRITE_ERR_EVENT, DIAG_BUS_NOT_FOUND_ERR_EVENT, DIAG_BUS_BUFFER_OVERRUN_ERR_EVENT
    , DIAG_BUS_BUFFER_UNDERRUN_ERR_EVENT, DIAG_BUS_CONFIG_ERR_EVENT
    , DIAG_BUS_DATA_MISMATCH_ERR_EVENT, DIAG_BUS_TIMEOUT_ERR_EVENT, DIAG_DEV_INIT_ERR_EVENT
    , DIAG_DEV_NOT_PRESENT_ERR_EVENT, DIAG_DEV_READ_ERR_EVENT, DIAG_DEV_WRITE_ERR_EVENT
    , DIAG_DEV_DATA_MISMATCH_ERR_EVENT, DIAG_DEV_DATA_TIMEOUT_ERR_EVENT
    , DIAG_DEV_COMMAND_ERR_EVENT, DIAG_DEV_ID_MISMATCH_ERR_EVENT, DIAG_DEV_ADDR_ERR_EVENT
    , DIAG_DEV_RESET_ERR_EVENT, DIAG_DEV_CONFIG_ERR_EVENT, DIAG_DEV_BUFFER_OVERRUN_ERR_EVENT
    , DIAG_DEV_BUFFER_UNDERRUN_ERR_EVENT, DIAG_DEV_UNEXPECTED_DEVICE_ERR_EVENT
    , DIAG_DEV_TIMEOUT_ERR_EVENT, DIAG_DEV_ERASE_ERR_EVENT, DIAG_VALUE_NOT_EXPECTED_ERR_EVENT
    , DIAG_VALUE_TOO_SMALL_ERR_EVENT, DIAG_VALUE_TOO_LARGE_ERR_EVENT
    , DIAG_VALUE_NOT_IN_RANGE_ERR_EVENT, DIAG_MODE_PROTECTED_ERR_EVENT
    , DIAG_MEMORY_ALLOC_ERR_EVENT, DIAG_MEMORY_FREE_ERR_EVENT]"

text \<open>The enumerators are numbered consecutively, \<open>DIAG_INFO_EVENT\<close> is 2.\<close>

definition event_code :: "DiagErrEventIDTypes_e \<Rightarrow> u32" where
  "event_code e = 2 + of_nat (length (takeWhile (\<lambda>x. x \<noteq> e) event_list))"

datatype ControlRunTypes_e =
  DIAG_CONTROLRUN_IDLE | DIAG_CONTROLRUN_START | DIAG_CONTROLRUN_STOP | DIAG_CONTROLRUN_ABORT

datatype TestResultTypes_e =
  DIAG_TEST_RESULT_NOT_STARTED | DIAG_TEST_RESULT_IN_PROGRESS | DIAG_TEST_RESULT_PASS
| DIAG_TEST_RESULT_ABORTED | DIAG_TEST_RESULT_TIMEOUT | DIAG_TEST_RESULT_FAIL

definition DIAG_DIM_ADDRESS_SET_EVENT :: nat where
  "DIAG_DIM_ADDRESS_SET_EVENT = 6"

definition DIAG_DIM_STRING_EVENT :: nat where
  "DIAG_DIM_STRING_EVENT = 256"

text \<open>\<open>string\<close> is the whole character array, so a store behind its end can be seen.\<close>

record DiagEventParams_s =
  eventType :: u32
  sequence :: u32
  tv_sec :: u32
  tv_nsec :: u32
  objectId :: u32
  addressDim :: u32
  address :: "u32 list"
  string_ev :: string

subsection \<open>The shared state\<close>

datatype LogMode_e = CONSOLE_LOG_MODE

record 'hw io =
  console :: string
  s_logMode :: LogMode_e
  s_logMask :: u32
  curTestId :: u32
  hw :: 'hw
  ub :: bool

definition printf_io :: "string \<Rightarrow> va_arg list \<Rightarrow> 'hw io \<Rightarrow> 'hw io" where
  "printf_io fmt args s =
     (case printf fmt args of
        None \<Rightarrow> s\<lparr>ub := True\<rparr>
      | Some (_, out) \<Rightarrow> s\<lparr>console := console s @ out\<rparr>)"

definition vprintf_io :: "string \<Rightarrow> va_arg list \<Rightarrow> 'hw io \<Rightarrow> 'hw io" where
  "vprintf_io fmt vl s =
     (case vprintf fmt vl of
        None \<Rightarrow> s\<lparr>ub := True\<rparr>
      | Some (_, out) \<Rightarrow> s\<lparr>console := console s @ out\<rparr>)"

definition set_ub :: "'hw io \<Rightarrow> 'hw io" where
  "set_ub s = s\<lparr>ub := True\<rparr>"

subsection \<open>Console log\<close>

definition LOG_MASK_PASS :: u32 where "LOG_MASK_PASS = 0x01"
definition LOG_MASK_ERROR :: u32 where "LOG_MASK_ERROR = 0x02"
definition LOG_MASK_INFO :: u32 where "LOG_MASK_INFO = 0x04"
definition LOG_MASK_DEBUG :: u32 where "LOG_MASK_DEBUG = 0x08"
definition LOG_MASK_STATUS :: u32 where "LOG_MASK_STATUS = 0x10"
definition LOG_MASK_LIST :: u32 where "LOG_MASK_LIST = 0x20"
definition LOG_MASK_COM :: u32 where "LOG_MASK_COM = 0x40"
definition LOG_MASK_COM_ERROR :: u32 where "LOG_MASK_COM_ERROR = 0x80"
definition LOG_MASK_ALL :: u32 where "LOG_MASK_ALL = 0xFFFF"

lemmas log_mask_defs = LOG_MASK_PASS_def LOG_MASK_ERROR_def LOG_MASK_INFO_def LOG_MASK_DEBUG_def
  LOG_MASK_STATUS_def LOG_MASK_LIST_def LOG_MASK_COM_def LOG_MASK_COM_ERROR_def LOG_MASK_ALL_def

definition SetLogMask :: "u32 \<Rightarrow> 'hw io \<Rightarrow> 'hw io" where
  "SetLogMask lm s = s\<lparr>s_logMask := lm\<rparr>"

definition GetLogMask :: "'hw io \<Rightarrow> u32" where
  "GetLogMask s = s_logMask s"

text \<open>The strings that the switch returns, \<open>#x\<close> of each enumerator, in the order of the enum.\<close>

definition event_names :: "string list" where
  "event_names = [
    ''DIAG_INFO_EVENT'', ''DIAG_GENERIC_ERR_EVENT'', ''DIAG_ASSERT_ERR_EVENT''
    , ''DIAG_COM_ASSERT_ERR_EVENT'', ''DIAG_TEST_NOT_FOUND_ERR_EVENT''
    , ''DIAG_BUS_INIT_ERR_EVENT'', ''DIAG_BUS_READ_ERR_EVENT'', ''DIAG_BUS_WRITE_ERR_EVENT''
    , ''DIAG_BUS_NOT_FOUND_ERR_EVENT'', ''DIAG_BUS_BUFFER_OVERRUN_ERR_EVENT''
    , ''DIAG_BUS_BUFFER_UNDERRUN_ERR_EVENT'', ''DIAG_BUS_CONFIG_ERR_EVENT''
    , ''DIAG_BUS_DATA_MISMATCH_ERR_EVENT'', ''DIAG_BUS_TIMEOUT_ERR_EVENT''
    , ''DIAG_DEV_INIT_ERR_EVENT'', ''DIAG_DEV_NOT_PRESENT_ERR_EVENT''
    , ''DIAG_DEV_READ_ERR_EVENT'', ''DIAG_DEV_WRITE_ERR_EVENT''
    , ''DIAG_DEV_DATA_MISMATCH_ERR_EVENT'', ''DIAG_DEV_DATA_TIMEOUT_ERR_EVENT''
    , ''DIAG_DEV_COMMAND_ERR_EVENT'', ''DIAG_DEV_ID_MISMATCH_ERR_EVENT''
    , ''DIAG_DEV_ADDR_ERR_EVENT'', ''DIAG_DEV_RESET_ERR_EVENT'', ''DIAG_DEV_CONFIG_ERR_EVENT''
    , ''DIAG_DEV_BUFFER_OVERRUN_ERR_EVENT'', ''DIAG_DEV_BUFFER_UNDERRUN_ERR_EVENT''
    , ''DIAG_DEV_UNEXPECTED_DEVICE_ERR_EVENT'', ''DIAG_DEV_TIMEOUT_ERR_EVENT''
    , ''DIAG_DEV_ERASE_ERR_EVENT'', ''DIAG_VALUE_NOT_EXPECTED_ERR_EVENT''
    , ''DIAG_VALUE_TOO_SMALL_ERR_EVENT'', ''DIAG_VALUE_TOO_LARGE_ERR_EVENT''
    , ''DIAG_VALUE_NOT_IN_RANGE_ERR_EVENT'', ''DIAG_MODE_PROTECTED_ERR_EVENT''
    , ''DIAG_MEMORY_ALLOC_ERR_EVENT'', ''DIAG_MEMORY_FREE_ERR_EVENT'']"

definition GetEventName :: "u32 \<Rightarrow> string" where
  "GetEventName event =
     (case find (\<lambda>(e, _). event_code e = event) (zip event_list event_names) of
        Some (_, name) \<Rightarrow> name
      | None \<Rightarrow>
          (case sprintf 0 (replicate 32 NUL) ''Status_%03d '' [VInt event] of
             None \<Rightarrow> [] | Some (_, tempStatusName) \<Rightarrow> cstr tempStatusName))"

text \<open>\<open>&(#x[10])\<close> skips the first ten characters, \<^verbatim>\<open>DIAG_TEST_\<close>, of the enumerator.\<close>

fun result_enumerator :: "TestResultTypes_e \<Rightarrow> string" where
  "result_enumerator DIAG_TEST_RESULT_NOT_STARTED = ''DIAG_TEST_RESULT_NOT_STARTED''"
| "result_enumerator DIAG_TEST_RESULT_IN_PROGRESS = ''DIAG_TEST_RESULT_IN_PROGRESS''"
| "result_enumerator DIAG_TEST_RESULT_PASS = ''DIAG_TEST_RESULT_PASS''"
| "result_enumerator DIAG_TEST_RESULT_ABORTED = ''DIAG_TEST_RESULT_ABORTED''"
| "result_enumerator DIAG_TEST_RESULT_TIMEOUT = ''DIAG_TEST_RESULT_TIMEOUT''"
| "result_enumerator DIAG_TEST_RESULT_FAIL = ''DIAG_TEST_RESULT_FAIL''"

definition GetTestResult :: "TestResultTypes_e \<Rightarrow> string" where
  "GetTestResult result = drop 10 (result_enumerator result)"

text \<open>The loop over \<open>address\<close>: reading behind the array is undefined.\<close>

fun show_addresses :: "nat \<Rightarrow> u32 list \<Rightarrow> 'hw io \<Rightarrow> 'hw io" where
  "show_addresses 0 as s = s"
| "show_addresses (Suc n) [] s = set_ub s"
| "show_addresses (Suc n) (a # as) s = show_addresses n as (printf_io '' - %X'' [VInt a] s)"

definition console_showevent :: "DiagEventParams_s \<Rightarrow> 'hw io \<Rightarrow> 'hw io" where
  "console_showevent event s =
     (let s = printf_io ''  %08X  Evt: %s\<newline>''
                [VInt (objectId event), VStr (Some (GetEventName (eventType event)))] s;
          s = (if addressDim event \<noteq> 0 then
                 let s = printf_io ''  %08X       Address'' [VInt (objectId event)] s;
                     s = show_addresses (unat (addressDim event)) (address event) s
                 in printf_io ''\<newline>'' [] s
               else s)
      in printf_io ''  %08X       %s\<newline>''
           [VInt (objectId event), VStr (Some (cstr (string_ev event)))] s)"

definition console_showresult :: "u32 \<Rightarrow> TestResultTypes_e \<Rightarrow> 'hw io \<Rightarrow> 'hw io" where
  "console_showresult testId result s =
     (if result = DIAG_TEST_RESULT_PASS \<and> s_logMask s AND LOG_MASK_PASS = 0 then s
      else printf_io ''  %08X  Res: %s\<newline>'' [VInt testId, VStr (Some (GetTestResult result))] s)"

definition console_showerrevent :: "u32 \<Rightarrow> u32 \<Rightarrow> 'hw io \<Rightarrow> 'hw io" where
  "console_showerrevent testId error_code s =
     (if s_logMask s AND LOG_MASK_ERROR = 0 then s
      else printf_io ''  %08X  Err: %s\<newline>''
             [VInt testId, VStr (Some (GetEventName error_code))] s)"

definition console_showerroreventmessage ::
  "u32 \<Rightarrow> u32 \<Rightarrow> string \<Rightarrow> va_arg list \<Rightarrow> 'hw io \<Rightarrow> 'hw io" where
  "console_showerroreventmessage testId error_code fmt vl s =
     (if s_logMask s AND LOG_MASK_ERROR = 0 then s
      else
        let s = printf_io ''  %08X  Emg: %s ''
                  [VInt testId, VStr (Some (GetEventName error_code))] s;
            s = vprintf_io fmt vl s
        in printf_io ''\<newline>'' [] s)"

definition console_showinfo :: "u32 \<Rightarrow> string \<Rightarrow> va_arg list \<Rightarrow> 'hw io \<Rightarrow> 'hw io" where
  "console_showinfo testId fmt vl s =
     (if s_logMask s AND LOG_MASK_INFO = 0 then s
      else
        let s = printf_io ''  %08X  Inf: '' [VInt testId] s;
            s = vprintf_io fmt vl s
        in printf_io ''\<newline>'' [] s)"

text \<open>The debug line is guarded by the error bit of the mask, not by \<open>LOG_MASK_DEBUG\<close>.\<close>

definition console_showdebuginfo :: "u32 \<Rightarrow> string \<Rightarrow> va_arg list \<Rightarrow> 'hw io \<Rightarrow> 'hw io" where
  "console_showdebuginfo testId fmt vl s =
     (if s_logMask s AND LOG_MASK_ERROR = 0 then s
      else
        let s = printf_io ''  %08X  Dbg: '' [VInt testId] s;
            s = vprintf_io fmt vl s
        in printf_io ''\<newline>'' [] s)"

subsection \<open>Event log\<close>

definition SetLoggingMode :: "LogMode_e \<Rightarrow> 'hw io \<Rightarrow> 'hw io" where
  "SetLoggingMode logMode s = s\<lparr>s_logMode := logMode\<rparr>"

definition ReportResult :: "u32 \<Rightarrow> TestResultTypes_e \<Rightarrow> 'hw io \<Rightarrow> 'hw io" where
  "ReportResult testId result s =
     (let s = s\<lparr>curTestId := 0\<rparr> in
      if s_logMode s = CONSOLE_LOG_MODE then console_showresult testId result s else s)"

definition Event_Init :: "u32 \<Rightarrow> 'hw io \<Rightarrow> DiagEventParams_s" where
  "Event_Init testId s =
     \<lparr>eventType = 0, sequence = 0, tv_sec = 0, tv_nsec = 0,
      objectId = (if testId = 0 then curTestId s else testId), addressDim = 0,
      address = replicate DIAG_DIM_ADDRESS_SET_EVENT 0,
      string_ev = replicate DIAG_DIM_STRING_EVENT NUL\<rparr>"

definition ReportEvent :: "DiagEventParams_s \<Rightarrow> 'hw io \<Rightarrow> 'hw io" where
  "ReportEvent event s =
     (if s_logMode s = CONSOLE_LOG_MODE then console_showevent event s else s)"

definition ReportErrEventMsg :: "u32 \<Rightarrow> u32 \<Rightarrow> string \<Rightarrow> va_arg list \<Rightarrow> 'hw io \<Rightarrow> 'hw io" where
  "ReportErrEventMsg testId event fmt vl s =
     (if s_logMode s = CONSOLE_LOG_MODE then console_showerroreventmessage testId event fmt vl s
      else s)"

definition ReportErrEvent :: "u32 \<Rightarrow> u32 \<Rightarrow> 'hw io \<Rightarrow> 'hw io" where
  "ReportErrEvent testId event s =
     (if s_logMode s = CONSOLE_LOG_MODE then console_showerrevent testId event s else s)"

text \<open>The macro \<open>DEBUG_ASSERT\<close>; \<open>file\<close> and \<open>line\<close> are \<open>__FILE__\<close> and \<open>__LINE__\<close> of its use.\<close>

definition DEBUG_ASSERT :: "string \<Rightarrow> u32 \<Rightarrow> 'hw io \<Rightarrow> 'hw io" where
  "DEBUG_ASSERT file line s =
     ReportErrEventMsg 0 (event_code DIAG_ASSERT_ERR_EVENT) ''### ASSERT ### %s  %d\<newline>''
       [VStr (Some file), VInt line] s"

subsection \<open>Logging leaves the hardware alone\<close>

text \<open>
  A log step: the console only grows, and hardware, log settings and the flag for undefined
  behaviour stay as they are.
\<close>

named_theorems log_intros \<open>steps that only log\<close>

definition log_step :: "'hw io \<Rightarrow> 'hw io \<Rightarrow> bool" where
  "log_step s s' \<longleftrightarrow> hw s' = hw s \<and> s_logMode s' = s_logMode s \<and> s_logMask s' = s_logMask s \<and>
     ub s' = ub s \<and> (\<exists>t. console s' = console s @ t)"

lemma log_step_refl [simp, intro]: "log_step s s"
  by (simp add: log_step_def)

lemma log_step_trans: "log_step s s' \<Longrightarrow> log_step s' s'' \<Longrightarrow> log_step s s''"
  by (auto simp: log_step_def)

lemma log_step_printf_io:
  "emit fmt (map skel args) \<noteq> None \<Longrightarrow> log_step s (printf_io fmt args s)"
  using printf_matches [of fmt args] by (auto simp: log_step_def printf_io_def split: option.splits)

lemma log_step_vprintf_io:
  "emit fmt (map skel args) \<noteq> None \<Longrightarrow> log_step s (vprintf_io fmt args s)"
  using printf_matches [of fmt args]
  by (auto simp: log_step_def vprintf_io_def printf_def split: option.splits)

text \<open>
  The rules that peel the last step off a sequence of log steps. The kinds of the arguments
  are spelled out, so that the condition on the format is a closed term.
\<close>

lemma log_printf [log_intros]:
  "emit fmt [] \<noteq> None \<Longrightarrow> log_step s s1 \<Longrightarrow> log_step s (printf_io fmt [] s1)"
  "emit fmt [VInt 0] \<noteq> None \<Longrightarrow> log_step s s1 \<Longrightarrow> log_step s (printf_io fmt [VInt a] s1)"
  "emit fmt [VStr None] \<noteq> None \<Longrightarrow> log_step s s1 \<Longrightarrow> log_step s (printf_io fmt [VStr u] s1)"
  "emit fmt [VInt 0, VInt 0] \<noteq> None \<Longrightarrow> log_step s s1 \<Longrightarrow>
     log_step s (printf_io fmt [VInt a, VInt b] s1)"
  "emit fmt [VInt 0, VStr None] \<noteq> None \<Longrightarrow> log_step s s1 \<Longrightarrow>
     log_step s (printf_io fmt [VInt a, VStr u] s1)"
  "emit fmt [VStr None, VStr None] \<noteq> None \<Longrightarrow> log_step s s1 \<Longrightarrow>
     log_step s (printf_io fmt [VStr t, VStr u] s1)"
  "emit fmt [VInt 0, VInt 0, VInt 0] \<noteq> None \<Longrightarrow> log_step s s1 \<Longrightarrow>
     log_step s (printf_io fmt [VInt a, VInt b, VInt c] s1)"
  "emit fmt [VInt 0, VStr None, VStr None] \<noteq> None \<Longrightarrow> log_step s s1 \<Longrightarrow>
     log_step s (printf_io fmt [VInt a, VStr t, VStr u] s1)"
  "emit fmt [VStr None, VInt 0, VInt 0] \<noteq> None \<Longrightarrow> log_step s s1 \<Longrightarrow>
     log_step s (printf_io fmt [VStr u, VInt a, VInt b] s1)"
  by (erule log_step_trans, rule log_step_printf_io, simp)+

lemma log_vprintf [log_intros]:
  "emit fmt (map skel vl) \<noteq> None \<Longrightarrow> log_step s s1 \<Longrightarrow> log_step s (vprintf_io fmt vl s1)"
  by (erule log_step_trans, rule log_step_vprintf_io)

lemma log_if [log_intros]:
  "(c \<Longrightarrow> log_step s a) \<Longrightarrow> (\<not> c \<Longrightarrow> log_step s b) \<Longrightarrow> log_step s (if c then a else b)"
  by simp

lemma log_curTestId [log_intros]: "log_step s s1 \<Longrightarrow> log_step s (s1\<lparr>curTestId := i\<rparr>)"
  by (simp add: log_step_def)

text \<open>The formats of the log and the kinds of their arguments match.\<close>

lemma log_formats:
  "emit ''  %08X  Evt: %s\<newline>'' [VInt 0, VStr None] \<noteq> None"
  "emit ''  %08X       Address'' [VInt 0] \<noteq> None"
  "emit '' - %X'' [VInt 0] \<noteq> None"
  "emit ''\<newline>'' [] \<noteq> None"
  "emit ''  %08X       %s\<newline>'' [VInt 0, VStr None] \<noteq> None"
  "emit ''  %08X  Res: %s\<newline>'' [VInt 0, VStr None] \<noteq> None"
  "emit ''  %08X  Err: %s\<newline>'' [VInt 0, VStr None] \<noteq> None"
  "emit ''  %08X  Emg: %s '' [VInt 0, VStr None] \<noteq> None"
  "emit ''  %08X  Inf: '' [VInt 0] \<noteq> None"
  "emit ''  %08X  Dbg: '' [VInt 0] \<noteq> None"
  "emit ''### ASSERT ### %s  %d\<newline>'' [VStr None, VInt 0] \<noteq> None"
  by code_simp+


declare log_formats [log_intros]

lemma log_show_addresses [log_intros]:
  "n \<le> length as \<Longrightarrow> log_step s s1 \<Longrightarrow> log_step s (show_addresses n as s1)"
  by (induction n as s1 rule: show_addresses.induct)
    (auto intro: log_printf(2) [OF log_formats(3)])

lemma log_console [log_intros]:
  "unat (addressDim ev) \<le> length (address ev) \<Longrightarrow> log_step s s1 \<Longrightarrow> log_step s (console_showevent ev s1)"
  "log_step s s1 \<Longrightarrow> log_step s (console_showresult tid r s1)"
  "log_step s s1 \<Longrightarrow> log_step s (console_showerrevent tid e s1)"
  "emit fmt (map skel vl) \<noteq> None \<Longrightarrow> log_step s s1 \<Longrightarrow>
     log_step s (console_showerroreventmessage tid e fmt vl s1)"
  "emit fmt (map skel vl) \<noteq> None \<Longrightarrow> log_step s s1 \<Longrightarrow> log_step s (console_showinfo tid fmt vl s1)"
  "emit fmt (map skel vl) \<noteq> None \<Longrightarrow> log_step s s1 \<Longrightarrow> log_step s (console_showdebuginfo tid fmt vl s1)"
  unfolding console_showevent_def console_showresult_def console_showerrevent_def
    console_showerroreventmessage_def console_showinfo_def console_showdebuginfo_def Let_def
  by (assumption | rule log_intros)+

lemma log_report [log_intros]:
  "unat (addressDim ev) \<le> length (address ev) \<Longrightarrow> log_step s s1 \<Longrightarrow> log_step s (ReportEvent ev s1)"
  "log_step s s1 \<Longrightarrow> log_step s (ReportResult tid r s1)"
  "log_step s s1 \<Longrightarrow> log_step s (ReportErrEvent tid e s1)"
  "emit fmt (map skel vl) \<noteq> None \<Longrightarrow> log_step s s1 \<Longrightarrow> log_step s (ReportErrEventMsg tid e fmt vl s1)"
  unfolding ReportEvent_def ReportResult_def ReportErrEvent_def ReportErrEventMsg_def Let_def
  by (assumption | rule log_intros)+

lemma log_DEBUG_ASSERT [log_intros]:
  "log_step s s1 \<Longrightarrow> log_step s (DEBUG_ASSERT file line s1)"
  unfolding DEBUG_ASSERT_def by (rule log_report) (simp_all only: list.map skel.simps log_formats simp_thms)

end
