(* ===== verification/TestId.thy ===== *)
theory TestId
  imports Ebbtf_Prelude
begin

text \<open>
  Test identifiers: \<^verbatim>\<open>test-framework/common/generateTestId.c\<close>. A test is identified by the
  32-bit FNV-1a hash of its name. The lemmas show that the hash separates names that differ in
  one character, which is how the names of one test function with different arguments
  (\<^verbatim>\<open>I2C_interface_test_I2C0_DEVICES\<close>, \<^verbatim>\<open>I2C_interface_test_I2C1_DEVICES\<close>) differ.
\<close>

definition FNV_PRIME_32 :: u32 where
  "FNV_PRIME_32 = 16777619"

definition FNV_OFFSET_32 :: u32 where
  "FNV_OFFSET_32 = 2166136261"

text \<open>One round of the loop body.\<close>

definition fnv_round :: "u32 \<Rightarrow> u8 \<Rightarrow> u32" where
  "fnv_round hash b = (hash XOR ucast b) * FNV_PRIME_32"

definition FNV32 :: "u8 list \<Rightarrow> ulong \<Rightarrow> ulong" where
  "FNV32 ptr len = foldl fnv_round FNV_OFFSET_32 (take (unat len) ptr)"

text \<open>The name of a test is a C string; \<open>len\<close> is its \<open>strlen\<close> as a \<open>uint32_t\<close>.\<close>

definition CalculateTestIdHash :: "string \<Rightarrow> ulong" where
  "CalculateTestIdHash name = FNV32 (map of_char name) (of_nat (length name))"

subsection \<open>A round loses no information\<close>

definition fnv_unround :: "u32 \<Rightarrow> u8 \<Rightarrow> u32" where
  "fnv_unround hash b = (hash * 899433627) XOR ucast b"

lemma fnv_unround_round [simp]: "fnv_unround (fnv_round hash b) b = hash"
proof -
  have "FNV_PRIME_32 * 899433627 = 1" by (simp add: FNV_PRIME_32_def)
  then have "(hash XOR ucast b) * FNV_PRIME_32 * 899433627 = hash XOR ucast b"
    by (simp only: mult.assoc mult_1_right)
  then show ?thesis
    by (simp add: fnv_round_def fnv_unround_def xor.assoc)
qed

lemma fnv_round_hash_inj [simp]: "fnv_round h b = fnv_round h' b \<longleftrightarrow> h = h'"
  by (metis fnv_unround_round)

lemma ucast_u8_inj [simp]: "(ucast (a :: u8) :: u32) = ucast b \<longleftrightarrow> a = b"
proof -
  have "unat (ucast x :: u32) = unat x" for x :: u8
  proof -
    have "unat x < 256" by (rule order_less_le_trans [OF unsigned_less]) simp
    then show ?thesis by (simp add: unsigned_ucast_eq take_bit_nat_eq_self)
  qed
  then show ?thesis by (metis word_unat_eq_iff)
qed

lemma fnv_round_byte_inj [simp]: "fnv_round h a = fnv_round h b \<longleftrightarrow> a = b"
proof
  assume "fnv_round h a = fnv_round h b"
  then have "(fnv_round h a * 899433627) XOR h = (fnv_round h b * 899433627) XOR h" by simp
  moreover have "(fnv_round h c * 899433627) XOR h = ucast c" for c
    using fnv_unround_round [of h c] unfolding fnv_unround_def
    by (metis xor.assoc xor.commute xor_self_eq xor.right_neutral)
  ultimately have "ucast a = (ucast b :: u32)" by simp
  then show "a = b" by simp
qed simp

lemma foldl_fnv_inj [simp]: "foldl fnv_round h xs = foldl fnv_round h' xs \<longleftrightarrow> h = h'"
  by (induction xs arbitrary: h h') simp_all

lemma CalculateTestIdHash_foldl:
  "length name < 2 ^ 32 \<Longrightarrow>
   CalculateTestIdHash name = foldl fnv_round FNV_OFFSET_32 (map of_char name)"
  by (simp add: CalculateTestIdHash_def FNV32_def unat_of_nat)

text \<open>
  (C11) Names that differ in exactly one character have different test identifiers.
\<close>

theorem test_id_one_char:
  assumes "length (p @ a # s) < 2 ^ 32" and "a \<noteq> b"
  shows "CalculateTestIdHash (p @ a # s) \<noteq> CalculateTestIdHash (p @ b # s)"
proof -
  have "byte_of a \<noteq> byte_of b" using assms(2) by (metis chr_of_byte_of)
  then show ?thesis using assms(1) by (simp add: CalculateTestIdHash_foldl)
qed

theorem test_id_one_char_witness:
  "CalculateTestIdHash ''I2C_interface_test_I2C0_DEVICES'' \<noteq>
   CalculateTestIdHash ''I2C_interface_test_I2C1_DEVICES''"
  using test_id_one_char [of "''I2C_interface_test_I2C''" "CHR ''0''" "''_DEVICES''" "CHR ''1''"]
  by simp

end
