(* ===== verification/Diag.thy ===== *)
theory Diag
  imports Eventlog TestId
begin

text \<open>
  The test list and the test runner: \<^verbatim>\<open>test-framework/common/process_diagtest_cmds.c\<close> and
  \<^verbatim>\<open>process_diagtest_cmds.h\<close>.

  The linker collects the tests of a board in an array; the arrays of the two boards are the
  field \<open>entries\<close> and the pointer \<open>testList_g\<close> is the board whose array it points to (\<open>None\<close> is
  NULL). A pointer to a test entry is its index in that array. A test function is a function on
  the state it shares with the log. \<open>BOARD_DEFAULT\<close> is a macro set by the build.
\<close>

record ('a, 'hw) testParamEntry_s =
  description :: string
  name :: string
  testFunction :: "(u32 \<Rightarrow> 'a option \<Rightarrow> 'hw io \<Rightarrow> TestResultTypes_e \<times> 'hw io) option"
  testArgs :: "'a option"
  testId :: u32
  prevcontrol :: ControlRunTypes_e
  control :: ControlRunTypes_e
  runCount :: u32
  totalFailCount :: u32
  newFailCount :: u32
  ResultFromSingleRun :: TestResultTypes_e
  ResultFromLoopedRun :: TestResultTypes_e
  bInProgress :: u32

definition DIM_TEST_LIST :: nat where
  "DIM_TEST_LIST = 200"

record testList_s =
  testIdCount :: u32
  testIdList :: "u32 list"
  loopCnt :: u32
  exitOnErr :: u32
  logLevel :: u32

text \<open>\<open>memset(&tstlst_obj, 0, sizeof(tstlst_obj))\<close>.\<close>

definition testList_zero :: testList_s where
  "testList_zero = \<lparr>testIdCount = 0, testIdList = replicate DIM_TEST_LIST 0, loopCnt = 0,
     exitOnErr = 0, logLevel = 0\<rparr>"

datatype board = bcm2836_rpi2 | am335x_bbb

definition BCM2836_RPI2 :: u32 where "BCM2836_RPI2 = 0"
definition AM335X_BBB :: u32 where "AM335X_BBB = 1"

record ('a, 'hw) diag =
  entries :: "board \<Rightarrow> ('a, 'hw) testParamEntry_s list"
  testList_g :: "board option"
  testListDim_g :: u32
  testNameList_g :: "string option"
  exitOnErr_g :: u32
  repeatCnt_g :: u32
  BOARD_DEFAULT :: u32
  dio :: "'hw io"

definition on_io :: "('hw io \<Rightarrow> 'hw io) \<Rightarrow> ('a, 'hw) diag \<Rightarrow> ('a, 'hw) diag" where
  "on_io f d = d\<lparr>dio := f (dio d)\<rparr>"

text \<open>The array behind \<open>testList_g\<close>, as far as \<open>testListDim_g\<close> says.\<close>

definition cur_entries :: "('a, 'hw) diag \<Rightarrow> ('a, 'hw) testParamEntry_s list" where
  "cur_entries d =
     (case testList_g d of None \<Rightarrow> [] | Some b \<Rightarrow> take (unat (testListDim_g d)) (entries d b))"

definition set_entries ::
  "('a, 'hw) testParamEntry_s list \<Rightarrow> ('a, 'hw) diag \<Rightarrow> ('a, 'hw) diag" where
  "set_entries es d =
     (case testList_g d of
        None \<Rightarrow> d
      | Some b \<Rightarrow> d\<lparr>entries := (entries d)(b := es @ drop (length es) (entries d b))\<rparr>)"

definition update_entry ::
  "nat \<Rightarrow> (('a, 'hw) testParamEntry_s \<Rightarrow> ('a, 'hw) testParamEntry_s) \<Rightarrow> ('a, 'hw) diag \<Rightarrow> ('a, 'hw) diag" where
  "update_entry i f d = set_entries ((cur_entries d)[i := f (cur_entries d ! i)]) d"

definition FILE :: string where
  "FILE = ''process_diagtest_cmds.c''"

subsection \<open>The test list\<close>

text \<open>The body of the loop of \<open>ProcessTestList\<close>.\<close>

definition init_entry :: "('a, 'hw) testParamEntry_s \<Rightarrow> ('a, 'hw) testParamEntry_s" where
  "init_entry e = e\<lparr>
     testId := CalculateTestIdHash (name e),
     runCount := 0, totalFailCount := 0, newFailCount := 0,
     ResultFromSingleRun := DIAG_TEST_RESULT_NOT_STARTED,
     ResultFromLoopedRun := DIAG_TEST_RESULT_NOT_STARTED,
     bInProgress := 0,
     prevcontrol := DIAG_CONTROLRUN_IDLE,
     control := DIAG_CONTROLRUN_IDLE\<rparr>"

definition caseSetTestList :: "board \<Rightarrow> string \<Rightarrow> ('a, 'hw) diag \<Rightarrow> ('a, 'hw) diag" where
  "caseSetTestList b nm d =
     d\<lparr>testList_g := Some b, testListDim_g := of_nat (length (entries d b)),
       testNameList_g := Some nm\<rparr>"

definition ProcessTestList :: "u32 \<Rightarrow> ('a, 'hw) diag \<Rightarrow> ('a, 'hw) diag" where
  "ProcessTestList board_index d =
     (let d = (if board_index = BCM2836_RPI2 then caseSetTestList bcm2836_rpi2 ''bcm2836_rpi2'' d
               else if board_index = AM335X_BBB then caseSetTestList am335x_bbb ''am335x_bbb'' d
               else d\<lparr>testList_g := None, testListDim_g := 0\<rparr>)
      in if testList_g d \<noteq> None then set_entries (map init_entry (cur_entries d)) d
         else on_io (printf_io ''Test list %d not found\<newline>'' [VInt board_index]) d)"

text \<open>
  The three requests first install the default list when there is none; a request is that state
  change, its value is the field \<open>testList_g\<close>, \<open>testListDim_g\<close> or the name.
\<close>

definition RequestTestList :: "('a, 'hw) diag \<Rightarrow> ('a, 'hw) diag" where
  "RequestTestList d = (if testList_g d = None then ProcessTestList (BOARD_DEFAULT d) d else d)"

definition RequestTestListDim :: "('a, 'hw) diag \<Rightarrow> u32 \<times> ('a, 'hw) diag" where
  "RequestTestListDim d =
     (let d = (if testList_g d = None then ProcessTestList (BOARD_DEFAULT d) d else d)
      in (testListDim_g d, d))"

definition RequestTestListName :: "('a, 'hw) diag \<Rightarrow> string \<times> ('a, 'hw) diag" where
  "RequestTestListName d =
     (let d = (if testList_g d = None then ProcessTestList (BOARD_DEFAULT d) d else d)
      in (case testNameList_g d of None \<Rightarrow> ''not found'' | Some nm \<Rightarrow> nm, d))"

definition ProcessTestLoopCount :: "u32 \<Rightarrow> ('a, 'hw) diag \<Rightarrow> ('a, 'hw) diag" where
  "ProcessTestLoopCount v d = d\<lparr>repeatCnt_g := v\<rparr>"

definition RequestTestLoopCount :: "('a, 'hw) diag \<Rightarrow> u32" where
  "RequestTestLoopCount d = repeatCnt_g d"

definition ProcessExitOnErr :: "u32 \<Rightarrow> ('a, 'hw) diag \<Rightarrow> ('a, 'hw) diag" where
  "ProcessExitOnErr v d = d\<lparr>exitOnErr_g := v\<rparr>"

definition RequestExitOnErr :: "('a, 'hw) diag \<Rightarrow> u32" where
  "RequestExitOnErr d = exitOnErr_g d"

text \<open>
  In the loops below \<open>RequestTestList()\<close> is called once a round; a round runs only when the
  dimension is positive, when the list is installed and the call changes nothing.
\<close>

definition ClearFailureCounts :: "('a, 'hw) diag \<Rightarrow> ('a, 'hw) diag" where
  "ClearFailureCounts d =
     (let (testListDim, d) = RequestTestListDim d
      in set_entries (map (\<lambda>e. e\<lparr>newFailCount := 0\<rparr>) (cur_entries d)) d)"

definition GetAvailableListOfTest ::
  "testList_s option \<Rightarrow> ('a, 'hw) diag \<Rightarrow> testList_s option \<times> ('a, 'hw) diag" where
  "GetAvailableListOfTest options d =
     (let (testListDim, d) = RequestTestListDim d in
      case options of
        None \<Rightarrow> (None, on_io (DEBUG_ASSERT FILE 207) d)
      | Some opt \<Rightarrow>
          if unat testListDim > DIM_TEST_LIST then (Some opt, on_io (DEBUG_ASSERT FILE 213) d)
          else (Some (opt\<lparr>
                  testIdList := map testId (cur_entries d) @ drop (unat testListDim) (testIdList opt),
                  testIdCount := testListDim\<rparr>), d))"

fun locate_loop :: "u32 \<Rightarrow> ('a, 'hw) testParamEntry_s list \<Rightarrow> nat \<Rightarrow> nat option" where
  "locate_loop searchTestId [] i = None"
| "locate_loop searchTestId (e # es) i =
     (if testId e = searchTestId then Some i else locate_loop searchTestId es (Suc i))"

definition LocateTest :: "u32 \<Rightarrow> ('a, 'hw) diag \<Rightarrow> nat option \<times> ('a, 'hw) diag" where
  "LocateTest searchTestId d =
     (let (testListDim, d) = RequestTestListDim d
      in (locate_loop searchTestId (cur_entries d) 0, d))"

text \<open>\<open>GetTestName\<close> of \<^verbatim>\<open>consolelog.c\<close>.\<close>

definition GetTestName :: "u32 \<Rightarrow> ('a, 'hw) diag \<Rightarrow> string \<times> ('a, 'hw) diag" where
  "GetTestName tid d =
     (let (testEntry, d) = LocateTest tid d in
      case testEntry of
        Some i \<Rightarrow> (name (cur_entries d ! i), d)
      | None \<Rightarrow>
          (case sprintf 0 (replicate 32 NUL) ''Test_%03d '' [VInt tid] of
             None \<Rightarrow> ([], on_io set_ub d)
           | Some (_, tempTestName) \<Rightarrow> (cstr tempTestName, d)))"

subsection \<open>Running tests\<close>

definition call_test ::
  "nat \<Rightarrow> u32 \<Rightarrow> (u32 \<Rightarrow> 'a option \<Rightarrow> 'hw io \<Rightarrow> TestResultTypes_e \<times> 'hw io) \<Rightarrow>
   ('a, 'hw) diag \<Rightarrow> TestResultTypes_e \<times> ('a, 'hw) diag" where
  "call_test i tid f d =
     (let (result, s) = f tid (testArgs (cur_entries d ! i)) (dio d) in (result, d\<lparr>dio := s\<rparr>))"

definition RunDeviceTest :: "u32 \<Rightarrow> ('a, 'hw) diag \<Rightarrow> TestResultTypes_e \<times> ('a, 'hw) diag" where
  "RunDeviceTest tid d =
     (let (testEntry, d) = LocateTest tid d in
      case testEntry of
        None \<Rightarrow>
          let d = on_io (ReportErrEvent tid (event_code DIAG_TEST_NOT_FOUND_ERR_EVENT)) d;
              d = on_io (ReportResult tid DIAG_TEST_RESULT_ABORTED) d
          in (DIAG_TEST_RESULT_ABORTED, d)
      | Some i \<Rightarrow>
          (case testFunction (cur_entries d ! i) of
             None \<Rightarrow>
               let d = on_io (DEBUG_ASSERT FILE 265) d;
                   d = on_io (ReportResult tid DIAG_TEST_RESULT_ABORTED) d
               in (DIAG_TEST_RESULT_ABORTED, d)
           | Some f \<Rightarrow>
               let d = update_entry i (\<lambda>e. e\<lparr>runCount := runCount e + 1\<rparr>) d;
                   d = on_io (printf_io ''%08X -- %s -- %s\<newline>''
                         [VInt tid, VStr (Some (description (cur_entries d ! i))),
                          VStr (Some (name (cur_entries d ! i)))]) d;
                   (result, d) = call_test i tid f d;
                   d = update_entry i (\<lambda>e. e\<lparr>ResultFromSingleRun := result\<rparr>) d;
                   d = (if result \<noteq> DIAG_TEST_RESULT_PASS then
                          update_entry i (\<lambda>e. e\<lparr>totalFailCount := totalFailCount e + 1,
                            newFailCount := newFailCount e + 1\<rparr>) d
                        else d);
                   d = on_io (ReportResult tid result) d
               in (result, d)))"

text \<open>
  The inner loop of \<open>ExecuteAllTestListed\<close> over \<open>testIdList[0..testIdCount-1]\<close>; the flag of the
  result is set when the function returned because of \<open>exitOnErr\<close>.
\<close>

fun run_tests :: "u32 \<Rightarrow> u32 list \<Rightarrow> ('a, 'hw) diag \<Rightarrow> bool \<times> ('a, 'hw) diag" where
  "run_tests exitErr [] d = (False, d)"
| "run_tests exitErr (tid # tids) d =
     (let (result, d) = RunDeviceTest tid d in
      if result \<noteq> DIAG_TEST_RESULT_PASS \<and> exitErr \<noteq> 0 then (True, d)
      else run_tests exitErr tids d)"

text \<open>
  The outer loop, \<open>for (loopCount = 0; loopCount <= options->loopCnt; ++loopCount)\<close> on a
  \<open>uint32_t\<close>. It need not end; \<open>None\<close> is the run that does not return.
\<close>

partial_function (option) run_rounds ::
  "testList_s \<Rightarrow> u32 \<Rightarrow> ('a, 'hw) diag \<Rightarrow> ('a, 'hw) diag option" where
  "run_rounds opt loopCount d =
     (if loopCount \<le> loopCnt opt then
        let (returned, d) = run_tests (exitOnErr opt) (take (unat (testIdCount opt)) (testIdList opt)) d
        in if returned then Some d else run_rounds opt (loopCount + 1) d
      else Some d)"

definition ExecuteAllTestListed ::
  "testList_s option \<Rightarrow> ('a, 'hw) diag \<Rightarrow> ('a, 'hw) diag option" where
  "ExecuteAllTestListed options d =
     (let d = on_io (SetLoggingMode CONSOLE_LOG_MODE) d in
      case options of
        None \<Rightarrow> Some (on_io (DEBUG_ASSERT FILE 166) d)
      | Some opt \<Rightarrow>
          let d = on_io (SetLogMask (logLevel opt)) d in
          if testIdCount opt = 0 then Some (on_io (DEBUG_ASSERT FILE 173) d)
          else if unat (testIdCount opt) > DIM_TEST_LIST then Some (on_io (DEBUG_ASSERT FILE 178) d)
          else run_rounds opt 0 (ClearFailureCounts d))"

subsection \<open>Displaying tests and results\<close>

text \<open>The search for further entries with the same identifier in \<open>DisplayTestList\<close>.\<close>

fun show_duplicates ::
  "u32 \<Rightarrow> ('a, 'hw) testParamEntry_s list \<Rightarrow> u32 \<Rightarrow> 'hw io \<Rightarrow> 'hw io" where
  "show_duplicates tid [] foundCount s = s"
| "show_duplicates tid (e # es) foundCount s =
     (if testId e = tid then
        let foundCount = foundCount + 1;
            s = (if foundCount > 1 then
                   printf_io ''%20sError: %s has the same TestId\<newline>''
                     [VStr (Some []), VStr (Some (name e))] s
                 else s)
        in show_duplicates tid es foundCount s
      else show_duplicates tid es foundCount s)"

definition display_test :: "bool \<Rightarrow> u32 \<Rightarrow> u32 \<Rightarrow> ('a, 'hw) diag \<Rightarrow> ('a, 'hw) diag" where
  "display_test showIndex testIndex tid d =
     (let (testEntry, d) = LocateTest tid d;
          d = (if showIndex then on_io (printf_io ''%4d -- '' [VInt testIndex]) d else d)
      in case testEntry of
           None \<Rightarrow> on_io (printf_io ''%08X -- Error: Test not found\<newline>'' [VInt tid]) d
         | Some i \<Rightarrow>
             let e = cur_entries d ! i;
                 d = on_io (printf_io ''%08X -- %s -- %s\<newline>''
                       [VInt tid, VStr (Some (description e)), VStr (Some (name e))]) d;
                 calculatedTestId = CalculateTestIdHash (name e);
                 d = (if calculatedTestId \<noteq> tid then
                        on_io (printf_io ''%20sError: TestId is 0x%08X but calculated 0x%08X\<newline>''
                          [VStr (Some []), VInt (testId e), VInt calculatedTestId]) d
                      else d)
             in on_io (show_duplicates tid (cur_entries d) 0) d)"

fun display_tests :: "bool \<Rightarrow> u32 \<Rightarrow> u32 list \<Rightarrow> ('a, 'hw) diag \<Rightarrow> ('a, 'hw) diag" where
  "display_tests showIndex testIndex [] d = d"
| "display_tests showIndex testIndex (tid # tids) d =
     display_tests showIndex (testIndex + 1) tids (display_test showIndex testIndex tid d)"

definition DisplayTestList ::
  "testList_s \<Rightarrow> bool \<Rightarrow> bool \<Rightarrow> ('a, 'hw) diag \<Rightarrow> ('a, 'hw) diag" where
  "DisplayTestList options showIndex showFlags d =
     (if testIdCount options = 0 then on_io (DEBUG_ASSERT FILE 290) d
      else if unat (testIdCount options) > DIM_TEST_LIST then on_io (DEBUG_ASSERT FILE 296) d
      else
        let d = (if showFlags \<and> exitOnErr options \<noteq> 0
                 then on_io (printf_io ''    Exit\<newline>'' []) d else d);
            d = (if showFlags \<and> loopCnt options \<noteq> 0
                 then on_io (printf_io ''    repeat %d times\<newline>'' [VInt (loopCnt options)]) d else d)
        in display_tests showIndex 0 (take (unat (testIdCount options)) (testIdList options)) d)"

definition INDENT_1 :: string where "INDENT_1 = ''    ''"
definition INDENT_2 :: string where "INDENT_2 = ''           - ''"

text \<open>The verdict line of a test, from its three counters.\<close>

definition verdict :: "u32 \<Rightarrow> u32 \<Rightarrow> u32 \<Rightarrow> 'hw io \<Rightarrow> 'hw io" where
  "verdict run fails new =
     (if run = 0 then printf_io (INDENT_2 @ ''Not run\<newline>'') []
      else if run = 1 then
        if fails = 0 then printf_io (INDENT_2 @ ''Passed\<newline>'') []
        else printf_io (INDENT_2 @ ''Failed\<newline>'') []
      else if fails = 0 then printf_io (INDENT_2 @ ''Passed %d times\<newline>'') [VInt run]
      else if run = fails then printf_io (INDENT_2 @ ''Failed %d times\<newline>'') [VInt fails]
      else if new = 0 then
        printf_io (INDENT_2 @ ''Failed %d of %d times\<newline>'') [VInt fails, VInt run]
      else if new = 1 then
        printf_io (INDENT_2 @ ''Failed %d of %d times. (%d new failure)\<newline>'')
          [VInt fails, VInt run, VInt new]
      else printf_io (INDENT_2 @ ''Failed %d of %d times. (%d new failures)\<newline>'')
             [VInt fails, VInt run, VInt new])"

definition display_result :: "u32 \<Rightarrow> u32 \<Rightarrow> ('a, 'hw) diag \<Rightarrow> ('a, 'hw) diag" where
  "display_result level tid d =
     (let (testEntry, d) = LocateTest tid d in
      case testEntry of
        None \<Rightarrow>
          let d = on_io (printf_io ''*** Error: Unknown test\<newline>'' []) d;
              d = on_io (printf_io (INDENT_1 @ ''TestId - %08X\<newline>'') [VInt tid]) d
          in on_io (printf_io (INDENT_1 @ ''Not found\<newline>'') []) d
      | Some i \<Rightarrow>
          let e = cur_entries d ! i in
          if level AND LOG_MASK_PASS = 0 \<and> totalFailCount e = 0 then d
          else
            let d = on_io (printf_io (INDENT_1 @ ''Name   - %s\<newline>'') [VStr (Some (name e))]) d;
                d = on_io (printf_io (INDENT_1 @ ''Desc   - %s\<newline>'') [VStr (Some (description e))]) d;
                d = on_io (printf_io (INDENT_1 @ ''TestId - %08X\<newline>'') [VInt tid]) d
            in on_io (verdict (runCount e) (totalFailCount e) (newFailCount e)) d)"

definition DisplayTestResults :: "testList_s \<Rightarrow> ('a, 'hw) diag \<Rightarrow> ('a, 'hw) diag" where
  "DisplayTestResults options d =
     (if testIdCount options = 0 then on_io (DEBUG_ASSERT FILE 358) d
      else if unat (testIdCount options) > DIM_TEST_LIST then on_io (DEBUG_ASSERT FILE 364) d
      else foldl (\<lambda>d tid. display_result (logLevel options) tid d) d
             (take (unat (testIdCount options)) (testIdList options)))"

subsection \<open>Well-formed test lists\<close>

text \<open>
  The list of board \<open>b\<close> is installed: \<open>testList_g\<close> points to it, the dimension is its length,
  and every identifier is the hash of the name, which is what \<open>ProcessTestList\<close> establishes and
  every operation keeps.
\<close>

definition installed :: "board \<Rightarrow> ('a, 'hw) diag \<Rightarrow> bool" where
  "installed b d \<longleftrightarrow> testList_g d = Some b \<and> length (entries d b) < 2 ^ 32 \<and>
     testListDim_g d = of_nat (length (entries d b)) \<and>
     (\<forall>e \<in> set (entries d b). testId e = CalculateTestIdHash (name e))"

definition board_of :: "u32 \<Rightarrow> board option" where
  "board_of i = (if i = BCM2836_RPI2 then Some bcm2836_rpi2
     else if i = AM335X_BBB then Some am335x_bbb else None)"

text \<open>Before the first request the list is NULL; the linker arrays fit the address space.\<close>

definition bootable :: "board \<Rightarrow> ('a, 'hw) diag \<Rightarrow> bool" where
  "bootable b d \<longleftrightarrow> testList_g d = None \<and> board_of (BOARD_DEFAULT d) = Some b \<and>
     length (entries d b) < 2 ^ 32"

definition ready :: "board \<Rightarrow> ('a, 'hw) diag \<Rightarrow> bool" where
  "ready b d \<longleftrightarrow> installed b d \<or> bootable b d"

lemma cur_entries_installed: "installed b d \<Longrightarrow> cur_entries d = entries d b"
  by (simp add: installed_def cur_entries_def unat_of_nat)

lemma set_entries_installed:
  "installed b d \<Longrightarrow> length es = length (entries d b) \<Longrightarrow>
   set_entries es d = d\<lparr>entries := (entries d)(b := es)\<rparr>"
  by (simp add: installed_def set_entries_def)

lemma update_entry_installed:
  "installed b d \<Longrightarrow> update_entry i f d =
   d\<lparr>entries := (entries d)(b := (entries d b)[i := f (entries d b ! i)])\<rparr>"
  by (simp add: update_entry_def cur_entries_installed set_entries_installed)

lemma init_entry_simps [simp]:
  "testId (init_entry e) = CalculateTestIdHash (name e)" "name (init_entry e) = name e"
  "testFunction (init_entry e) = testFunction e" "testArgs (init_entry e) = testArgs e"
  "description (init_entry e) = description e"
  "runCount (init_entry e) = 0" "totalFailCount (init_entry e) = 0" "newFailCount (init_entry e) = 0"
  by (simp_all add: init_entry_def)

lemma ProcessTestList_installs:
  assumes "board_of i = Some b" "length (entries d b) < 2 ^ 32"
  shows "ProcessTestList i d =
     d\<lparr>testList_g := Some b, testListDim_g := of_nat (length (entries d b)),
       testNameList_g := Some (case b of bcm2836_rpi2 \<Rightarrow> ''bcm2836_rpi2'' | am335x_bbb \<Rightarrow> ''am335x_bbb''),
       entries := (entries d)(b := map init_entry (entries d b))\<rparr>"
    and "installed b (ProcessTestList i d)"
proof -
  show "ProcessTestList i d =
     d\<lparr>testList_g := Some b, testListDim_g := of_nat (length (entries d b)),
       testNameList_g := Some (case b of bcm2836_rpi2 \<Rightarrow> ''bcm2836_rpi2'' | am335x_bbb \<Rightarrow> ''am335x_bbb''),
       entries := (entries d)(b := map init_entry (entries d b))\<rparr>"
    using assms by (auto simp: ProcessTestList_def board_of_def Let_def caseSetTestList_def
      set_entries_def cur_entries_def unat_of_nat split: if_splits)
  then show "installed b (ProcessTestList i d)"
    using assms(2) by (auto simp: installed_def)
qed

text \<open>The state after a request: an uninstalled list is installed, an installed one is kept.\<close>

definition request :: "('a, 'hw) diag \<Rightarrow> ('a, 'hw) diag" where
  "request d = (if testList_g d = None then ProcessTestList (BOARD_DEFAULT d) d else d)"

lemma request_simps:
  "RequestTestList d = request d"
  "RequestTestListDim d = (testListDim_g (request d), request d)"
  by (simp_all add: request_def RequestTestList_def RequestTestListDim_def Let_def)

lemma request_installed: "installed b d \<Longrightarrow> request d = d"
  by (simp add: request_def installed_def)

lemma ready_request: "ready b d \<Longrightarrow> installed b (request d)"
  using ProcessTestList_installs(2) [of "BOARD_DEFAULT d" b d]
  by (auto simp: ready_def bootable_def request_installed) (simp add: request_def)

lemma dio_request: "ready b d \<Longrightarrow> dio (request d) = dio d"
  using ProcessTestList_installs(1) [of "BOARD_DEFAULT d" b d]
  by (auto simp: ready_def bootable_def request_installed) (simp add: request_def)

lemma installed_dio [simp]: "installed b (d\<lparr>dio := s\<rparr>) \<longleftrightarrow> installed b d"
  by (simp add: installed_def)

lemma on_io_simps [simp]:
  "dio (on_io f d) = f (dio d)" "entries (on_io f d) = entries d" "installed b (on_io f d) \<longleftrightarrow> installed b d"
  by (simp_all add: on_io_def)

subsection \<open>Looking up a test\<close>

lemma locate_loop_Suc: "locate_loop tid es (Suc i) = map_option Suc (locate_loop tid es i)"
  by (induction es arbitrary: i) auto

lemma locate_loop_Some:
  "locate_loop tid es 0 = Some j \<longleftrightarrow>
     j < length es \<and> testId (es ! j) = tid \<and> (\<forall>k < j. testId (es ! k) \<noteq> tid)"
proof (induction es arbitrary: j)
  case (Cons e es)
  show ?case
  proof (cases "testId e = tid")
    case True
    then show ?thesis by (cases j) auto
  next
    case False
    then show ?thesis using Cons.IH by (cases j) (auto simp: locate_loop_Suc All_less_Suc2)
  qed
qed simp

lemma locate_loop_None: "locate_loop tid es i = None \<longleftrightarrow> tid \<notin> testId ` set es"
  by (induction es arbitrary: i) auto

lemma LocateTest_request:
  "ready b d \<Longrightarrow> LocateTest tid d = (locate_loop tid (entries (request d) b) 0, request d)"
  by (simp add: LocateTest_def request_simps cur_entries_installed [OF ready_request])

lemma LocateTest_installed:
  "installed b d \<Longrightarrow> LocateTest tid d = (locate_loop tid (entries d b) 0, d)"
  using LocateTest_request [of b d tid] by (simp add: ready_def request_installed)

lemma locate_distinct:
  "distinct (map testId es) \<Longrightarrow> i < length es \<Longrightarrow> locate_loop (testId (es ! i)) es 0 = Some i"
  by (auto simp: locate_loop_Some distinct_conv_nth)

subsection \<open>One run\<close>

text \<open>What a run with result \<open>r\<close> leaves in the entry of its test.\<close>

definition record_run :: "TestResultTypes_e \<Rightarrow> ('a, 'hw) testParamEntry_s \<Rightarrow> ('a, 'hw) testParamEntry_s" where
  "record_run r e = e\<lparr>runCount := runCount e + 1, ResultFromSingleRun := r,
     totalFailCount := totalFailCount e + (if r = DIAG_TEST_RESULT_PASS then 0 else 1),
     newFailCount := newFailCount e + (if r = DIAG_TEST_RESULT_PASS then 0 else 1)\<rparr>"

definition announce :: "u32 \<Rightarrow> ('a, 'hw) testParamEntry_s \<Rightarrow> 'hw io \<Rightarrow> 'hw io" where
  "announce tid e = printf_io ''%08X -- %s -- %s\<newline>''
     [VInt tid, VStr (Some (description e)), VStr (Some (name e))]"

lemma announce_runCount [simp]: "announce tid (e\<lparr>runCount := n\<rparr>) = announce tid e"
  by (simp add: announce_def)

lemma RunDeviceTest_runs:
  assumes "installed b d" "locate_loop tid (entries d b) 0 = Some i"
    and "testFunction (entries d b ! i) = Some f"
    and "f tid (testArgs (entries d b ! i)) (announce tid (entries d b ! i) (dio d)) = (r, s)"
  shows "RunDeviceTest tid d = (r, d\<lparr>
      entries := (entries d)(b := (entries d b)[i := record_run r (entries d b ! i)]),
      dio := ReportResult tid r s\<rparr>)"
proof -
  have i: "i < length (entries d b)" using assms(2) by (simp add: locate_loop_Some)
  have inst: "installed b (d\<lparr>entries := (entries d)(b := (entries d b)[i := e])\<rparr>)"
    if "testId e = testId (entries d b ! i)" "name e = name (entries d b ! i)" for e
    using assms(1) that i unfolding installed_def
    by (auto dest!: set_update_subset_insert [THEN subsetD])
  have L: "LocateTest tid d = (Some i, d)"
    using LocateTest_installed [OF assms(1)] assms(2) by simp
  let ?e = "entries d b ! i"
  let ?e1 = "?e\<lparr>runCount := runCount ?e + 1\<rparr>" and ?e2 = "?e\<lparr>runCount := runCount ?e + 1, ResultFromSingleRun := r\<rparr>"
  let ?d1 = "d\<lparr>entries := (entries d)(b := (entries d b)[i := ?e1])\<rparr>"
  let ?d2 = "d\<lparr>entries := (entries d)(b := (entries d b)[i := ?e2]), dio := s\<rparr>"
  have i1: "installed b ?d1" and i2: "installed b ?d2" by (simp_all add: inst)
  have u0: "update_entry i (\<lambda>e. e\<lparr>runCount := runCount e + 1\<rparr>) d = ?d1"
    by (simp add: update_entry_installed [OF assms(1)])
  have c0: "cur_entries d = entries d b" "cur_entries ?d1 = (entries d b)[i := ?e1]"
    using cur_entries_installed [OF assms(1)] cur_entries_installed [OF i1] by simp_all
  have c1: "call_test i tid f (on_io (announce tid ?e) ?d1) = (r, ?d1\<lparr>dio := s\<rparr>)"
    using cur_entries_installed [of b "on_io (announce tid ?e) ?d1"] i1 i assms(4)
    by (simp add: call_test_def on_io_def)
  have u1: "update_entry i (ResultFromSingleRun_update (\<lambda>_. r)) (?d1\<lparr>dio := s\<rparr>) = ?d2"
    using update_entry_installed [of b "?d1\<lparr>dio := s\<rparr>"] i1 i by simp
  have u2: "(if r \<noteq> DIAG_TEST_RESULT_PASS then update_entry i (\<lambda>e. e\<lparr>totalFailCount := totalFailCount e + 1,
      newFailCount := newFailCount e + 1\<rparr>) ?d2 else ?d2) =
    d\<lparr>entries := (entries d)(b := (entries d b)[i := record_run r ?e]), dio := s\<rparr>"
    using i by (simp add: update_entry_installed [OF i2] record_run_def)
  have "RunDeviceTest tid d = (r, on_io (ReportResult tid r) (d\<lparr>
      entries := (entries d)(b := (entries d b)[i := record_run r (entries d b ! i)]), dio := s\<rparr>))"
    using i assms(3) by (simp add: RunDeviceTest_def L c0 u0 c1 u1 u2 Let_def announce_def [symmetric]
        cong: if_cong split del: if_split)
  then show ?thesis by (simp add: on_io_def)
qed

lemma RunDeviceTest_aborts:
  assumes "installed b d" 
    and "\<And>i. locate_loop tid (entries d b) 0 = Some i \<Longrightarrow> testFunction (entries d b ! i) = None"
  shows "\<exists>s. log_step (dio d) s \<and> RunDeviceTest tid d = (DIAG_TEST_RESULT_ABORTED, d\<lparr>dio := s\<rparr>)"
proof -
  note L = LocateTest_installed [OF assms(1), of tid]
  show ?thesis
  proof (cases "locate_loop tid (entries d b) 0")
    case None
    then show ?thesis using L
      by (simp add: RunDeviceTest_def Let_def on_io_def)
        (rule exI, rule conjI [rotated], rule refl, (rule log_intros log_step_refl)+)
  next
    case (Some i)
    then show ?thesis using L assms(2) [OF Some]
      by (simp add: RunDeviceTest_def Let_def on_io_def cur_entries_installed [OF assms(1)])
        (rule exI, rule conjI [rotated], rule refl, (rule log_intros log_step_refl)+)
  qed
qed

subsection \<open>Sequences of runs\<close>

text \<open>
  \<open>has_run k m e e'\<close>: the entry \<open>e\<close> became \<open>e'\<close> by \<open>m\<close> runs of its test, \<open>k\<close> of which did not pass.
\<close>

definition has_run :: "nat \<Rightarrow> nat \<Rightarrow> ('a, 'hw) testParamEntry_s \<Rightarrow> ('a, 'hw) testParamEntry_s \<Rightarrow> bool" where
  "has_run k m e e' \<longleftrightarrow> k \<le> m \<and> e' = e\<lparr>runCount := runCount e + of_nat m,
     totalFailCount := totalFailCount e + of_nat k, newFailCount := newFailCount e + of_nat k,
     ResultFromSingleRun := ResultFromSingleRun e'\<rparr>"

lemma has_run_refl: "has_run 0 0 e e"
  by (simp add: has_run_def)

lemma has_run_trans: "has_run k m e e' \<Longrightarrow> has_run k' m' e' e'' \<Longrightarrow> has_run (k + k') (m + m') e e''"
  unfolding has_run_def by (cases e; cases e'; cases e'') simp

lemma has_run_record_run: "has_run (if r = DIAG_TEST_RESULT_PASS then 0 else 1) 1 e (record_run r e)"
  by (simp add: has_run_def record_run_def)

lemma has_run_keeps:
  assumes "has_run k m e e'"
  shows "testId e' = testId e" "name e' = name e" "testFunction e' = testFunction e"
    "testArgs e' = testArgs e" "description e' = description e"
proof -
  have e': "e' = e\<lparr>runCount := runCount e + of_nat m,
     totalFailCount := totalFailCount e + of_nat k, newFailCount := newFailCount e + of_nat k,
     ResultFromSingleRun := ResultFromSingleRun e'\<rparr>" using assms by (simp add: has_run_def)
  show "testId e' = testId e" "name e' = name e" "testFunction e' = testFunction e"
    "testArgs e' = testArgs e" "description e' = description e" 
    by (subst e', simp)+
qed

definition all_run ::
  "(nat \<Rightarrow> nat) \<Rightarrow> ('a, 'hw) testParamEntry_s list \<Rightarrow> ('a, 'hw) testParamEntry_s list \<Rightarrow> bool" where
  "all_run c es es' \<longleftrightarrow> length es' = length es \<and> (\<forall>i < length es. \<exists>k. has_run k (c i) (es ! i) (es' ! i))"

lemma all_run_refl: "all_run (\<lambda>i. 0) es es"
  using has_run_refl by (auto simp: all_run_def)

lemma all_run_trans:
  assumes "all_run c es es'" "all_run c' es' es''"
  shows "all_run (\<lambda>i. c i + c' i) es es''"
  unfolding all_run_def
proof (intro conjI allI impI)
  show "length es'' = length es" using assms by (simp add: all_run_def)
  fix i assume "i < length es"
  then obtain k k' where "has_run k (c i) (es ! i) (es' ! i)" "has_run k' (c' i) (es' ! i) (es'' ! i)"
    using assms unfolding all_run_def by force
  then show "\<exists>k. has_run k (c i + c' i) (es ! i) (es'' ! i)" by (blast intro: has_run_trans)
qed

lemma all_run_record_run:
  assumes "i < length es"
  shows "all_run (\<lambda>j. if j = i then 1 else 0) es (es[i := record_run r (es ! i)])"
  unfolding all_run_def
proof (intro conjI allI impI)
  fix j assume "j < length es"
  show "\<exists>k. has_run k (if j = i then 1 else 0) (es ! j) (es[i := record_run r (es ! i)] ! j)"
  proof (cases "j = i")
    case True
    then show ?thesis using has_run_record_run [of r "es ! i"] assms by (auto simp del: One_nat_def)
  next
    case False
    then show ?thesis using has_run_refl [of "es ! j"] by auto
  qed
qed simp

lemma all_run_nth:
  assumes "all_run c es es'" "i < length es"
  shows "testId (es' ! i) = testId (es ! i)" "testFunction (es' ! i) = testFunction (es ! i)"
    "name (es' ! i) = name (es ! i)"
  using assms has_run_keeps unfolding all_run_def by blast+

lemma all_run_map:
  assumes "all_run c es es'"
  shows "map testId es' = map testId es" "map testFunction es' = map testFunction es"
    "map name es' = map name es"
  using assms all_run_nth [OF assms] by (auto simp: all_run_def intro!: nth_equalityI)

lemma locate_loop_map: "map testId es' = map testId es \<Longrightarrow> locate_loop tid es' i = locate_loop tid es i"
proof (induction es arbitrary: es' i)
  case (Cons e es)
  then show ?case by (cases es') auto
qed simp

text \<open>How often a list of identifiers runs the test at position \<open>i\<close>.\<close>

definition runs_at :: "('a, 'hw) testParamEntry_s list \<Rightarrow> u32 \<Rightarrow> nat \<Rightarrow> nat" where
  "runs_at es tid i =
     (if locate_loop tid es 0 = Some i \<and> testFunction (es ! i) \<noteq> None then 1 else 0)"

definition times_run :: "('a, 'hw) testParamEntry_s list \<Rightarrow> u32 list \<Rightarrow> nat \<Rightarrow> nat" where
  "times_run es tids i = sum_list (map (\<lambda>tid. runs_at es tid i) tids)"

lemma runs_at_all_run: "all_run c es es' \<Longrightarrow> i < length es \<Longrightarrow> runs_at es' tid i = runs_at es tid i"
  by (simp add: runs_at_def locate_loop_map [OF all_run_map(1)] all_run_nth(2))

lemma installed_update:
  assumes "installed b d" "map testId es = map testId (entries d b)" "map name es = map name (entries d b)"
  shows "installed b (d\<lparr>entries := (entries d)(b := es), dio := s\<rparr>)"
proof -
  have len: "length es = length (entries d b)" using map_eq_imp_length_eq [OF assms(2)] .
  have "testId e = CalculateTestIdHash (name e)" if e: "e \<in> set es" for e
  proof -
    obtain i where i: "i < length es" "e = es ! i" using e by (auto simp: in_set_conv_nth)
    then have "testId (es ! i) = testId (entries d b ! i)" "name (es ! i) = name (entries d b ! i)"
      using len arg_cong [OF assms(2), of "\<lambda>l. l ! i"] arg_cong [OF assms(3), of "\<lambda>l. l ! i"]
      by simp_all
    then show ?thesis using assms(1) i len by (simp add: installed_def)
  qed
  then show ?thesis using assms(1) len by (simp add: installed_def)
qed

lemma RunDeviceTest_has_run:
  assumes "installed b d" "RunDeviceTest tid d = (r, d')"
  shows "\<exists>es s. d' = d\<lparr>entries := (entries d)(b := es), dio := s\<rparr> \<and>
    all_run (runs_at (entries d b) tid) (entries d b) es"
proof (cases "\<exists>i f. locate_loop tid (entries d b) 0 = Some i \<and> testFunction (entries d b ! i) = Some f")
  case True
  then obtain i f where l: "locate_loop tid (entries d b) 0 = Some i"
    and f: "testFunction (entries d b ! i) = Some f" by blast
  obtain r' s where fs: "f tid (testArgs (entries d b ! i)) (announce tid (entries d b ! i) (dio d)) = (r', s)"
    by fastforce
  have "i < length (entries d b)" using l by (simp add: locate_loop_Some)
  moreover have "runs_at (entries d b) tid = (\<lambda>j. if j = i then 1 else 0)"
    using l f by (auto simp: runs_at_def)
  ultimately show ?thesis
    using RunDeviceTest_runs [OF assms(1) l f fs] assms(2) all_run_record_run by fastforce
next
  case False
  then have "\<exists>s. RunDeviceTest tid d = (DIAG_TEST_RESULT_ABORTED, d\<lparr>dio := s\<rparr>)"
    using RunDeviceTest_aborts [OF assms(1), of tid] by (metis not_None_eq)
  moreover have "runs_at (entries d b) tid = (\<lambda>j. 0)" using False by (auto simp: runs_at_def)
  ultimately show ?thesis using assms(2) all_run_refl 
    by (auto intro!: exI [of _ "entries d b"])
qed

lemma all_run_cong: "all_run c es es' \<Longrightarrow> (\<And>i. i < length es \<Longrightarrow> c i = c' i) \<Longrightarrow> all_run c' es es'"
  by (simp add: all_run_def)

lemma times_run_Cons: "times_run es (tid # tids) i = runs_at es tid i + times_run es tids i"
  by (simp add: times_run_def)

lemma times_run_all_run:
  "all_run c es es' \<Longrightarrow> i < length es \<Longrightarrow> times_run es' tids i = times_run es tids i"
  by (simp add: times_run_def runs_at_all_run)

lemma run_tests_has_run:
  assumes "installed b d"
  shows "\<exists>es s. run_tests 0 tids d = (False, d\<lparr>entries := (entries d)(b := es), dio := s\<rparr>) \<and>
    all_run (times_run (entries d b) tids) (entries d b) es"
  using assms
proof (induction tids arbitrary: d)
  case Nil
  have "all_run (times_run (entries d b) []) (entries d b) (entries d b)"
    by (rule all_run_cong [OF all_run_refl]) (simp add: times_run_def)
  then show ?case by (intro exI [of _ "entries d b"] exI [of _ "dio d"]) simp
next
  case (Cons tid tids)
  obtain r d1 where r: "RunDeviceTest tid d = (r, d1)" by fastforce
  obtain es1 s1 where d1: "d1 = d\<lparr>entries := (entries d)(b := es1), dio := s1\<rparr>"
    and es1: "all_run (runs_at (entries d b) tid) (entries d b) es1"
    using RunDeviceTest_has_run [OF Cons.prems r] by blast
  have "installed b d1" unfolding d1
    by (rule installed_update [OF Cons.prems]) (simp_all add: all_run_map [OF es1])
  from Cons.IH [OF this] obtain es s where
    e: "run_tests 0 tids d1 = (False, d1\<lparr>entries := (entries d1)(b := es), dio := s\<rparr>)"
    and es': "all_run (times_run (entries d1 b) tids) (entries d1 b) es" by blast
  have es: "all_run (times_run es1 tids) es1 es" using es' by (simp add: d1)
  have "run_tests 0 tids d1 = (False, d\<lparr>entries := (entries d)(b := es), dio := s\<rparr>)"
    using e by (simp add: d1)
  then have "run_tests 0 (tid # tids) d = (False, d\<lparr>entries := (entries d)(b := es), dio := s\<rparr>)"
    using r by simp
  moreover have "all_run (times_run (entries d b) (tid # tids)) (entries d b) es"
    by (rule all_run_cong [OF all_run_trans [OF es1 es]])
      (simp add: times_run_Cons times_run_all_run [OF es1])
  ultimately show ?case by blast
qed

lemma run_rounds_has_run:
  assumes "installed b d" "exitOnErr opt = 0" "loopCnt opt \<noteq> - 1" "n \<le> Suc (unat (loopCnt opt))"
  shows "\<exists>es s. run_rounds opt (of_nat (Suc (unat (loopCnt opt)) - n)) d =
      Some (d\<lparr>entries := (entries d)(b := es), dio := s\<rparr>) \<and>
    all_run (\<lambda>i. n * times_run (entries d b) (take (unat (testIdCount opt)) (testIdList opt)) i)
      (entries d b) es"
  using assms(1,4)
proof (induction n arbitrary: d)
  have max: "unat (loopCnt opt) < 2 ^ 32 - 1"
  proof -
    have "unat (loopCnt opt) \<noteq> unat (- 1 :: u32)" using assms(3) by (metis word_unat_eq_iff)
    then show ?thesis using unat_lt_u32 [of "loopCnt opt"]
      by (simp add: unsigned_minus_1_eq_mask mask_eq_exp_minus_1)
  qed
  {
    case 0
    have "\<not> of_nat (Suc (unat (loopCnt opt))) \<le> loopCnt opt"
      using max by (simp add: word_le_nat_alt unat_of_nat unat_word_ariths)
    then have "run_rounds opt (of_nat (Suc (unat (loopCnt opt)) - 0)) d = Some d"
      by (subst run_rounds.simps) simp
    then show ?case using all_run_refl [of "entries d b"]
      by (intro exI [of _ "entries d b"] exI [of _ "dio d"]) simp
  next
    case (Suc n)
    let ?tids = "take (unat (testIdCount opt)) (testIdList opt)"
    let ?k = "Suc (unat (loopCnt opt)) - Suc n"
    have k: "?k < 2 ^ 32" "?k \<le> unat (loopCnt opt)" using max by simp_all
    have le: "of_nat ?k \<le> loopCnt opt" using k by (simp add: word_le_nat_alt unat_of_nat)
    have next': "of_nat ?k + 1 = (of_nat (Suc (unat (loopCnt opt)) - n) :: u32)"
      using Suc.prems(2) by (metis Suc_diff_Suc Suc_le_lessD of_nat_Suc add.commute)
    obtain es1 s1 where
      t: "run_tests 0 ?tids d = (False, d\<lparr>entries := (entries d)(b := es1), dio := s1\<rparr>)"
      and es1: "all_run (times_run (entries d b) ?tids) (entries d b) es1"
      using run_tests_has_run [OF Suc.prems(1)] by blast
    let ?d1 = "d\<lparr>entries := (entries d)(b := es1), dio := s1\<rparr>"
    have "installed b ?d1"
      by (rule installed_update [OF Suc.prems(1)]) (simp_all add: all_run_map [OF es1])
    moreover have "n \<le> Suc (unat (loopCnt opt))" using Suc.prems(2) by simp
    ultimately obtain es s where
      r: "run_rounds opt (of_nat (Suc (unat (loopCnt opt)) - n)) ?d1 =
        Some (?d1\<lparr>entries := (entries ?d1)(b := es), dio := s\<rparr>)"
      and es': "all_run (\<lambda>i. n * times_run (entries ?d1 b) ?tids i) (entries ?d1 b) es"
      using Suc.IH [of ?d1] by blast
    have es: "all_run (\<lambda>i. n * times_run es1 ?tids i) es1 es" using es' by simp
    have "run_rounds opt (of_nat ?k) d = Some (d\<lparr>entries := (entries d)(b := es), dio := s\<rparr>)"
      using le t r next' assms(2) by (subst run_rounds.simps) simp
    moreover have "all_run (\<lambda>i. Suc n * times_run (entries d b) ?tids i) (entries d b) es"
      by (rule all_run_cong [OF all_run_trans [OF es1 es]]) (simp add: times_run_all_run [OF es1])
    ultimately show ?case by blast
  }
qed

lemma fst_run_tests_0 [simp]: "fst (run_tests 0 tids d) = False"
  by (induction tids arbitrary: d) (auto split: prod.splits)

lemma run_rounds_Some_not_forever:
  assumes "run_rounds opt n d = Some d'"
  shows "loopCnt opt \<noteq> - 1 \<or> exitOnErr opt \<noteq> 0"
  using assms
proof (rule run_rounds.raw_induct [where P = "\<lambda>opt n d d'. loopCnt opt \<noteq> - 1 \<or> exitOnErr opt \<noteq> 0", rotated])
  fix rr and opt :: testList_s and n and d d' :: "('a, 'b) diag"
  assume IH: "\<And>opt n d d'. rr opt n d = Some d' \<Longrightarrow> loopCnt opt \<noteq> - 1 \<or> exitOnErr opt \<noteq> 0"
    and body: "(if n \<le> loopCnt opt then
      let (returned, d) = run_tests (exitOnErr opt) (take (unat (testIdCount opt)) (testIdList opt)) d
      in if returned then Some d else rr opt (n + 1) d else Some d) = Some d'"
  show "loopCnt opt \<noteq> - 1 \<or> exitOnErr opt \<noteq> 0"
  proof (rule ccontr)
    assume c: "\<not> (loopCnt opt \<noteq> - 1 \<or> exitOnErr opt \<noteq> 0)"
    then have "n \<le> loopCnt opt" "exitOnErr opt = 0" by simp_all
    moreover obtain fl d1 where t: "run_tests 0 (take (unat (testIdCount opt)) (testIdList opt)) d = (fl, d1)"
      by fastforce
    moreover have "fl = False" using fst_run_tests_0 [of "take (unat (testIdCount opt)) (testIdList opt)" d] t by simp
    ultimately have "rr opt (n + 1) d1 = Some d'" using body by simp
    from IH [OF this] c show False by simp
  qed
qed

lemma run_rounds_forever:
  "loopCnt opt = - 1 \<Longrightarrow> exitOnErr opt = 0 \<Longrightarrow> run_rounds opt n d = None"
  using run_rounds_Some_not_forever [of opt n d] by (cases "run_rounds opt n d") auto

lemma ready_on_io [simp]: "ready b (on_io f d) \<longleftrightarrow> ready b d"
  by (simp add: ready_def bootable_def on_io_def)

lemma request_on_io: "ready b d \<Longrightarrow> request (on_io f d) = on_io f (request d)"
  using ProcessTestList_installs(1) [of "BOARD_DEFAULT d" b d]
    ProcessTestList_installs(1) [of "BOARD_DEFAULT d" b "on_io f d"]
  by (auto simp: ready_def bootable_def request_def installed_def on_io_def)

text \<open>The entries that a run starts with: those of the installed list, failure counts cleared.\<close>

definition fresh_entries :: "board \<Rightarrow> ('a, 'hw) diag \<Rightarrow> ('a, 'hw) testParamEntry_s list" where
  "fresh_entries b d = map (\<lambda>e. e\<lparr>newFailCount := 0\<rparr>) (entries (request d) b)"

lemma times_run_fresh:
  "i < length (fresh_entries b d) \<Longrightarrow>
   times_run (fresh_entries b d) tids i = times_run (entries (request d) b) tids i"
  by (simp add: times_run_def runs_at_def fresh_entries_def comp_def
      locate_loop_map [where es' = "map _ _" and es = "entries (request d) b"])

lemma ClearFailureCounts_ready:
  assumes "ready b d"
  shows "ClearFailureCounts d = (request d)\<lparr>entries := (entries (request d))(b := fresh_entries b d)\<rparr>"
    "installed b (ClearFailureCounts d)"
proof -
  note i = ready_request [OF assms]
  show "ClearFailureCounts d = (request d)\<lparr>entries := (entries (request d))(b := fresh_entries b d)\<rparr>"
    by (simp add: ClearFailureCounts_def request_simps fresh_entries_def cur_entries_installed [OF i]
        set_entries_installed [OF i])
  then show "installed b (ClearFailureCounts d)"
    using installed_update [OF i, of "fresh_entries b d" "dio (request d)"]
    by (simp add: fresh_entries_def comp_def)
qed

lemma ExecuteAllTestListed_has_run:
  assumes "ready b d" "exitOnErr opt = 0" "loopCnt opt \<noteq> - 1"
    and "0 < testIdCount opt" "unat (testIdCount opt) \<le> DIM_TEST_LIST"
  shows "\<exists>es s. ExecuteAllTestListed (Some opt) d =
      Some ((request d)\<lparr>entries := (entries (request d))(b := es), dio := s\<rparr>) \<and>
    all_run (\<lambda>i. Suc (unat (loopCnt opt)) *
        times_run (entries (request d) b) (take (unat (testIdCount opt)) (testIdList opt)) i)
      (fresh_entries b d) es"
proof -
  let ?d0 = "on_io (SetLogMask (logLevel opt)) (on_io (SetLoggingMode CONSOLE_LOG_MODE) d)"
  let ?d1 = "ClearFailureCounts ?d0" and ?tids = "take (unat (testIdCount opt)) (testIdList opt)"
  have r: "ready b ?d0" using assms(1) by simp
  have q: "request ?d0 = on_io (SetLogMask (logLevel opt)) (on_io (SetLoggingMode CONSOLE_LOG_MODE) (request d))"
    using assms(1) by (simp add: request_on_io)
  note c = ClearFailureCounts_ready [OF r]
  have f: "fresh_entries b ?d0 = fresh_entries b d" by (simp add: fresh_entries_def q)
  have e1: "entries ?d1 = (entries (request d))(b := fresh_entries b d)" using c(1) f q by simp
  have x: "ExecuteAllTestListed (Some opt) d = run_rounds opt 0 ?d1"
    using assms(4,5) by (auto simp: ExecuteAllTestListed_def Let_def)
  obtain es s where rr: "run_rounds opt 0 ?d1 = Some (?d1\<lparr>entries := (entries ?d1)(b := es), dio := s\<rparr>)"
    and a: "all_run (\<lambda>i. Suc (unat (loopCnt opt)) * times_run (entries ?d1 b) ?tids i) (entries ?d1 b) es"
    using run_rounds_has_run [OF c(2) assms(2,3), of "Suc (unat (loopCnt opt))"] by auto
  have "?d1\<lparr>entries := (entries ?d1)(b := es), dio := s\<rparr> =
      (request d)\<lparr>entries := (entries (request d))(b := es), dio := s\<rparr>"
    using c(1) f q by (simp add: on_io_def)
  with x rr have "ExecuteAllTestListed (Some opt) d =
    Some ((request d)\<lparr>entries := (entries (request d))(b := es), dio := s\<rparr>)" by simp
  moreover have "all_run (\<lambda>i. Suc (unat (loopCnt opt)) * times_run (entries (request d) b) ?tids i)
      (fresh_entries b d) es"
    by (rule all_run_cong [OF a [unfolded e1 fun_upd_same]]) (simp add: times_run_fresh)
  ultimately show ?thesis by blast
qed

subsection \<open>Displaying only logs\<close>

lemma diag_formats [log_intros]:
  "emit ''%08X -- %s -- %s\<newline>'' [VInt 0, VStr None, VStr None] \<noteq> None"
  "emit ''%20sError: %s has the same TestId\<newline>'' [VStr None, VStr None] \<noteq> None"
  "emit ''%4d -- '' [VInt 0] \<noteq> None"
  "emit ''%08X -- Error: Test not found\<newline>'' [VInt 0] \<noteq> None"
  "emit ''%20sError: TestId is 0x%08X but calculated 0x%08X\<newline>'' [VStr None, VInt 0, VInt 0] \<noteq> None"
  "emit ''    Exit\<newline>'' [] \<noteq> None"
  "emit ''    repeat %d times\<newline>'' [VInt 0] \<noteq> None"
  "emit ''Test list %d not found\<newline>'' [VInt 0] \<noteq> None"
  "emit ''*** Error: Unknown test\<newline>'' [] \<noteq> None"
  by code_simp+

lemma result_formats [log_intros]:
  "emit (INDENT_1 @ ''TestId - %08X\<newline>'') [VInt 0] \<noteq> None"
  "emit (INDENT_1 @ ''Not found\<newline>'') [] \<noteq> None"
  "emit (INDENT_1 @ ''Name   - %s\<newline>'') [VStr None] \<noteq> None"
  "emit (INDENT_1 @ ''Desc   - %s\<newline>'') [VStr None] \<noteq> None"
  "emit (INDENT_2 @ ''Not run\<newline>'') [] \<noteq> None"
  "emit (INDENT_2 @ ''Passed\<newline>'') [] \<noteq> None"
  "emit (INDENT_2 @ ''Failed\<newline>'') [] \<noteq> None"
  "emit (INDENT_2 @ ''Passed %d times\<newline>'') [VInt 0] \<noteq> None"
  "emit (INDENT_2 @ ''Failed %d times\<newline>'') [VInt 0] \<noteq> None"
  "emit (INDENT_2 @ ''Failed %d of %d times\<newline>'') [VInt 0, VInt 0] \<noteq> None"
  "emit (INDENT_2 @ ''Failed %d of %d times. (%d new failure)\<newline>'') [VInt 0, VInt 0, VInt 0] \<noteq> None"
  "emit (INDENT_2 @ ''Failed %d of %d times. (%d new failures)\<newline>'') [VInt 0, VInt 0, VInt 0] \<noteq> None"
  by code_simp+

lemma log_show_duplicates [log_intros]:
  "log_step s s1 \<Longrightarrow> log_step s (show_duplicates tid es n s1)"
proof (induction es arbitrary: n s1)
  case (Cons e es)
  show ?case unfolding show_duplicates.simps Let_def
    by (rule log_if Cons.IH log_printf(6) diag_formats Cons.prems)+
qed simp

lemma log_verdict [log_intros]: "log_step s s1 \<Longrightarrow> log_step s (verdict r f n s1)"
  unfolding verdict_def if_distrib [where f = "\<lambda>g. g s1"] by (assumption | rule log_intros)+

text \<open>A step of the framework that only logs: entries and settings stay, the console grows.\<close>

definition only_logs :: "('a, 'hw) diag \<Rightarrow> ('a, 'hw) diag \<Rightarrow> bool" where
  "only_logs d d' \<longleftrightarrow> (\<exists>s. log_step (dio d) s \<and> d' = d\<lparr>dio := s\<rparr>)"

lemma only_logs_refl [simp, intro]: "only_logs d d"
  unfolding only_logs_def by (rule exI [of _ "dio d"]) simp

lemma only_logs_trans: "only_logs d d' \<Longrightarrow> only_logs d' d'' \<Longrightarrow> only_logs d d''"
  by (cases d; cases d'; cases d'') (auto simp: only_logs_def intro: log_step_trans)

lemma only_logs_on_io: "only_logs d d' \<Longrightarrow> log_step (dio d') (f (dio d')) \<Longrightarrow> only_logs d (on_io f d')"
  by (cases d; cases d') (auto simp: only_logs_def on_io_def intro: log_step_trans)

lemma only_logs_installed: "only_logs d d' \<Longrightarrow> installed b d \<Longrightarrow> installed b d'"
  unfolding only_logs_def by auto

lemma only_logs_if: "(c \<Longrightarrow> only_logs d a) \<Longrightarrow> (\<not> c \<Longrightarrow> only_logs d b) \<Longrightarrow> only_logs d (if c then a else b)"
  by simp

lemmas only_logs_intros = only_logs_refl only_logs_on_io only_logs_if log_intros log_step_refl

lemma display_test_only_logs:
  assumes "installed b d"
  shows "only_logs d (display_test sh i tid d)"
  unfolding display_test_def LocateTest_installed [OF assms] Let_def prod.case
  by (cases "locate_loop tid (entries d b) 0") (simp_all only: option.case, (rule only_logs_intros)+)

lemma display_tests_only_logs:
  "installed b d \<Longrightarrow> only_logs d (display_tests sh i tids d)"
proof (induction tids arbitrary: i d)
  case (Cons tid tids)
  note 1 = display_test_only_logs [OF Cons.prems, of sh i tid]
  show ?case using only_logs_trans [OF 1 Cons.IH [OF only_logs_installed [OF 1 Cons.prems]]] by simp
qed simp

lemma DisplayTestList_only_logs:
  assumes "installed b d"
  shows "only_logs d (DisplayTestList opt sh fl d)"
proof -
  have "only_logs d' (display_tests sh i tids d')" if "only_logs d d'" for d' i tids
    using display_tests_only_logs only_logs_installed [OF that assms] by blast
  then have *: "only_logs d (display_tests sh i tids d')" if "only_logs d d'" for d' i tids
    using that only_logs_trans by blast
  show ?thesis unfolding DisplayTestList_def Let_def
    by (rule only_logs_intros * )+
qed

lemma display_result_only_logs:
  assumes "installed b d"
  shows "only_logs d (display_result level tid d)"
  unfolding display_result_def LocateTest_installed [OF assms] Let_def prod.case
  by (cases "locate_loop tid (entries d b) 0") (simp_all only: option.case, (rule only_logs_intros)+)

lemma DisplayTestResults_only_logs:
  assumes "installed b d"
  shows "only_logs d (DisplayTestResults opt d)"
proof -
  have *: "only_logs d (foldl (\<lambda>d tid. display_result (logLevel opt) tid d) d' tids)" if "only_logs d d'" for d' tids
    using that
  proof (induction tids arbitrary: d')
    case (Cons tid tids)
    then show ?case
      using display_result_only_logs [OF only_logs_installed [OF Cons.prems assms], of "logLevel opt" tid]
        only_logs_trans by fastforce
  qed simp
  show ?thesis unfolding DisplayTestResults_def
    by (rule only_logs_intros * )+
qed

subsection \<open>Properties of the runner\<close>

lemma times_run_distinct:
  assumes "distinct (map testId es)" "i < length es" "testFunction (es ! i) \<noteq> None"
  shows "times_run es tids i = count_list tids (testId (es ! i))"
proof -
  have "runs_at es tid i = (if tid = testId (es ! i) then 1 else 0)" for tid
    using assms(3) locate_distinct [OF assms(1,2)] by (auto simp: runs_at_def locate_loop_Some)
  then show ?thesis by (induction tids) (simp_all add: times_run_def)
qed

lemma has_run_counts:
  assumes "has_run k m e e'"
  shows "k \<le> m" "runCount e' = runCount e + of_nat m"
    "totalFailCount e' = totalFailCount e + of_nat k" "newFailCount e' = newFailCount e + of_nat k"
proof -
  have e': "e' = e\<lparr>runCount := runCount e + of_nat m,
     totalFailCount := totalFailCount e + of_nat k, newFailCount := newFailCount e + of_nat k,
     ResultFromSingleRun := ResultFromSingleRun e'\<rparr>" using assms by (simp add: has_run_def)
  show "k \<le> m" using assms by (simp add: has_run_def)
  show "runCount e' = runCount e + of_nat m" "totalFailCount e' = totalFailCount e + of_nat k"
    "newFailCount e' = newFailCount e + of_nat k" by (subst e', simp)+
qed

lemma request_idem: "ready b d \<Longrightarrow> request (request d) = request d"
  using request_installed [OF ready_request] .

lemma RunDeviceTest_request: "ready b d \<Longrightarrow> RunDeviceTest tid d = RunDeviceTest tid (request d)"
  by (simp only: RunDeviceTest_def LocateTest_def request_simps request_idem)

text \<open>Two tests, one that passes and one that fails; the state of the machine after reset.\<close>

definition demo_test :: "TestResultTypes_e \<Rightarrow> string \<Rightarrow> (unit, unit) testParamEntry_s" where
  "demo_test r nm = \<lparr>description = ''demo'', name = nm,
     testFunction = Some (\<lambda>tid arg s. (r, s)), testArgs = None, testId = 0,
     prevcontrol = DIAG_CONTROLRUN_IDLE, control = DIAG_CONTROLRUN_IDLE, runCount = 0,
     totalFailCount = 0, newFailCount = 0, ResultFromSingleRun = DIAG_TEST_RESULT_NOT_STARTED,
     ResultFromLoopedRun = DIAG_TEST_RESULT_NOT_STARTED, bInProgress = 0\<rparr>"

definition demo_io :: "unit io" where
  "demo_io = \<lparr>console = [], s_logMode = CONSOLE_LOG_MODE, s_logMask = LOG_MASK_ALL, curTestId = 0,
     hw = (), ub = False\<rparr>"

definition demo :: "(unit, unit) diag" where
  "demo = \<lparr>entries = (\<lambda>_. [demo_test DIAG_TEST_RESULT_PASS ''a'', demo_test DIAG_TEST_RESULT_FAIL ''b'']),
     testList_g = None, testListDim_g = 0, testNameList_g = None, exitOnErr_g = 0, repeatCnt_g = 0,
     BOARD_DEFAULT = AM335X_BBB, dio = demo_io\<rparr>"

lemma demo_ready: "ready am335x_bbb demo"
  by (simp add: ready_def bootable_def demo_def board_of_def BCM2836_RPI2_def AM335X_BBB_def)

lemma demo_entries:
  "entries (request demo) am335x_bbb =
     [init_entry (demo_test DIAG_TEST_RESULT_PASS ''a''), init_entry (demo_test DIAG_TEST_RESULT_FAIL ''b'')]"
  using ProcessTestList_installs(1) [of AM335X_BBB am335x_bbb demo]
  by (simp add: request_def demo_def board_of_def BCM2836_RPI2_def AM335X_BBB_def)

lemma demo_test_simps [simp]:
  "name (demo_test r nm) = nm" "testFunction (demo_test r nm) = Some (\<lambda>tid arg s. (r, s))"
  by (simp_all add: demo_test_def)

lemma demo_ids: "CalculateTestIdHash ''a'' = 0xE40C292C" "CalculateTestIdHash ''b'' = 0xE70C2DE5"
  by code_simp+



text \<open>
  A run whose loop count is the largest 32-bit value never ends when it does not exit on
  error: the counter of the outer loop wraps around before it exceeds the loop count.
\<close>

theorem ExecuteAllTestListed_forever:
  assumes "loopCnt opt = - 1" "exitOnErr opt = 0"
    and "0 < testIdCount opt" "unat (testIdCount opt) \<le> DIM_TEST_LIST"
  shows "ExecuteAllTestListed (Some opt) d = None"
  using assms run_rounds_forever [OF assms(1,2)]
  by (auto simp: ExecuteAllTestListed_def Let_def)

theorem ExecuteAllTestListed_forever_witness:
  "ExecuteAllTestListed
     (Some (testList_zero\<lparr>testIdCount := 1, testIdList := [0xE40C292C], loopCnt := - 1\<rparr>)) demo = None"
  by (rule ExecuteAllTestListed_forever) (simp_all add: testList_zero_def DIM_TEST_LIST_def)

text \<open>
  (C7) When no two tests share an identifier, looking up the hash of a test's name finds that
  test, and installs the list first if that has not happened yet.
\<close>

theorem LocateTest_by_name:
  assumes "ready b d" "distinct (map testId (entries (request d) b))" "i < length (entries (request d) b)"
  shows "LocateTest (CalculateTestIdHash (name (entries (request d) b ! i))) d = (Some i, request d)"
proof -
  have "testId (entries (request d) b ! i) = CalculateTestIdHash (name (entries (request d) b ! i))"
    using ready_request [OF assms(1)] assms(3) by (simp add: installed_def)
  then show ?thesis
    using locate_distinct [OF assms(2,3)] by (simp add: LocateTest_request [OF assms(1)])
qed

theorem LocateTest_by_name_witness:
  "LocateTest (CalculateTestIdHash ''b'') demo = (Some 1, request demo)"
  using LocateTest_by_name [OF demo_ready, of 1] by (simp add: demo_entries demo_ids)

text \<open>
  (C8) Running an identifier that no test has, or a test without a function, reports an aborted
  test: no entry changes and nothing but the console is touched.
\<close>

theorem RunDeviceTest_unknown:
  assumes "ready b d"
    and "\<forall>e \<in> set (entries (request d) b). testId e = tid \<longrightarrow> testFunction e = None"
  shows "\<exists>s. log_step (dio d) s \<and> RunDeviceTest tid d = (DIAG_TEST_RESULT_ABORTED, (request d)\<lparr>dio := s\<rparr>)"
proof -
  have "testFunction (entries (request d) b ! i) = None"
    if "locate_loop tid (entries (request d) b) 0 = Some i" for i
    using that assms(2) by (simp add: locate_loop_Some)
  from RunDeviceTest_aborts [OF ready_request [OF assms(1)] this] show ?thesis
    by (simp add: dio_request [OF assms(1)] RunDeviceTest_request [OF assms(1)])
qed

theorem RunDeviceTest_unknown_witness:
  "\<exists>s. log_step demo_io s \<and> RunDeviceTest 7 demo = (DIAG_TEST_RESULT_ABORTED, (request demo)\<lparr>dio := s\<rparr>)"
  using RunDeviceTest_unknown [OF demo_ready, of 7] by (simp add: demo_entries demo_ids) (simp add: demo_def)

subsection \<open>The invariant of the framework\<close>

text \<open>What identifies a registered test; the rest of an entry is bookkeeping.\<close>

definition registration where
  "registration e = (description e, name e, testFunction e, testArgs e)"

definition diag_inv :: "('a, 'hw) diag \<Rightarrow> bool" where
  "diag_inv d \<longleftrightarrow> (\<forall>b. length (entries d b) < 2 ^ 32) \<and> (\<forall>b. testList_g d = Some b \<longrightarrow> installed b d)"

definition keeps :: "('a, 'hw) diag \<Rightarrow> ('a, 'hw) diag \<Rightarrow> bool" where
  "keeps d d' \<longleftrightarrow> (diag_inv d \<longrightarrow>
     diag_inv d' \<and> (\<forall>b. map registration (entries d' b) = map registration (entries d b)))"

lemma keeps_refl [simp, intro]: "keeps d d"
  by (simp add: keeps_def)

lemma keeps_trans: "keeps d d' \<Longrightarrow> keeps d' d'' \<Longrightarrow> keeps d d''"
  by (simp add: keeps_def)

lemma keeps_on_io: "keeps d d' \<Longrightarrow> keeps d (on_io f d')"
  by (simp add: keeps_def diag_inv_def) (simp add: on_io_def)

lemma keeps_dio: "keeps d d' \<Longrightarrow> keeps d (d'\<lparr>dio := s\<rparr>)"
  by (simp add: keeps_def diag_inv_def)

lemma keeps_if: "(c \<Longrightarrow> keeps d a) \<Longrightarrow> (\<not> c \<Longrightarrow> keeps d b) \<Longrightarrow> keeps d (if c then a else b)"
  by simp

lemma keeps_set_entries:
  assumes "keeps d d'" "length es = length (cur_entries d')"
    and "\<And>i. i < length es \<Longrightarrow> registration (es ! i) = registration (cur_entries d' ! i) \<and>
           testId (es ! i) = testId (cur_entries d' ! i)"
  shows "keeps d (set_entries es d')"
  unfolding keeps_def
proof
  assume "diag_inv d"
  then have inv: "diag_inv d'" and reg: "\<And>b. map registration (entries d' b) = map registration (entries d b)"
    using assms(1) by (auto simp: keeps_def)
  show "diag_inv (set_entries es d') \<and>
    (\<forall>b. map registration (entries (set_entries es d') b) = map registration (entries d b))"
  proof (cases "testList_g d'")
    case None
    then show ?thesis using inv reg by (simp add: set_entries_def)
  next
    case (Some b)
    then have i: "installed b d'" using inv by (simp add: diag_inv_def)
    note ce = cur_entries_installed [OF i]
    have len: "length es = length (entries d' b)" using assms(2) ce by simp
    have se: "set_entries es d' = d'\<lparr>entries := (entries d')(b := es)\<rparr>"
      by (rule set_entries_installed [OF i len])
    have m: "map registration es = map registration (entries d' b)" "map testId es = map testId (entries d' b)"
      "map name es = map name (entries d' b)"
      using assms(3) len ce by (auto intro!: nth_equalityI simp: registration_def)
    have "installed b (d'\<lparr>entries := (entries d')(b := es)\<rparr>)"
      using installed_update [OF i m(2,3), of "dio d'"] by simp
    then show ?thesis using inv reg m(1) len unfolding se by (auto simp: diag_inv_def Some)
  qed
qed

lemma keeps_update_entry:
  assumes "keeps d d'" "\<And>e. registration (f e) = registration e \<and> testId (f e) = testId e"
  shows "keeps d (update_entry i f d')"
  unfolding update_entry_def
proof (rule keeps_set_entries [OF assms(1)])
  fix j assume "j < length ((cur_entries d')[i := f (cur_entries d' ! i)])"
  then show "registration ((cur_entries d')[i := f (cur_entries d' ! i)] ! j) = registration (cur_entries d' ! j) \<and>
    testId ((cur_entries d')[i := f (cur_entries d' ! i)] ! j) = testId (cur_entries d' ! j)"
    using assms(2) by (cases "i = j") auto
qed simp

lemma keeps_ProcessTestList: "keeps d (ProcessTestList i d)"
  unfolding keeps_def
proof
  assume inv: "diag_inv d"
  show "diag_inv (ProcessTestList i d) \<and>
    (\<forall>b. map registration (entries (ProcessTestList i d) b) = map registration (entries d b))"
  proof (cases "board_of i")
    case None
    then show ?thesis using inv
      by (auto simp: ProcessTestList_def board_of_def diag_inv_def Let_def on_io_def split: if_splits)
  next
    case (Some b)
    have len: "length (entries d b) < 2 ^ 32" using inv by (simp add: diag_inv_def)
    note p = ProcessTestList_installs [OF Some len]
    have "map registration (map init_entry es) = map registration es" for es
      by (simp add: registration_def)
    then show ?thesis using inv p(2) unfolding p(1) by (auto simp: diag_inv_def)
  qed
qed

lemma keeps_request: "keeps d d' \<Longrightarrow> keeps d (request d')"
  by (simp add: request_def keeps_trans [OF _ keeps_ProcessTestList])

lemma keeps_LocateTest: "keeps d d' \<Longrightarrow> keeps d (snd (LocateTest tid d'))"
  by (simp add: LocateTest_def request_simps keeps_request)

lemma keeps_ClearFailureCounts: "keeps d d' \<Longrightarrow> keeps d (ClearFailureCounts d')"
  unfolding ClearFailureCounts_def request_simps Let_def prod.case
  by (rule keeps_set_entries) (auto simp: keeps_request registration_def)

lemma keeps_GetAvailableListOfTest: "keeps d d' \<Longrightarrow> keeps d (snd (GetAvailableListOfTest opt d'))"
  by (auto simp: GetAvailableListOfTest_def request_simps Let_def keeps_on_io keeps_request split: option.split)

lemma keeps_RunDeviceTest: "keeps d d' \<Longrightarrow> keeps d (snd (RunDeviceTest tid d'))"
proof -
  assume k: "keeps d d'"
  obtain t d1 where t: "LocateTest tid d' = (t, d1)" by fastforce
  have k1: "keeps d d1" using keeps_LocateTest [OF k, of tid] t by simp
  have k2: "keeps d (snd (call_test i tid f d2))" if "keeps d d2" for i f d2
    using that by (simp add: call_test_def keeps_dio split: prod.split)
  show ?thesis
    unfolding RunDeviceTest_def t Let_def prod.case
    by (cases t) (auto simp: split_def registration_def intro!: keeps_on_io k1 k2 keeps_update_entry split: option.split)
qed

lemma keeps_run_tests: "keeps d d' \<Longrightarrow> keeps d (snd (run_tests ex tids d'))"
proof (induction tids arbitrary: d')
  case (Cons tid tids)
  show ?case using Cons.IH [OF keeps_RunDeviceTest [OF Cons.prems, of tid]]
      keeps_RunDeviceTest [OF Cons.prems, of tid] by (auto simp: split_def Let_def)
qed simp

lemma keeps_run_rounds:
  assumes "run_rounds opt n d' = Some d''" 
  shows "keeps d' d''"
  using assms
proof (rule run_rounds.raw_induct [where P = "\<lambda>opt n d d'. keeps d d'", rotated])
  fix rr and opt :: testList_s and n and d d' :: "('a, 'b) diag"
  assume IH: "\<And>opt n d d'. rr opt n d = Some d' \<Longrightarrow> keeps d d'"
    and body: "(if n \<le> loopCnt opt then
      let (returned, d) = run_tests (exitOnErr opt) (take (unat (testIdCount opt)) (testIdList opt)) d
      in if returned then Some d else rr opt (n + 1) d else Some d) = Some d'"
  have k: "keeps d (snd (run_tests (exitOnErr opt) (take (unat (testIdCount opt)) (testIdList opt)) d))"
    by (rule keeps_run_tests) simp
  show "keeps d d'"
    using body k keeps_trans [OF k IH] by (auto simp: split_def Let_def split: if_splits)
qed

lemma keeps_ExecuteAllTestListed:
  "ExecuteAllTestListed opt d = Some d' \<Longrightarrow> keeps d d'"
proof -
  assume e: "ExecuteAllTestListed opt d = Some d'"
  have k: "keeps d (ClearFailureCounts (on_io f (on_io g d)))" for f g
    by (intro keeps_ClearFailureCounts keeps_on_io) simp
  show ?thesis using e keeps_trans [OF k keeps_run_rounds]
    by (auto simp: ExecuteAllTestListed_def Let_def intro!: keeps_on_io split: option.splits if_splits)
qed

lemma keeps_display_test: "keeps d d' \<Longrightarrow> keeps d (display_test sh i tid d')"
proof -
  assume k: "keeps d d'"
  obtain t d1 where t: "LocateTest tid d' = (t, d1)" by fastforce
  have "keeps d d1" using keeps_LocateTest [OF k, of tid] t by simp
  then show ?thesis
    unfolding display_test_def t Let_def prod.case
    by (cases t) (simp_all only: option.case, (assumption | rule keeps_on_io keeps_if)+)
qed

lemma keeps_display_tests: "keeps d d' \<Longrightarrow> keeps d (display_tests sh i tids d')"
  by (induction tids arbitrary: i d') (simp_all add: keeps_display_test)

lemma keeps_DisplayTestList: "keeps d (DisplayTestList opt sh fl d)"
  unfolding DisplayTestList_def Let_def
  by (rule keeps_refl keeps_if keeps_on_io keeps_display_tests)+

lemma keeps_display_result: "keeps d d' \<Longrightarrow> keeps d (display_result level tid d')"
proof -
  assume k: "keeps d d'"
  obtain t d1 where t: "LocateTest tid d' = (t, d1)" by fastforce
  have "keeps d d1" using keeps_LocateTest [OF k, of tid] t by simp
  then show ?thesis
    unfolding display_result_def t Let_def prod.case
    by (cases t) (simp_all only: option.case, (assumption | rule keeps_on_io keeps_if)+)
qed

lemma keeps_DisplayTestResults: "keeps d (DisplayTestResults opt d)"
proof -
  have *: "keeps d d' \<Longrightarrow> keeps d (foldl (\<lambda>d tid. display_result (logLevel opt) tid d) d' tids)" for d' tids
    by (induction tids arbitrary: d') (simp_all add: keeps_display_result)
  show ?thesis unfolding DisplayTestResults_def
    by (rule keeps_refl keeps_if keeps_on_io * )+
qed

text \<open>The operations that the command and the tests can perform on the framework.\<close>

inductive diag_op :: "('a, 'hw) diag \<Rightarrow> ('a, 'hw) diag \<Rightarrow> bool" where
  process: "diag_op d (ProcessTestList i d)"
| request: "diag_op d (RequestTestList d)"
| loop_count: "diag_op d (ProcessTestLoopCount v d)"
| exit_on_err: "diag_op d (ProcessExitOnErr v d)"
| clear: "diag_op d (ClearFailureCounts d)"
| available: "diag_op d (snd (GetAvailableListOfTest opt d))"
| locate: "diag_op d (snd (LocateTest tid d))"
| run: "diag_op d (snd (RunDeviceTest tid d))"
| execute: "ExecuteAllTestListed opt d = Some d' \<Longrightarrow> diag_op d d'"
| display_list: "diag_op d (DisplayTestList opts sh fl d)"
| display_results: "diag_op d (DisplayTestResults opts d)"
| print: "diag_op d (on_io f d)"

lemma diag_op_keeps: "diag_op d d' \<Longrightarrow> keeps d d'"
proof (induction rule: diag_op.induct)
  case (loop_count d v)
  show ?case by (simp add: keeps_def diag_inv_def ProcessTestLoopCount_def installed_def)
next
  case (exit_on_err d v)
  show ?case by (simp add: keeps_def diag_inv_def ProcessExitOnErr_def installed_def)
next
  case (execute opt d d')
  then show ?case by (rule keeps_ExecuteAllTestListed)
qed (auto simp: request_simps intro: keeps_ProcessTestList keeps_request keeps_ClearFailureCounts
    keeps_GetAvailableListOfTest keeps_LocateTest keeps_RunDeviceTest keeps_DisplayTestList
    keeps_DisplayTestResults keeps_on_io)

text \<open>
  (C3) Whatever sequence of operations runs: the dimension stays the length of the installed
  list, every identifier of the installed list is the hash of its test's name, and the
  registered tests (description, name, function, arguments) never change, on either board.
\<close>

theorem framework_invariant:
  assumes "diag_op\<^sup>*\<^sup>* d d'" and "diag_inv d"
  shows "diag_inv d' \<and> (\<forall>b. map registration (entries d' b) = map registration (entries d b))"
proof -
  have "keeps d d'" using assms(1)
    by (induction rule: rtranclp_induct) (auto intro: keeps_trans diag_op_keeps)
  then show ?thesis using assms(2) by (simp add: keeps_def)
qed

theorem framework_invariant_witness:
  "diag_inv (snd (RunDeviceTest 1 (RequestTestList demo))) \<and>
   map name (entries (snd (RunDeviceTest 1 (RequestTestList demo))) am335x_bbb) = [''a'', ''b'']"
proof -
  let ?d = "snd (RunDeviceTest 1 (RequestTestList demo))"
  have "diag_op\<^sup>*\<^sup>* demo ?d"
    by (rule converse_rtranclp_into_rtranclp [where r = diag_op], rule diag_op.request)
      (rule r_into_rtranclp [where r = diag_op], rule diag_op.run)
  moreover have "diag_inv demo" by (simp add: diag_inv_def demo_def)
  ultimately have i: "diag_inv ?d" and r: "map registration (entries ?d am335x_bbb) = map registration (entries demo am335x_bbb)"
    using framework_invariant by blast+
  have "map (fst \<circ> snd) (map registration es) = map name es" for es :: "(unit, unit) testParamEntry_s list"
    by (simp add: registration_def comp_def)
  then have "map name (entries ?d am335x_bbb) = map name (entries demo am335x_bbb)" using r by metis
  then show ?thesis using i by (simp add: demo_def)
qed

end
