(* ===== verification/BoardDiag.thy ===== *)
theory BoardDiag
  imports Diag Strto
begin

text \<open>
  The \<open>boarddiag\<close> command: \<^verbatim>\<open>test-framework/common/cmd_boarddiag.c\<close>. The operations that run
  tests return \<open>None\<close> when the run does not end.
\<close>

datatype command_ret_t = CMD_RET_SUCCESS | CMD_RET_FAILURE | CMD_RET_USAGE

definition show_test_list :: "('a, 'hw) diag \<Rightarrow> ('a, 'hw) diag" where
  "show_test_list d =
     (let (nm, d) = RequestTestListName d;
          d = on_io (printf_io ''List available tests for %s\<newline>'' [VStr (Some nm)]) d;
          (options, d) = GetAvailableListOfTest (Some testList_zero) d;
          tstlst_obj = (the options)\<lparr>logLevel := LOG_MASK_ALL\<rparr>
      in DisplayTestList tstlst_obj True False d)"

definition run_all_tests ::
  "u32 \<Rightarrow> u32 \<Rightarrow> u32 \<Rightarrow> ('a, 'hw) diag \<Rightarrow> ('a, 'hw) diag option" where
  "run_all_tests exitErr loops level d =
     (let (options, d) = GetAvailableListOfTest (Some testList_zero) d;
          tstlst_obj = (the options)\<lparr>exitOnErr := exitErr, loopCnt := loops, logLevel := level\<rparr>;
          d = (if logLevel tstlst_obj AND LOG_MASK_LIST \<noteq> 0 then
                 on_io (printf_io ''\<newline>'' []) (DisplayTestList tstlst_obj True True d)
               else d)
      in case ExecuteAllTestListed (Some tstlst_obj) d of
           None \<Rightarrow> None
         | Some d \<Rightarrow> Some (DisplayTestResults tstlst_obj (on_io (printf_io ''\<newline>'' []) d)))"

text \<open>
  The loop of \<open>runtestByTestId\<close> that translates list positions into identifiers. \<open>testIndex\<close> is
  an \<open>int\<close> compared with an unsigned count, so the comparison is unsigned. \<open>Inl\<close> is the early
  return with the position that is out of range; a store behind the array of
  \<open>DIM_TEST_LIST\<close> identifiers is undefined, which needs more than 200 arguments.
\<close>

fun select_tests :: "testList_s \<Rightarrow> u32 list \<Rightarrow> testList_s \<Rightarrow> u32 + testList_s" where
  "select_tests lookup [] obj = Inr obj"
| "select_tests lookup (testIndex # idx) obj =
     (if testIndex \<ge> testIdCount lookup then Inl testIndex
      else select_tests lookup idx
             (obj\<lparr>testIdList := (testIdList obj)[unat (testIdCount obj) :=
                     testIdList lookup ! unat testIndex],
                  testIdCount := testIdCount obj + 1\<rparr>))"

definition runtestByTestId ::
  "u32 list \<Rightarrow> u32 \<Rightarrow> u32 \<Rightarrow> u32 \<Rightarrow> ('a, 'hw) diag \<Rightarrow> (command_ret_t \<times> ('a, 'hw) diag) option" where
  "runtestByTestId testlistIndex exitErr loops level d =
     (let (lookup, d) = GetAvailableListOfTest (Some testList_zero) d in
      case select_tests (the lookup) testlistIndex testList_zero of
        Inl testIndex \<Rightarrow>
          Some (CMD_RET_USAGE, on_io (printf_io ''Test %d out of range\<newline>'' [VInt testIndex]) d)
      | Inr obj \<Rightarrow>
          let tstlst_obj = obj\<lparr>exitOnErr := exitErr, loopCnt := loops, logLevel := level\<rparr>;
              d = (if logLevel tstlst_obj AND LOG_MASK_LIST \<noteq> 0 then
                     let d = on_io (printf_io ''Run the following tests\<newline>'' []) d;
                         d = DisplayTestList tstlst_obj False True d
                     in on_io (printf_io ''\<newline>'' []) d
                   else d)
          in case ExecuteAllTestListed (Some tstlst_obj) d of
               None \<Rightarrow> None
             | Some d \<Rightarrow>
                 Some (CMD_RET_SUCCESS, DisplayTestResults tstlst_obj (on_io (printf_io ''\<newline>'' []) d)))"

definition toLower :: "char \<Rightarrow> nat" where
  "toLower c =
     (let v = of_char c in
      if of_char CHR ''A'' \<le> v \<and> v \<le> of_char CHR ''Z'' then v + of_char CHR ''a'' - of_char CHR ''A''
      else v)"

text \<open>
  \<open>isSubCmd\<close> walks both strings. It reads \<open>cmd[i]\<close> only while the strings agree so far, so at
  most up to the NUL of \<open>cmd\<close>, which no character of \<open>arg\<close> before its end equals.
\<close>

fun isSubCmd_loop :: "nat \<Rightarrow> string \<Rightarrow> nat \<Rightarrow> string \<Rightarrow> nat \<Rightarrow> bool" where
  "isSubCmd_loop 0 cmd minMatch arg i = True"
| "isSubCmd_loop (Suc n) cmd minMatch arg i =
     (if ch_at arg i = NUL then i \<ge> minMatch
      else if toLower (ch_at arg i) \<noteq> toLower (ch_at cmd i) then False
      else isSubCmd_loop n cmd minMatch arg (Suc i))"

definition isSubCmd :: "string \<Rightarrow> nat \<Rightarrow> string \<Rightarrow> bool" where
  "isSubCmd cmd minMatch arg = isSubCmd_loop 256 cmd minMatch arg 0"

text \<open>Both return the new index and the argument at it, if there is one.\<close>

definition ProcessNextArg :: "nat \<Rightarrow> string list \<Rightarrow> string option \<times> nat" where
  "ProcessNextArg CmdArgIndex argv =
     (let CmdArgIndex = Suc CmdArgIndex in
      (if CmdArgIndex \<ge> length argv then None else Some (argv ! CmdArgIndex), CmdArgIndex))"

definition ProcessNextCmdArg :: "nat \<Rightarrow> string list \<Rightarrow> u32 option \<times> nat" where
  "ProcessNextCmdArg CmdArgIndex argv =
     (let CmdArgIndex = Suc CmdArgIndex in
      (if CmdArgIndex \<ge> length argv then None
       else Some (fst (simple_strtoul (argv ! CmdArgIndex) 10)), CmdArgIndex))"

definition do_boarddiag ::
  "string list \<Rightarrow> ('a, 'hw) diag \<Rightarrow> (command_ret_t \<times> ('a, 'hw) diag) option" where
  "do_boarddiag argv d =
     (let argc = length argv;
          exitErr = 0; level = LOG_MASK_ALL;
          d = on_io (printf_io ''\<newline>   === Board Diagnostics Software ===\<newline>\<newline>'' []) d;
          (nextCmdArg, CmdArgIndex) = ProcessNextArg 0 argv
      in case nextCmdArg of
           None \<Rightarrow> Some (CMD_RET_USAGE, d)
         | Some arg \<Rightarrow>
             if isSubCmd ''list'' 1 arg then Some (CMD_RET_SUCCESS, show_test_list d)
             else if isSubCmd ''runAll'' 4 arg then
               if argc = 4 then
                 let (nextCmdArg, CmdArgIndex) = ProcessNextArg CmdArgIndex argv in
                 case nextCmdArg of
                   None \<Rightarrow> Some (CMD_RET_USAGE, d)
                 | Some _ \<Rightarrow>
                     (case fst (ProcessNextCmdArg CmdArgIndex argv) of
                        None \<Rightarrow> Some (CMD_RET_USAGE, d)
                      | Some loops \<Rightarrow>
                          map_option (Pair CMD_RET_SUCCESS) (run_all_tests exitErr loops level d))
               else map_option (Pair CMD_RET_SUCCESS) (run_all_tests exitErr 0 level d)
             else if isSubCmd ''run'' 2 arg then
               if argc \<le> CmdArgIndex then Some (CMD_RET_USAGE, d)
               else if argc = 3 then
                 (case fst (ProcessNextCmdArg CmdArgIndex argv) of
                    None \<Rightarrow> Some (CMD_RET_USAGE, d)
                  | Some n \<Rightarrow> runtestByTestId [n] exitErr 0 level d)
               else Some (CMD_RET_USAGE, d)
             else Some (CMD_RET_USAGE, on_io (printf_io '' Invalid option %s\<newline>'' [VStr (Some arg)]) d))"

subsection \<open>Subcommands\<close>

lemma toLower_eq_NUL: "toLower c = 0 \<longleftrightarrow> c = NUL"
proof -
  have "(of_char c :: nat) = 0 \<longleftrightarrow> c = NUL"
  proof
    assume "(of_char c :: nat) = 0"
    then have "char_of (of_char c :: nat) = char_of (0 :: nat)" by (rule arg_cong)
    moreover have "char_of (0 :: nat) = NUL" by (simp add: char_of_def)
    ultimately show "c = NUL" by simp
  qed simp
  then show ?thesis by (auto simp: toLower_def Let_def)
qed

lemma all_from:
  "i < n \<Longrightarrow> (\<forall>j. i \<le> j \<and> j < n \<longrightarrow> P j) \<longleftrightarrow> P i \<and> (\<forall>j. Suc i \<le> j \<and> j < n \<longrightarrow> P j)" for n :: nat
  by (metis Suc_leD Suc_leI le_neq_implies_less le_refl)

lemma isSubCmd_loop_iff:
  assumes "no_nul arg" "i \<le> length arg" "length cmd < n + i" "i \<le> length cmd"
  shows "isSubCmd_loop n cmd minMatch arg i \<longleftrightarrow>
    length arg \<ge> minMatch \<and> length arg \<le> length cmd \<and>
    (\<forall>j. i \<le> j \<and> j < length arg \<longrightarrow> toLower (arg ! j) = toLower (cmd ! j))"
  using assms
proof (induction n arbitrary: i)
  case (Suc n)
  show ?case
  proof (cases "i = length arg")
    case True
    then show ?thesis using Suc.prems by (auto simp: ch_at_def)
  next
    case False
    then have i: "i < length arg" using Suc.prems(2) by simp
    have nz: "arg ! i \<noteq> NUL" using Suc.prems(1) i by (metis no_nul_def nth_mem)
    show ?thesis
    proof (cases "i < length cmd \<and> toLower (arg ! i) = toLower (cmd ! i)")
      case True
      then have "isSubCmd_loop (Suc n) cmd minMatch arg i = isSubCmd_loop n cmd minMatch arg (Suc i)"
        using i nz by (simp add: ch_at_def)
      also have "\<dots> \<longleftrightarrow> length arg \<ge> minMatch \<and> length arg \<le> length cmd \<and>
          (\<forall>j. Suc i \<le> j \<and> j < length arg \<longrightarrow> toLower (arg ! j) = toLower (cmd ! j))"
        by (rule Suc.IH) (use Suc.prems i True in auto)
      finally show ?thesis
        using True i all_from [of i "length arg" "\<lambda>j. toLower (arg ! j) = toLower (cmd ! j)"] by auto
    next
      case False
      have "toLower (ch_at arg i) \<noteq> toLower (ch_at cmd i)"
      proof (cases "i < length cmd")
        case True
        then show ?thesis using False i by (simp add: ch_at_def)
      next
        case F: False
        have "toLower (arg ! i) \<noteq> 0" using nz by (simp add: toLower_eq_NUL)
        moreover have "toLower NUL = 0" by (simp add: toLower_eq_NUL)
        ultimately show ?thesis using F i by (simp add: ch_at_def)
      qed
      then show ?thesis using False i nz by (auto simp: ch_at_def)
    qed
  qed
qed simp

text \<open>
  (C10) \<open>isSubCmd\<close> accepts exactly the abbreviations of a subcommand: the prefixes of it, in any
  case, that have at least \<open>minMatch\<close> characters.
\<close>

theorem isSubCmd_iff:
  assumes "no_nul arg" "length cmd < 256"
  shows "isSubCmd cmd minMatch arg \<longleftrightarrow>
    minMatch \<le> length arg \<and> length arg \<le> length cmd \<and>
    map toLower arg = map toLower (take (length arg) cmd)"
proof -
  have "isSubCmd cmd minMatch arg \<longleftrightarrow> minMatch \<le> length arg \<and> length arg \<le> length cmd \<and>
    (\<forall>j. 0 \<le> j \<and> j < length arg \<longrightarrow> toLower (arg ! j) = toLower (cmd ! j))"
    unfolding isSubCmd_def by (rule isSubCmd_loop_iff) (use assms in auto)
  then show ?thesis by (auto simp: list_eq_iff_nth_eq)
qed

theorem isSubCmd_iff_witness:
  "isSubCmd ''runAll'' 4 ''RUNA'' \<and> \<not> isSubCmd ''runAll'' 4 ''run'' \<and> \<not> isSubCmd ''run'' 2 ''runAll''"
  using isSubCmd_iff [of "''RUNA''" "''runAll''" 4] isSubCmd_iff [of "''run''" "''runAll''" 4]
    isSubCmd_iff [of "''runAll''" "''run''" 2]
  by (simp add: toLower_def)

subsection \<open>Listing and running\<close>

lemma board_formats [log_intros]:
  "emit ''List available tests for %s\<newline>'' [VStr None] \<noteq> None"
  "emit ''Test %d out of range\<newline>'' [VInt 0] \<noteq> None"
  "emit ''Run the following tests\<newline>'' [] \<noteq> None"
  "emit ''\<newline>   === Board Diagnostics Software ===\<newline>\<newline>'' [] \<noteq> None"
  "emit '' Invalid option %s\<newline>'' [VStr None] \<noteq> None"
  by code_simp+

text \<open>The list of all tests as \<open>GetAvailableListOfTest\<close> fills it.\<close>

definition all_tests :: "('a, 'hw) testParamEntry_s list \<Rightarrow> testList_s" where
  "all_tests es = testList_zero\<lparr>
     testIdList := map testId es @ replicate (DIM_TEST_LIST - length es) 0,
     testIdCount := of_nat (length es)\<rparr>"

lemma GetAvailableListOfTest_ready:
  assumes "ready b d" "length (entries (request d) b) \<le> DIM_TEST_LIST"
  shows "GetAvailableListOfTest (Some testList_zero) d = (Some (all_tests (entries (request d) b)), request d)"
proof -
  note i = ready_request [OF assms(1)]
  have "testListDim_g (request d) = of_nat (length (entries (request d) b))"
    "length (entries (request d) b) < 2 ^ 32" using i by (simp_all add: installed_def)
  then show ?thesis using assms(2)
    by (simp add: GetAvailableListOfTest_def request_simps cur_entries_installed [OF i] all_tests_def
        testList_zero_def unat_of_nat)
qed

lemma all_tests_simps [simp]:
  "exitOnErr (all_tests es) = 0" "loopCnt (all_tests es) = 0" "logLevel (all_tests es) = 0"
  "testIdCount (all_tests es) = of_nat (length es)"
  by (simp_all add: all_tests_def testList_zero_def)

lemma take_all_tests [simp]:
  "length es \<le> DIM_TEST_LIST \<Longrightarrow> take (length es) (testIdList (all_tests es)) = map testId es"
  by (simp add: all_tests_def)

lemma only_logs_fields:
  assumes "only_logs d d'"
  shows "entries d' = entries d" "log_step (dio d) (dio d')"
  using assms by (auto simp: only_logs_def)

lemma fresh_entries_installed: "installed b d \<Longrightarrow> fresh_entries b d = map (\<lambda>e. e\<lparr>newFailCount := 0\<rparr>) (entries d b)"
  by (simp add: fresh_entries_def request_installed)

lemma run_all_tests_has_run:
  assumes "ready b d" "loops \<noteq> - 1"
    and "0 < length (entries (request d) b)" "length (entries (request d) b) \<le> DIM_TEST_LIST"
  shows "\<exists>d'. run_all_tests 0 loops level d = Some d' \<and>
    all_run (\<lambda>i. Suc (unat loops) * times_run (entries (request d) b) (map testId (entries (request d) b)) i)
      (fresh_entries b d) (entries d' b)"
proof -
  let ?es = "entries (request d) b"
  let ?opt = "(all_tests ?es)\<lparr>exitOnErr := 0, loopCnt := loops, logLevel := level\<rparr>"
  let ?d1 = "if level AND LOG_MASK_LIST \<noteq> 0
     then on_io (printf_io ''\<newline>'' []) (DisplayTestList ?opt True True (request d)) else request d"
  note i = ready_request [OF assms(1)]
  have l1: "only_logs (request d) ?d1"
    using DisplayTestList_only_logs [OF i]
    by (intro only_logs_if) (rule only_logs_on_io log_intros log_step_refl only_logs_refl | assumption)+
  have i1: "installed b ?d1" by (rule only_logs_installed [OF l1 i])
  have len: "length ?es < 2 ^ 32" using i by (simp add: installed_def)
  have c: "0 < testIdCount ?opt" "unat (testIdCount ?opt) \<le> DIM_TEST_LIST" "unat (testIdCount ?opt) = length ?es"
    using assms(3,4) len by (simp_all add: word_less_nat_alt unat_of_nat)
  have r1: "ready b ?d1" using i1 by (simp add: ready_def)
  have q1: "request ?d1 = ?d1" by (rule request_installed [OF i1])
  have e1: "entries ?d1 = entries (request d)" by (rule only_logs_fields [OF l1])
  obtain es s where x: "ExecuteAllTestListed (Some ?opt) ?d1 =
      Some (?d1\<lparr>entries := (entries ?d1)(b := es), dio := s\<rparr>)"
    and a: "all_run (\<lambda>i. Suc (unat loops) * times_run ?es (map testId ?es) i) (fresh_entries b ?d1) es"
    using ExecuteAllTestListed_has_run [OF r1, of ?opt] c assms(2,4) q1 e1 by auto
  have a': "all_run (\<lambda>i. Suc (unat loops) * times_run ?es (map testId ?es) i) (fresh_entries b d) es"
    using a fresh_entries_installed [OF i1] e1 by (simp add: fresh_entries_def)
  let ?d2 = "?d1\<lparr>entries := (entries ?d1)(b := es), dio := s\<rparr>"
  have i2: "installed b ?d2"
    using all_run_map [OF a'] by (intro installed_update [OF i1]) (simp_all add: e1 fresh_entries_def comp_def)
  then have "only_logs (on_io (printf_io ''\<newline>'' []) ?d2) (DisplayTestResults ?opt (on_io (printf_io ''\<newline>'' []) ?d2))"
    by (intro DisplayTestResults_only_logs) simp
  then have e2: "entries (DisplayTestResults ?opt (on_io (printf_io ''\<newline>'' []) ?d2)) b = es"
    by (simp add: only_logs_fields(1))
  have "run_all_tests 0 loops level d = Some (DisplayTestResults ?opt (on_io (printf_io ''\<newline>'' []) ?d2))"
    unfolding run_all_tests_def GetAvailableListOfTest_ready [OF assms(1,4)] Let_def prod.case option.sel
    using x by (simp split del: if_split)
  then show ?thesis using a' e2 by auto
qed

lemma runtestByTestId_has_run:
  assumes "ready b d" "distinct (map testId (entries (request d) b))"
    and "length (entries (request d) b) \<le> DIM_TEST_LIST" "unat n < length (entries (request d) b)"
  shows "\<exists>d'. runtestByTestId [n] 0 0 level d = Some (CMD_RET_SUCCESS, d') \<and>
    all_run (times_run (entries (request d) b) [testId (entries (request d) b ! unat n)])
      (fresh_entries b d) (entries d' b)"
proof -
  let ?es = "entries (request d) b"
  let ?obj = "testList_zero\<lparr>testIdList := (testIdList testList_zero)[0 := testId (?es ! unat n)], testIdCount := 1\<rparr>"
  let ?opt = "?obj\<lparr>exitOnErr := 0, loopCnt := 0, logLevel := level\<rparr>"
  let ?d1 = "if level AND LOG_MASK_LIST \<noteq> 0
     then on_io (printf_io ''\<newline>'' []) (DisplayTestList ?opt False True
            (on_io (printf_io ''Run the following tests\<newline>'' []) (request d))) else request d"
  note i = ready_request [OF assms(1)]
  have l0: "only_logs (request d) (on_io (printf_io ''Run the following tests\<newline>'' []) (request d))"
    by (rule only_logs_intros board_formats)+
  have l1: "only_logs (request d) ?d1"
    using only_logs_trans [OF l0 DisplayTestList_only_logs [OF only_logs_installed [OF l0 i]]]
    by (intro only_logs_if) (rule only_logs_on_io log_intros log_step_refl only_logs_refl | assumption)+
  have i1: "installed b ?d1" by (rule only_logs_installed [OF l1 i])
  have r1: "ready b ?d1" using i1 by (simp add: ready_def)
  have q1: "request ?d1 = ?d1" by (rule request_installed [OF i1])
  have e1: "entries ?d1 = entries (request d)" by (rule only_logs_fields [OF l1])
  have t: "take (unat (testIdCount ?opt)) (testIdList ?opt) = [testId (?es ! unat n)]"
    by (simp add: testList_zero_def DIM_TEST_LIST_def replicate_Suc [of 199, simplified])
  obtain es s where x: "ExecuteAllTestListed (Some ?opt) ?d1 =
      Some (?d1\<lparr>entries := (entries ?d1)(b := es), dio := s\<rparr>)"
    and a: "all_run (times_run ?es [testId (?es ! unat n)]) (fresh_entries b ?d1) es"
    using ExecuteAllTestListed_has_run [OF r1, of ?opt] q1 e1 t
    by (auto simp: DIM_TEST_LIST_def)
  have a': "all_run (times_run ?es [testId (?es ! unat n)]) (fresh_entries b d) es"
    using a fresh_entries_installed [OF i1] e1 by (simp add: fresh_entries_def)
  let ?d2 = "?d1\<lparr>entries := (entries ?d1)(b := es), dio := s\<rparr>"
  have i2: "installed b ?d2"
    using all_run_map [OF a'] by (intro installed_update [OF i1]) (simp_all add: e1 fresh_entries_def comp_def)
  then have "only_logs (on_io (printf_io ''\<newline>'' []) ?d2) (DisplayTestResults ?opt (on_io (printf_io ''\<newline>'' []) ?d2))"
    by (intro DisplayTestResults_only_logs) simp
  then have e2: "entries (DisplayTestResults ?opt (on_io (printf_io ''\<newline>'' []) ?d2)) b = es"
    by (simp add: only_logs_fields(1))
  have len: "length ?es < 2 ^ 32" using i by (simp add: installed_def)
  have "select_tests (all_tests ?es) [n] testList_zero = Inr ?obj"
    using assms(4) len by (simp add: word_le_nat_alt unat_of_nat all_tests_def nth_append testList_zero_def)
  then have "runtestByTestId [n] 0 0 level d =
      Some (CMD_RET_SUCCESS, DisplayTestResults ?opt (on_io (printf_io ''\<newline>'' []) ?d2))"
    unfolding runtestByTestId_def GetAvailableListOfTest_ready [OF assms(1,3)] Let_def prod.case option.sel
    using x by (simp split del: if_split)
  then show ?thesis using a' e2 by auto
qed

lemma runtestByTestId_out_of_range:
  assumes "ready b d" "length (entries (request d) b) \<le> DIM_TEST_LIST"
    and "length (entries (request d) b) \<le> unat n"
  shows "\<exists>d'. runtestByTestId [n] ex loops level d = Some (CMD_RET_USAGE, d') \<and> only_logs (request d) d'"
proof -
  have len: "length (entries (request d) b) < 2 ^ 32" using ready_request [OF assms(1)] by (simp add: installed_def)
  have "select_tests (all_tests (entries (request d) b)) [n] testList_zero = Inl n"
    using assms(3) len by (simp add: word_le_nat_alt unat_of_nat)
  moreover have "only_logs (request d) (on_io (printf_io ''Test %d out of range\<newline>'' [VInt n]) (request d))"
    by (rule only_logs_intros board_formats)+
  ultimately show ?thesis
    unfolding runtestByTestId_def GetAvailableListOfTest_ready [OF assms(1,2)] Let_def prod.case option.sel
    by simp
qed

lemma show_test_list_only_logs:
  assumes "ready b d" "length (entries (request d) b) \<le> DIM_TEST_LIST"
  shows "only_logs (request d) (show_test_list d)"
proof -
  note i = ready_request [OF assms(1)]
  let ?d1 = "on_io (printf_io ''List available tests for %s\<newline>'' [VStr (Some nm)]) (request d)"
  have n: "snd (RequestTestListName d) = request d" by (simp add: RequestTestListName_def request_def Let_def)
  have l: "only_logs (request d) (on_io (printf_io ''List available tests for %s\<newline>'' [VStr (Some nm)]) (request d))" for nm
    by (rule only_logs_intros board_formats)+
  have i1: "installed b (on_io f (request d))" for f using i by simp
  have g: "GetAvailableListOfTest (Some testList_zero) (on_io f (request d)) =
     (Some (all_tests (entries (request d) b)), on_io f (request d))" for f
    using GetAvailableListOfTest_ready [of b "on_io f (request d)"] i1 assms(2)
    by (simp add: ready_def request_installed [OF i1])
  show ?thesis
    unfolding show_test_list_def Let_def split_def n g fst_conv snd_conv option.sel
    by (rule only_logs_trans [OF l DisplayTestList_only_logs [OF i1]])
qed

subsection \<open>The command\<close>

abbreviation banner :: "('a, 'hw) diag \<Rightarrow> ('a, 'hw) diag" where
  "banner d \<equiv> on_io (printf_io ''\<newline>   === Board Diagnostics Software ===\<newline>\<newline>'' []) d"

lemma only_logs_banner: "only_logs d (banner d)"
  by (rule only_logs_intros board_formats)+

lemma subcmds [simp]:
  "isSubCmd ''list'' (Suc 0) ''list''" "\<not> isSubCmd ''list'' (Suc 0) ''runAll''" "isSubCmd ''runAll'' 4 ''runAll''"
  "\<not> isSubCmd ''list'' (Suc 0) ''run''" "\<not> isSubCmd ''runAll'' 4 ''run''" "isSubCmd ''run'' 2 ''run''"
  by code_simp+

lemma do_boarddiag_list: "do_boarddiag [c, ''list''] d = Some (CMD_RET_SUCCESS, show_test_list (banner d))"
  by (simp add: do_boarddiag_def ProcessNextArg_def Let_def)

lemma do_boarddiag_runAll:
  "do_boarddiag [c, ''runAll''] d =
     map_option (Pair CMD_RET_SUCCESS) (run_all_tests 0 0 LOG_MASK_ALL (banner d))"
  "do_boarddiag [c, ''runAll'', kw, num] d =
     map_option (Pair CMD_RET_SUCCESS) (run_all_tests 0 (fst (simple_strtoul num 10)) LOG_MASK_ALL (banner d))"
  by (simp_all add: do_boarddiag_def ProcessNextArg_def ProcessNextCmdArg_def Let_def)

lemma do_boarddiag_run:
  "do_boarddiag [c, ''run'', num] d =
     runtestByTestId [fst (simple_strtoul num 10)] 0 0 LOG_MASK_ALL (banner d)"
  by (simp add: do_boarddiag_def ProcessNextArg_def ProcessNextCmdArg_def Let_def)

lemma entries_request_banner:
  "ready b d \<Longrightarrow> entries (request (on_io f d)) = entries (request d)"
  by (simp add: request_on_io)

lemma fresh_entries_on_io: "ready b d \<Longrightarrow> fresh_entries b (on_io f d) = fresh_entries b d"
  by (simp add: fresh_entries_def request_on_io)

lemma distinct_count_list: "distinct xs \<Longrightarrow> x \<in> set xs \<Longrightarrow> count_list xs x = 1"
  by (induction xs) auto

lemma count_list_map_distinct:
  "distinct (map f xs) \<Longrightarrow> i < length xs \<Longrightarrow> count_list (map f xs) (f (xs ! i)) = 1"
  using distinct_count_list [of "map f xs" "f (xs ! i)"] by simp



text \<open>
  (C9) \<open>boarddiag runAll loop 4294967295\<close> never returns.
\<close>

theorem boarddiag_runAll_forever:
  assumes "ready b d" "0 < length (entries (request d) b)" "length (entries (request d) b) \<le> DIM_TEST_LIST"
    and "fst (simple_strtoul num 10) = - 1"
  shows "do_boarddiag [c, ''runAll'', kw, num] d = None"
proof -
  have r: "ready b (banner d)" using assms(1) by simp
  have l: "length (entries (request (banner d)) b) \<le> DIM_TEST_LIST"
    using assms(3) by (simp add: entries_request_banner [OF assms(1)])
  have len: "length (entries (request d) b) < 2 ^ 32"
    using ready_request [OF assms(1)] by (simp add: installed_def)
  have "ExecuteAllTestListed (Some ((all_tests (entries (request (banner d)) b))\<lparr>exitOnErr := 0, loopCnt := - 1,
      logLevel := LOG_MASK_ALL\<rparr>)) d' = None" for d' :: "('a, 'b) diag"
    using assms(2,3) len
    by (simp add: run_rounds_forever ExecuteAllTestListed_def Let_def entries_request_banner [OF assms(1)] unat_of_nat
        of_nat_u32_eq_0)
  then have "run_all_tests 0 (- 1) LOG_MASK_ALL (banner d) = None"
    unfolding run_all_tests_def GetAvailableListOfTest_ready [OF r l] Let_def prod.case option.sel
    by simp
  then show ?thesis by (simp add: do_boarddiag_runAll assms(4))
qed

theorem boarddiag_runAll_forever_witness:
  "do_boarddiag [''boarddiag'', ''runAll'', ''loop'', ''4294967295''] demo = None"
proof (rule boarddiag_runAll_forever [OF demo_ready])
  show "fst (simple_strtoul ''4294967295'' 10) = - 1"
    using simple_strtoul_10 [of "''4294967295''" "[]"]
    by (simp add: isdigit_iff digits_value_def digit_nat_def)
qed (simp_all add: demo_entries DIM_TEST_LIST_def)



text \<open>
  (C5) A call that ends with \<open>CMD_RET_USAGE\<close> has run no test and touched no hardware: apart from
  installing the test list it only printed. \<open>boarddiag list\<close> does no more either.
\<close>

theorem boarddiag_usage_only_logs:
  assumes "ready b d" "length (entries (request d) b) \<le> DIM_TEST_LIST"
    and "do_boarddiag argv d = Some (CMD_RET_USAGE, d') \<or> do_boarddiag [c, ''list''] d = Some (r, d')"
  shows "only_logs d d' \<or> only_logs (request d) d'"
proof -
  have r: "ready b (banner d)" using assms(1) by simp
  have l: "length (entries (request (banner d)) b) \<le> DIM_TEST_LIST"
    using assms(2) by (simp add: entries_request_banner [OF assms(1)])
  have q: "only_logs (request d) (request (banner d))"
    unfolding request_on_io [OF assms(1)] by (rule only_logs_banner)
  from assms(3) show ?thesis
  proof
    assume "do_boarddiag [c, ''list''] d = Some (r, d')"
    then show ?thesis
      using only_logs_trans [OF q show_test_list_only_logs [OF r l]] by (simp add: do_boarddiag_list)
  next
    assume u: "do_boarddiag argv d = Some (CMD_RET_USAGE, d')"
    have run: "only_logs (request d) d'"
      if x: "runtestByTestId [n] 0 0 LOG_MASK_ALL (banner d) = Some (CMD_RET_USAGE, d')" for n
    proof (cases "length (entries (request (banner d)) b) \<le> unat n")
      case True
      from runtestByTestId_out_of_range [OF r l this, of 0 0 LOG_MASK_ALL] x
      have "only_logs (request (banner d)) d'" by auto
      then show ?thesis by (rule only_logs_trans [OF q])
    next
      case False
      moreover have "length (entries (request (banner d)) b) < 4294967296" using l by (simp add: DIM_TEST_LIST_def)
      ultimately show ?thesis using x unfolding runtestByTestId_def GetAvailableListOfTest_ready [OF r l]
        by (auto simp: Let_def word_le_nat_alt unat_of_nat split: option.splits if_splits)
    qed
    have inv: "only_logs d (on_io (printf_io '' Invalid option %s\<newline>'' [VStr (Some a)]) (banner d))" for a
      by (rule only_logs_intros board_formats)+
    show ?thesis using u only_logs_banner [of d] inv run
      by (auto simp: do_boarddiag_def Let_def split: option.splits if_splits prod.splits)
  qed
qed

theorem boarddiag_usage_only_logs_witness:
  "\<exists>d'. do_boarddiag [''boarddiag''] demo = Some (CMD_RET_USAGE, d') \<and>
     (only_logs demo d' \<or> only_logs (request demo) d')"
proof -
  have u: "do_boarddiag [''boarddiag''] demo = Some (CMD_RET_USAGE, banner demo)"
    by (simp add: do_boarddiag_def ProcessNextArg_def Let_def)
  from boarddiag_usage_only_logs [OF demo_ready _ disjI1 [OF u]] u show ?thesis
    by (simp add: demo_entries DIM_TEST_LIST_def)
qed

end
