(* ===== verification/Cstring.thy ===== *)
theory Cstring
  imports Ctype "HOL-Library.Sublist"
begin

text \<open>
  The string and memory functions of \<^verbatim>\<open>u-boot/lib/string.c\<close>.

  Functions that only read take C strings. Functions that write a string take the destination
  array as a list of characters, which holds all the bytes of the object; a store behind it is
  undefined: \<open>None\<close>. The memory functions work on a flat memory, a map from addresses to bytes,
  because their behaviour depends on alignment and on overlap.
\<close>

subsection \<open>Comparing\<close>

text \<open>The pair \<open>(c1, c2)\<close> after the body of the loop: equal characters \<open>continue\<close> before \<open>tolower\<close>.\<close>

definition fold_case :: "char \<Rightarrow> char \<Rightarrow> char \<times> char" where
  "fold_case c1 c2 = (if c1 = c2 then (c1, c2) else (tolower c1, tolower c2))"

fun strncasecmp_loop :: "string \<Rightarrow> string \<Rightarrow> nat \<Rightarrow> char \<times> char" where
  "strncasecmp_loop s1 s2 0 = (NUL, NUL)"
| "strncasecmp_loop s1 s2 (Suc len) =
     (if ch_at s1 0 = NUL \<or> ch_at s2 0 = NUL then (ch_at s1 0, ch_at s2 0)
      else let (c1, c2) = fold_case (ch_at s1 0) (ch_at s2 0) in
        if c1 \<noteq> c2 \<or> len = 0 then (c1, c2) else strncasecmp_loop (drop 1 s1) (drop 1 s2) len)"

definition strncasecmp :: "string \<Rightarrow> string \<Rightarrow> nat \<Rightarrow> int" where
  "strncasecmp s1 s2 len =
     (let (c1, c2) = strncasecmp_loop s1 s2 len in of_char c1 - of_char c2)"

text \<open>
  \<open>strcasecmp\<close> bounds the comparison by the largest \<open>size_t\<close>; the loop ends at the first NUL, so
  a bound of one more than the length of a string is the same.
\<close>

definition strcasecmp :: "string \<Rightarrow> string \<Rightarrow> int" where
  "strcasecmp s1 s2 = strncasecmp s1 s2 (Suc (length s1))"

text \<open>The difference of two bytes is kept in a \<open>signed char\<close>.\<close>

definition char_diff :: "char \<Rightarrow> char \<Rightarrow> int" where
  "char_diff a b = sint (byte_of a - byte_of b)"

fun strcmp :: "string \<Rightarrow> string \<Rightarrow> int" where
  "strcmp [] ct = char_diff NUL (ch_at ct 0)"
| "strcmp (c # cs) ct =
     (let res = char_diff c (ch_at ct 0) in
      if res \<noteq> 0 \<or> c = NUL then res else strcmp cs (drop 1 ct))"

fun strncmp :: "string \<Rightarrow> string \<Rightarrow> nat \<Rightarrow> int" where
  "strncmp cs ct 0 = 0"
| "strncmp cs ct (Suc count) =
     (let res = char_diff (ch_at cs 0) (ch_at ct 0) in
      if res \<noteq> 0 \<or> ch_at cs 0 = NUL then res
      else if count = 0 then res else strncmp (drop 1 cs) (drop 1 ct) count)"

fun memcmp :: "u8 list \<Rightarrow> u8 list \<Rightarrow> nat \<Rightarrow> int" where
  "memcmp cs ct 0 = 0"
| "memcmp cs ct (Suc count) =
     (let res = int (unat (hd cs)) - int (unat (hd ct)) in
      if res \<noteq> 0 then res else memcmp (tl cs) (tl ct) count)"

subsection \<open>Searching\<close>

text \<open>A pointer result is the suffix it points to; searching for NUL finds the end.\<close>

fun strchr :: "string \<Rightarrow> char \<Rightarrow> string option" where
  "strchr [] c = (if c = NUL then Some [] else None)"
| "strchr (a # s) c = (if a = c then Some (a # s) else strchr s c)"

fun strchrnul :: "string \<Rightarrow> char \<Rightarrow> string" where
  "strchrnul [] c = []"
| "strchrnul (a # s) c = (if a = c then a # s else strchrnul s c)"

text \<open>The loop runs from the NUL backwards; \<open>n\<close> is the offset of \<open>p\<close>.\<close>

fun strrchr_loop :: "string \<Rightarrow> char \<Rightarrow> nat \<Rightarrow> string option" where
  "strrchr_loop s c 0 = (if ch_at s 0 = c then Some s else None)"
| "strrchr_loop s c (Suc n) =
     (if ch_at s (Suc n) = c then Some (drop (Suc n) s) else strrchr_loop s c n)"

definition strrchr :: "string \<Rightarrow> char \<Rightarrow> string option" where
  "strrchr s c = strrchr_loop s c (length s)"

fun strlen :: "string \<Rightarrow> nat" where
  "strlen [] = 0"
| "strlen (c # s) = (if c = NUL then 0 else Suc (strlen s))"

fun strnlen :: "string \<Rightarrow> nat \<Rightarrow> nat" where
  "strnlen s 0 = 0"
| "strnlen s (Suc count) = (if ch_at s 0 = NUL then 0 else Suc (strnlen (drop 1 s) count))"

fun strcspn :: "string \<Rightarrow> string \<Rightarrow> nat" where
  "strcspn [] reject = 0"
| "strcspn (c # s) reject = (if c \<in> set reject then 0 else Suc (strcspn s reject))"

fun strspn :: "string \<Rightarrow> string \<Rightarrow> nat" where
  "strspn [] acc = 0"
| "strspn (c # s) acc = (if c \<in> set acc then Suc (strspn s acc) else 0)"

fun strpbrk :: "string \<Rightarrow> string \<Rightarrow> string option" where
  "strpbrk [] ct = None"
| "strpbrk (c # cs) ct = (if c \<in> set ct then Some (c # cs) else strpbrk cs ct)"

text \<open>
  \<open>strtok\<close> and \<open>strsep\<close> cut the string in place: the result is the token before the cut, the new
  value of \<open>___strtok\<close> or \<open>*s\<close> is the rest behind it.
\<close>

definition strtok :: "string option \<Rightarrow> string \<Rightarrow> string option \<Rightarrow> string option \<times> string option" where
  "strtok s ct saved =
     (case (case s of Some t \<Rightarrow> Some t | None \<Rightarrow> saved) of
        None \<Rightarrow> (None, saved)
      | Some sbegin \<Rightarrow>
          let sbegin = drop (strspn sbegin ct) sbegin in
          if sbegin = [] then (None, None)
          else case strpbrk sbegin ct of
                 None \<Rightarrow> (Some sbegin, None)
               | Some send \<Rightarrow> (Some (take (length sbegin - length send) sbegin), Some (drop 1 send)))"

definition strsep :: "string option \<Rightarrow> string \<Rightarrow> string option \<times> string option" where
  "strsep s ct =
     (case s of
        None \<Rightarrow> (None, None)
      | Some sbegin \<Rightarrow>
          (case strpbrk sbegin ct of
             None \<Rightarrow> (Some sbegin, None)
           | Some e \<Rightarrow> (Some (take (length sbegin - length e) sbegin), Some (drop 1 e))))"

fun swap_pairs :: "string \<Rightarrow> string" where
  "swap_pairs (p # q # s) = q # p # swap_pairs s"
| "swap_pairs s = s"

definition strswab :: "string option \<Rightarrow> string option" where
  "strswab s = (case s of None \<Rightarrow> None | Some t \<Rightarrow> if t = [] then None else Some (swap_pairs t))"

text \<open>Positions relative to the start of the area; \<open>memscan\<close> ends one past it when nothing matches.\<close>

fun memscan :: "u8 list \<Rightarrow> u8 \<Rightarrow> nat \<Rightarrow> nat" where
  "memscan addr c 0 = 0"
| "memscan addr c (Suc n) = (if hd addr = c then 0 else Suc (memscan (tl addr) c n))"

fun strstr_loop :: "nat \<Rightarrow> string \<Rightarrow> string \<Rightarrow> string option" where
  "strstr_loop l1 s1 s2 =
     (if l1 \<ge> length s2 \<and> l1 \<noteq> 0 then
        if memcmp (map of_char s1) (map of_char s2) (length s2) = 0 then Some s1
        else strstr_loop (l1 - 1) (drop 1 s1) s2
      else None)"
declare strstr_loop.simps [simp del]

definition strstr :: "string \<Rightarrow> string \<Rightarrow> string option" where
  "strstr s1 s2 = (if s2 = [] then Some s1 else strstr_loop (length s1) s1 s2)"

fun memchr :: "u8 list \<Rightarrow> u8 \<Rightarrow> nat \<Rightarrow> nat option" where
  "memchr s c 0 = None"
| "memchr s c (Suc n) = (if c = hd s then Some 0 else map_option Suc (memchr (tl s) c n))"

subsection \<open>Writing strings\<close>

text \<open>One store into the destination array.\<close>

definition store :: "nat \<Rightarrow> char \<Rightarrow> string \<Rightarrow> string option" where
  "store i c dest = (if i < length dest then Some (dest[i := c]) else None)"

text \<open>\<open>while ((*dest++ = *src++) != '\0');\<close> from position \<open>i\<close> of the destination.\<close>

fun copy_loop :: "nat \<Rightarrow> string \<Rightarrow> string \<Rightarrow> string option" where
  "copy_loop i [] dest = store i NUL dest"
| "copy_loop i (c # src) dest =
     (case store i c dest of
        None \<Rightarrow> None
      | Some dest \<Rightarrow> if c = NUL then Some dest else copy_loop (Suc i) src dest)"

definition strcpy :: "string \<Rightarrow> string \<Rightarrow> string option" where
  "strcpy dest src = copy_loop 0 src dest"

fun strncpy_loop :: "nat \<Rightarrow> nat \<Rightarrow> string \<Rightarrow> string \<Rightarrow> string option" where
  "strncpy_loop i 0 src dest = Some dest"
| "strncpy_loop i (Suc count) src dest =
     (let c = ch_at src 0 in
      case store i c dest of
        None \<Rightarrow> None
      | Some dest \<Rightarrow> if c = NUL then Some dest else strncpy_loop (Suc i) count (drop 1 src) dest)"

definition strncpy :: "string \<Rightarrow> string \<Rightarrow> nat \<Rightarrow> string option" where
  "strncpy dest src count = strncpy_loop 0 count src dest"

text \<open>\<open>memcpy(dest, src, len)\<close> of the first \<open>len\<close> characters of a string into an array.\<close>

definition copy_prefix :: "string \<Rightarrow> string \<Rightarrow> nat \<Rightarrow> string option" where
  "copy_prefix dest src len =
     (if len \<le> length dest then Some (take len src @ drop len dest) else None)"

definition strlcpy :: "string \<Rightarrow> string \<Rightarrow> nat \<Rightarrow> (nat \<times> string) option" where
  "strlcpy dest src n =
     (let ret = strlen src in
      if n \<noteq> 0 then
        let len = (if ret \<ge> n then n - 1 else ret) in
        case copy_prefix dest src len of
          None \<Rightarrow> None
        | Some dest \<Rightarrow> map_option (Pair ret) (store len NUL dest)
      else Some (ret, dest))"

text \<open>\<open>while (*dest) dest++\<close>: reading behind the array is undefined.\<close>

fun find_end :: "string \<Rightarrow> nat \<Rightarrow> nat option" where
  "find_end [] i = None"
| "find_end (c # dest) i = (if c = NUL then Some i else find_end dest (Suc i))"

definition strcat :: "string \<Rightarrow> string \<Rightarrow> string option" where
  "strcat dest src =
     (case find_end dest 0 of None \<Rightarrow> None | Some i \<Rightarrow> copy_loop i src dest)"

fun strncat_loop :: "nat \<Rightarrow> nat \<Rightarrow> string \<Rightarrow> string \<Rightarrow> string option" where
  "strncat_loop i count [] dest = store i NUL dest"
| "strncat_loop i count (c # src) dest =
     (case store i c dest of
        None \<Rightarrow> None
      | Some dest \<Rightarrow>
          if c = NUL then Some dest
          else if count - 1 = 0 then store (Suc i) NUL dest
          else strncat_loop (Suc i) (count - 1) src dest)"

definition strncat :: "string \<Rightarrow> string \<Rightarrow> nat \<Rightarrow> string option" where
  "strncat dest src count =
     (if count \<noteq> 0 then
        (case find_end dest 0 of None \<Rightarrow> None | Some i \<Rightarrow> strncat_loop i count src dest)
      else Some dest)"

text \<open>
  \<open>strdup\<close> and \<open>strndup\<close> copy into a fresh block; \<open>mem\<close> is the block that \<open>malloc\<close> returned for the
  requested size, \<open>None\<close> its failure. The outer \<open>None\<close> is an overflow, the inner one NULL.
\<close>

definition strdup :: "string option \<Rightarrow> (nat \<Rightarrow> string option) \<Rightarrow> string option option" where
  "strdup s malloc =
     (case s of
        None \<Rightarrow> Some None
      | Some t \<Rightarrow>
          (case malloc (strlen t + 1) of
             None \<Rightarrow> Some None
           | Some new \<Rightarrow> map_option Some (strcpy new t)))"

definition strndup :: "string option \<Rightarrow> nat \<Rightarrow> (nat \<Rightarrow> string option) \<Rightarrow> string option option" where
  "strndup s n malloc =
     (case s of
        None \<Rightarrow> Some None
      | Some t \<Rightarrow>
          let len = strlen t; len = (if n < len then n else len) in
          (case malloc (len + 1) of
             None \<Rightarrow> Some None
           | Some new \<Rightarrow>
               (case strncpy new t len of
                  None \<Rightarrow> None
                | Some new \<Rightarrow> map_option Some (store len NUL new))))"

subsection \<open>Memory\<close>

type_synonym memory = "u32 \<Rightarrow> u8"

text \<open>A 32-bit store and load, little-endian.\<close>

definition store_word :: "u32 \<Rightarrow> u32 \<Rightarrow> memory \<Rightarrow> memory" where
  "store_word a w mem = mem(a := ucast w, a + 1 := ucast (drop_bit 8 w),
     a + 2 := ucast (drop_bit 16 w), a + 3 := ucast (drop_bit 24 w))"

definition load_word :: "u32 \<Rightarrow> memory \<Rightarrow> u32" where
  "load_word a mem = ucast (mem a) OR push_bit 8 (ucast (mem (a + 1)))
     OR push_bit 16 (ucast (mem (a + 2))) OR push_bit 24 (ucast (mem (a + 3)))"

fun set_words :: "u32 \<Rightarrow> u32 \<Rightarrow> nat \<Rightarrow> memory \<Rightarrow> memory" where
  "set_words sl cl 0 mem = mem"
| "set_words sl cl (Suc n) mem = set_words (sl + 4) cl n (store_word sl cl mem)"

fun set_bytes :: "u32 \<Rightarrow> u8 \<Rightarrow> nat \<Rightarrow> memory \<Rightarrow> memory" where
  "set_bytes s8 c 0 mem = mem"
| "set_bytes s8 c (Suc n) mem = set_bytes (s8 + 1) c n (mem(s8 := c))"

text \<open>The word of four copies of the fill byte, as the loop over \<open>i\<close> builds it.\<close>

definition fill_word :: "u32 \<Rightarrow> u32" where
  "fill_word c = ((\<lambda>cl. push_bit 8 cl OR (c AND 0xff)) ^^ 4) 0"

definition memset :: "u32 \<Rightarrow> u32 \<Rightarrow> nat \<Rightarrow> memory \<Rightarrow> memory" where
  "memset s c count mem =
     (if s AND 3 = 0 then
        let n = count div 4
        in set_bytes (s + 4 * of_nat n) (ucast c) (count mod 4) (set_words s (fill_word c) n mem)
      else set_bytes s (ucast c) count mem)"

fun copy_words :: "u32 \<Rightarrow> u32 \<Rightarrow> nat \<Rightarrow> memory \<Rightarrow> memory" where
  "copy_words dl sl 0 mem = mem"
| "copy_words dl sl (Suc n) mem = copy_words (dl + 4) (sl + 4) n (store_word dl (load_word sl mem) mem)"

fun copy_bytes :: "u32 \<Rightarrow> u32 \<Rightarrow> nat \<Rightarrow> memory \<Rightarrow> memory" where
  "copy_bytes d8 s8 0 mem = mem"
| "copy_bytes d8 s8 (Suc n) mem = copy_bytes (d8 + 1) (s8 + 1) n (mem(d8 := mem s8))"

definition memcpy :: "u32 \<Rightarrow> u32 \<Rightarrow> nat \<Rightarrow> memory \<Rightarrow> memory" where
  "memcpy dest src count mem =
     (if src = dest then mem
      else if (dest OR src) AND 3 = 0 then
        let n = count div 4
        in copy_bytes (dest + 4 * of_nat n) (src + 4 * of_nat n) (count mod 4) (copy_words dest src n mem)
      else copy_bytes dest src count mem)"

fun copy_down :: "u32 \<Rightarrow> u32 \<Rightarrow> nat \<Rightarrow> memory \<Rightarrow> memory" where
  "copy_down tmp s 0 mem = mem"
| "copy_down tmp s (Suc n) mem = copy_down (tmp - 1) (s - 1) n (mem(tmp - 1 := mem (s - 1)))"

definition memmove :: "u32 \<Rightarrow> u32 \<Rightarrow> nat \<Rightarrow> memory \<Rightarrow> memory" where
  "memmove dest src count mem =
     (if dest \<le> src then memcpy dest src count mem
      else copy_down (dest + of_nat count) (src + of_nat count) count mem)"

fun check_bytes8 :: "u32 \<Rightarrow> u8 \<Rightarrow> nat \<Rightarrow> memory \<Rightarrow> u32 option" where
  "check_bytes8 start v 0 mem = None"
| "check_bytes8 start v (Suc n) mem =
     (if mem start \<noteq> v then Some start else check_bytes8 (start + 1) v n mem)"

definition load_dword :: "u32 \<Rightarrow> memory \<Rightarrow> u64" where
  "load_dword a mem = ucast (load_word a mem) OR push_bit 32 (ucast (load_word (a + 4) mem))"

definition value64 :: "u8 \<Rightarrow> u64" where
  "value64 v =
     (let w = ucast v; w = w OR push_bit 8 w; w = w OR push_bit 16 w in w OR push_bit 32 w)"

text \<open>The loop over 64-bit words; behind it the remaining bytes are checked one by one.\<close>

fun check_words :: "u32 \<Rightarrow> u8 \<Rightarrow> nat \<Rightarrow> nat \<Rightarrow> memory \<Rightarrow> u32 option" where
  "check_words start v 0 rest mem = check_bytes8 start v rest mem"
| "check_words start v (Suc n) rest mem =
     (if load_dword start mem \<noteq> value64 v then check_bytes8 start v 8 mem
      else check_words (start + 8) v n rest mem)"

definition memchr_inv :: "u32 \<Rightarrow> u8 \<Rightarrow> nat \<Rightarrow> memory \<Rightarrow> u32 option" where
  "memchr_inv start v bytes mem =
     (if bytes \<le> 16 then check_bytes8 start v bytes mem
      else
        let prefix = unat (start mod 8) in
        if prefix \<noteq> 0 then
          let prefix = 8 - prefix in
          case check_bytes8 start v prefix mem of
            Some r \<Rightarrow> Some r
          | None \<Rightarrow>
              check_words (start + of_nat prefix) v ((bytes - prefix) div 8) ((bytes - prefix) mod 8) mem
        else check_words start v (bytes div 8) (bytes mod 8) mem)"


subsection \<open>The word-wise memory routines against the byte-wise ones\<close>


lemma copy_bytes_append:
  "copy_bytes (d + of_nat m) (s + of_nat m) n (copy_bytes d s m mem) = copy_bytes d s (m + n) mem"
proof (induction m arbitrary: d s mem)
  case (Suc m)
  from Suc.IH [of "d + 1" "s + 1" "mem(d := mem s)"] show ?case
    by (simp only: copy_bytes.simps add_Suc of_nat_Suc add.assoc)
qed simp

lemma set_bytes_append:
  "set_bytes (s + of_nat m) c n (set_bytes s c m mem) = set_bytes s c (m + n) mem"
proof (induction m arbitrary: s mem)
  case (Suc m)
  from Suc.IH [of "s + 1" "mem(s := c)"] show ?case
    by (simp only: set_bytes.simps add_Suc of_nat_Suc add.assoc)
qed simp

lemma check_bytes8_append:
  "check_bytes8 s v (m + n) mem =
     (case check_bytes8 s v m mem of
        Some r \<Rightarrow> Some r
      | None \<Rightarrow> check_bytes8 (s + of_nat m) v n mem)"
proof (induction m arbitrary: s)
  case (Suc m)
  from Suc.IH [of "s + 1"] show ?case
    by (simp only: check_bytes8.simps add_Suc of_nat_Suc add.assoc) simp
qed simp

lemma bytes_of_load_word:
  "ucast (load_word a mem) = mem a"
  "ucast (drop_bit 8 (load_word a mem)) = mem (a + 1)"
  "ucast (drop_bit 16 (load_word a mem)) = mem (a + 2)"
  "ucast (drop_bit 24 (load_word a mem)) = mem (a + 3)"
  subgoal by (rule bit_word_eqI) (auto simp: load_word_def bit_simps dest: bit_imp_le_length)
  subgoal by (rule bit_word_eqI) (auto simp: load_word_def bit_simps dest: bit_imp_le_length)
  subgoal by (rule bit_word_eqI) (auto simp: load_word_def bit_simps dest: bit_imp_le_length)
  subgoal by (rule bit_word_eqI) (auto simp: load_word_def bit_simps dest: bit_imp_le_length)
  done

lemma and_0xff: "c AND 0xff = take_bit 8 (c :: u32)"
  by (simp add: take_bit_eq_mask mask_eq_exp_minus_1)

lemma fill_word_unfold:
  "fill_word c = take_bit 8 c OR push_bit 8 (take_bit 8 c OR push_bit 8 (take_bit 8 c OR push_bit 8 (take_bit 8 c)))"
proof -
  have "fill_word c = push_bit 8 (push_bit 8 (push_bit 8 (push_bit 8 0 OR take_bit 8 c) OR take_bit 8 c)
      OR take_bit 8 c) OR take_bit 8 c"
    by (simp only: fill_word_def and_0xff numeral_eq_Suc funpow.simps comp_def pred_numeral_simps BitM.simps Num.arith_simps id_apply)
  then show ?thesis by (simp add: or.commute)
qed

lemma bytes_of_fill_word:
  "ucast (fill_word c) = (ucast c :: u8)"
  "ucast (drop_bit 8 (fill_word c)) = (ucast c :: u8)"
  "ucast (drop_bit 16 (fill_word c)) = (ucast c :: u8)"
  "ucast (drop_bit 24 (fill_word c)) = (ucast c :: u8)"
  subgoal by (rule bit_word_eqI) (auto simp: fill_word_unfold bit_simps)
  subgoal by (rule bit_word_eqI) (auto simp: fill_word_unfold bit_simps)
  subgoal by (rule bit_word_eqI) (auto simp: fill_word_unfold bit_simps)
  subgoal by (rule bit_word_eqI) (auto simp: fill_word_unfold bit_simps)
  done

lemma set_bytes_4:
  "set_bytes s c 4 mem = mem(s := c, s + 1 := c, s + 2 := c, s + 3 := c)"
  by (simp add: numeral_eq_Suc add.assoc)

lemma set_words_eq: "set_words s (fill_word c) n mem = set_bytes s (ucast c) (4 * n) mem"
proof (induction n arbitrary: s mem)
  case (Suc n)
  have "store_word s (fill_word c) mem = set_bytes s (ucast c) 4 mem"
    by (simp add: store_word_def bytes_of_fill_word set_bytes_4)
  with Suc.IH [of "s + 4"] set_bytes_append [of s 4 "ucast c" "4 * n" mem] show ?case
    by simp
qed simp

lemma aligned_offset:
  fixes d s :: u32
  assumes "(d OR s) AND 3 = 0"
  shows "take_bit 2 (d - s) = 0"
proof -
  have *: "\<not> bit d n" "\<not> bit s n" if "n < 2" for n
  proof -
    have "\<not> bit ((d OR s) AND mask 2) n"
      using assms by (simp add: mask_eq_exp_minus_1)
    then show "\<not> bit d n" "\<not> bit s n"
      using that by (auto simp: bit_simps)
  qed
  then have "take_bit 2 d = 0" "take_bit 2 s = 0"
    by (auto intro!: bit_word_eqI simp: bit_simps)
  then have "d = push_bit 2 (drop_bit 2 d)" "s = push_bit 2 (drop_bit 2 s)"
    using bits_ident [of 2 d] bits_ident [of 2 s] by simp_all
  then have "d - s = push_bit 2 (drop_bit 2 d) - push_bit 2 (drop_bit 2 s)"
    by simp
  also have "\<dots> = push_bit 2 (drop_bit 2 d - drop_bit 2 s)"
    by (simp only: push_bit_eq_mult left_diff_distrib)
  finally show ?thesis
    by (simp only: take_bit_push_bit) simp
qed

lemma copy_word_eq:
  assumes "d - s \<noteq> 1" "d - s \<noteq> 2" "d - s \<noteq> 3"
  shows "store_word d (load_word s mem) mem = copy_bytes d s 4 mem"
proof -
  have "s + 1 \<noteq> d" "s + 2 \<noteq> d" "s + 3 \<noteq> d" "s + 2 \<noteq> d + 1" "s + 3 \<noteq> d + 1" "s + 3 \<noteq> d + 2"
    using assms by auto
  then show ?thesis
    by (simp add: store_word_def bytes_of_load_word) (simp add: numeral_eq_Suc add.assoc)
qed

lemma copy_words_eq:
  assumes "(d OR s) AND 3 = 0"
  shows "copy_words d s n mem = copy_bytes d s (4 * n) mem"
proof -
  have "d - s \<noteq> 1" "d - s \<noteq> 2" "d - s \<noteq> 3"
    using aligned_offset [OF assms] by auto
  then show ?thesis
  proof (induction n arbitrary: d s mem)
    case (Suc n)
    with Suc.IH [of "d + 4" "s + 4"] copy_bytes_append [of d 4 s "4 * n" mem] show ?case
      by (simp add: copy_word_eq)
  qed simp
qed

lemma copy_bytes_same: "copy_bytes d d n mem = mem"
  by (induction n arbitrary: d) simp_all

lemma check_bytes8_8:
  "check_bytes8 a v 8 mem = None \<longleftrightarrow>
     mem a = v \<and> mem (a + 1) = v \<and> mem (a + 2) = v \<and> mem (a + 3) = v \<and>
     mem (a + 4) = v \<and> mem (a + 5) = v \<and> mem (a + 6) = v \<and> mem (a + 7) = v"
  by (simp add: numeral_eq_Suc add.assoc)

lemma load_word_eq_iff:
  "load_word a mem = load_word b mem' \<longleftrightarrow>
     mem a = mem' b \<and> mem (a + 1) = mem' (b + 1) \<and> mem (a + 2) = mem' (b + 2) \<and> mem (a + 3) = mem' (b + 3)"
  (is "?l \<longleftrightarrow> ?r")
proof
  assume ?l
  then show ?r
    using bytes_of_load_word [of a mem] bytes_of_load_word [of b mem'] by metis
next
  assume ?r
  then show ?l
    by (simp add: load_word_def)
qed

lemma load_dword_parts:
  "ucast (load_dword a mem) = load_word a mem"
  "ucast (drop_bit 32 (load_dword a mem)) = load_word (a + 4) mem"
  subgoal by (rule bit_word_eqI) (auto simp: load_dword_def bit_simps)
  subgoal by (rule bit_word_eqI) (auto simp: load_dword_def bit_simps dest: bit_imp_le_length)
  done

lemma load_dword_eq_iff:
  "load_dword a mem = load_dword b mem' \<longleftrightarrow>
     load_word a mem = load_word b mem' \<and> load_word (a + 4) mem = load_word (b + 4) mem'"
  (is "?l \<longleftrightarrow> ?r")
proof
  assume ?l
  then show ?r
    using load_dword_parts [of a mem] load_dword_parts [of b mem'] by metis
next
  assume ?r
  then show ?l
    by (simp add: load_dword_def)
qed

lemma value64_eq: "value64 v = load_dword 0 (\<lambda>_. v)"
proof -
  let ?w = "ucast v :: u64"
  have "ucast (load_word 0 (\<lambda>_. v)) = ?w OR push_bit 8 ?w OR push_bit 16 ?w OR push_bit 24 ?w"
    by (rule bit_word_eqI) (auto simp: load_word_def bit_simps dest: bit_imp_le_length)
  moreover have "value64 v = (?w OR push_bit 8 ?w OR push_bit 16 ?w OR push_bit 24 ?w)
      OR push_bit 32 (?w OR push_bit 8 ?w OR push_bit 16 ?w OR push_bit 24 ?w)"
    by (simp only: value64_def Let_def push_bit_or push_bit_push_bit or.assoc) simp
  ultimately show ?thesis
    by (simp only: load_dword_def) (simp add: load_word_def)
qed

lemma load_dword_value64:
  "load_dword a mem = value64 v \<longleftrightarrow> check_bytes8 a v 8 mem = None"
  by (simp add: value64_eq load_dword_eq_iff load_word_eq_iff check_bytes8_8 add.assoc)

lemma check_words_eq: "check_words s v n rest mem = check_bytes8 s v (8 * n + rest) mem"
proof (induction n arbitrary: s)
  case (Suc n)
  then show ?case
    using check_bytes8_append [of s v 8 "8 * n + rest" mem] load_dword_value64 [of s mem v]
    by (cases "check_bytes8 s v 8 mem") (simp_all add: add.assoc)
qed simp

lemma memset_eq: "memset s c count mem = set_bytes s (ucast c) count mem"
  using set_bytes_append [of s "4 * (count div 4)" "ucast c" "count mod 4" mem]
  by (simp add: memset_def set_words_eq Let_def)

lemma memcpy_eq: "memcpy dest src count mem = copy_bytes dest src count mem"
  using copy_bytes_append [of dest "4 * (count div 4)" src "count mod 4" mem]
  by (simp add: memcpy_def copy_words_eq copy_bytes_same Let_def)

lemma memchr_inv_eq: "memchr_inv start v bytes mem = check_bytes8 start v bytes mem"
proof -
  have *: "check_words s v (n div 8) (n mod 8) mem = check_bytes8 s v n mem" for s n
    by (simp add: check_words_eq)
  let ?p = "8 - unat (start mod 8)"
  have "bytes > 16 \<Longrightarrow> ?p + (bytes - ?p) = bytes"
    by simp
  with check_bytes8_append [of start v ?p "bytes - ?p" mem] show ?thesis
    by (auto simp add: memchr_inv_def * Let_def split: option.splits)
qed



text \<open>The area of \<open>n\<close> bytes at \<open>d\<close>, on the circle of addresses.\<close>

definition in_area :: "u32 \<Rightarrow> nat \<Rightarrow> u32 \<Rightarrow> bool" where
  "in_area d n a \<longleftrightarrow> unat (a - d) < n"

lemma in_area_0 [simp]: "\<not> in_area d 0 a"
  by (simp add: in_area_def)

lemma in_area_Suc:
  assumes "n < 2 ^ 32 - 1"
  shows "in_area d (Suc n) a \<longleftrightarrow> a = d \<or> in_area (d + 1) n a"
    "\<not> in_area (d + 1) n d"
proof -
  have "a - (d + 1) = (a - d) - 1" by simp
  moreover have "a \<noteq> d \<Longrightarrow> unat (a - d) \<noteq> 0" by (simp add: unat_eq_zero)
  ultimately show "in_area d (Suc n) a \<longleftrightarrow> a = d \<or> in_area (d + 1) n a"
    using unat_minus_one [of "a - d"] by (cases "a = d") (simp_all only: in_area_def, auto)
  have "unat (d - (d + 1)) = 2 ^ 32 - 1"
    by (simp add: unsigned_minus_1_eq_mask mask_eq_exp_minus_1)
  then show "\<not> in_area (d + 1) n d"
    using assms by (simp add: in_area_def)
qed

lemma copy_bytes_spec:
  assumes "n < 2 ^ 32" "k = 0 \<or> n \<le> unat (- k)"
  shows "copy_bytes d (d + k) n mem a = (if in_area d n a then mem (a + k) else mem a)"
  using assms
proof (induction n arbitrary: d mem)
  case (Suc n)
  let ?m = "mem(d := mem (d + k))"
  have e: "d + 1 + k = d + k + 1" by simp
  have IH: "copy_bytes (d + 1) (d + k + 1) n ?m a = (if in_area (d + 1) n a then ?m (a + k) else ?m a)"
    using Suc.IH [of "d + 1" ?m, unfolded e] Suc.prems by linarith
  have "a + k \<noteq> d \<or> k = 0" if "in_area (d + 1) n a"
  proof (rule ccontr)
    assume "\<not> (a + k \<noteq> d \<or> k = 0)"
    then have "a - (d + 1) = - k - 1" "k \<noteq> 0" by (auto simp: algebra_simps)
    with that Suc.prems unat_minus_one [of "- k"] show False
      by (simp add: in_area_def)
  qed
  with IH in_area_Suc(1) [of n d a] in_area_Suc(2) [of n d] Suc.prems(1) show ?case
    by (auto simp: algebra_simps)
qed simp

text \<open>The downward copy starts behind both areas.\<close>

lemma copy_down_spec:
  assumes "n < 2 ^ 32" "k = 0 \<or> n \<le> unat k"
  shows "copy_down (d + of_nat n) (d + k + of_nat n) n mem a = (if in_area d n a then mem (a + k) else mem a)"
  using assms
proof (induction n arbitrary: mem)
  case (Suc n)
  let ?m = "mem(d + of_nat n := mem (d + k + of_nat n))"
  have IH: "copy_down (d + of_nat n) (d + k + of_nat n) n ?m a = (if in_area d n a then ?m (a + k) else ?m a)"
    using Suc.IH [of ?m] Suc.prems by linarith
  have n: "unat (of_nat n :: u32) = n"
    using Suc.prems(1) by (simp add: unsigned_of_nat take_bit_nat_eq_self)
  have at_end: "b = d + of_nat n \<longleftrightarrow> unat (b - d) = n" for b
  proof -
    have "b = d + of_nat n \<longleftrightarrow> b - d = of_nat n"
      by (simp add: diff_eq_eq add.commute)
    also have "\<dots> \<longleftrightarrow> unat (b - d) = n"
    proof
      assume "unat (b - d) = n"
      then have "of_nat (unat (b - d)) = (of_nat n :: u32)" by (rule arg_cong)
      then show "b - d = of_nat n" by simp
    qed (simp only: n)
    finally show ?thesis .
  qed
  have "in_area d (Suc n) a \<longleftrightarrow> a = d + of_nat n \<or> in_area d n a"
    using at_end [of a] by (simp add: in_area_def less_Suc_eq disj_commute)
  moreover have "\<not> in_area d n (d + of_nat n)"
    using at_end [of "d + of_nat n"] by (simp add: in_area_def)
  moreover have "a + k \<noteq> d + of_nat n \<or> k = 0" if "in_area d n a"
  proof (rule ccontr)
    assume "\<not> (a + k \<noteq> d + of_nat n \<or> k = 0)"
    then have "a = d + of_nat n - k" "k \<noteq> 0" by (simp_all add: eq_diff_eq)
    then have "a - d = of_nat n - k" "k \<noteq> 0" by simp_all
    moreover have "unat (of_nat n - k) = n + 2 ^ 32 - unat k" if "k \<noteq> 0"
      using Suc.prems that by (simp add: unat_sub_if_size n word_size)
    moreover have "unat k < 2 ^ 32"
      using unsigned_less [of k] by simp
    ultimately show False
      using that Suc.prems by (simp add: in_area_def)
  qed
  ultimately show ?case
    using IH by (auto simp: add.assoc add.commute [of k])
qed simp


lemma memmove_spec:
  assumes "unat dest + count \<le> 2 ^ 32" "unat src + count \<le> 2 ^ 32" "count < 2 ^ 32"
  shows "memmove dest src count mem a =
     (if in_area dest count a then mem (src + (a - dest)) else mem a)"
proof -
  define k where "k = src - dest"
  have a: "a + k = src + (a - dest)" and src: "dest + k = src"
    by (simp_all add: k_def)
  show ?thesis
  proof (cases "dest \<le> src")
    case True
    have "k = 0 \<or> count \<le> unat (- k)"
    proof (cases "src = dest")
      case False
      with True have "dest < src"
        by (simp add: order_less_le)
      then have "unat dest < unat src"
        by (rule unat_mono)
      then have "unat (dest - src) = unat dest + 2 ^ 32 - unat src"
        by (simp add: unat_sub_if_size word_size)
      with assms have "count \<le> unat (- k)"
        by (simp add: k_def)
      then show ?thesis ..
    qed (simp add: k_def)
    moreover have "memmove dest src count mem a = copy_bytes dest (dest + k) count mem a"
      using True by (simp only: memmove_def memcpy_eq src if_True)
    ultimately show ?thesis
      using copy_bytes_spec [OF assms(3), of k dest mem a] by (simp only: a simp_thms)
  next
    case False
    then have "src < dest"
      by simp
    then have "unat src < unat dest"
      by (rule unat_mono)
    then have "unat (src - dest) = unat src + 2 ^ 32 - unat dest"
      by (simp add: unat_sub_if_size word_size)
    with assms have "count \<le> unat k"
      by (simp add: k_def)
    moreover have "memmove dest src count mem a = copy_down (dest + of_nat count) (dest + k + of_nat count) count mem a"
      using False by (simp only: memmove_def src if_False)
    ultimately show ?thesis
      using copy_down_spec [OF assms(3), of k dest mem a] by (simp only: a simp_thms)
  qed
qed


subsection \<open>Comparing and searching strings\<close>


lemma byte_of_inject: "byte_of a = byte_of b \<longleftrightarrow> a = b"
proof
  assume "byte_of a = byte_of b"
  then have "unat (byte_of a) = unat (byte_of b)" by simp
  then show "a = b" by simp
qed simp

lemma char_diff_0: "char_diff a b = 0 \<longleftrightarrow> a = b"
proof -
  have "char_diff a b = 0 \<longleftrightarrow> byte_of a - byte_of b = 0"
    unfolding char_diff_def by (rule signed_eq_0_iff)
  then show ?thesis by (simp add: byte_of_inject)
qed

lemma of_char_pos: "0 < (of_char a :: nat) \<longleftrightarrow> a \<noteq> NUL"
proof -
  have "(of_char a :: nat) = of_char NUL \<longleftrightarrow> a = NUL"
    by (rule of_char_eq_iff)
  then show ?thesis by (cases "a = NUL") auto
qed

lemma char_less_linear: "a \<noteq> b \<Longrightarrow> \<not> of_char a < (of_char b :: nat) \<longleftrightarrow> of_char b < (of_char a :: nat)"
  using of_char_eq_iff [of a b, where ?'a = nat] by (simp add: not_less order_le_less)

text \<open>Inside ASCII the difference of two bytes fits the \<open>signed char\<close>.\<close>

abbreviation ascii :: "char \<Rightarrow> bool" where
  "ascii c \<equiv> of_char c < (128 :: nat)"

lemma char_diff_ascii:
  assumes "ascii a" "ascii b"
  shows "char_diff a b = int (of_char a) - int (of_char b)"
proof -
  have "char_diff a b = signed_take_bit 7 (int (of_char a) - int (of_char b))"
  proof -
    have "byte_of a - byte_of b = of_int (int (of_char a) - int (of_char b))"
      by (simp add: of_char_word)
    then show ?thesis
      unfolding char_diff_def by (simp only: signed_of_int) simp
  qed
  then show ?thesis
    using assms by (simp add: signed_take_bit_int_eq_self)
qed

lemma strcmp_0: "no_nul s \<Longrightarrow> no_nul t \<Longrightarrow> strcmp s t = 0 \<longleftrightarrow> s = t"
proof (induction s t rule: strcmp.induct)
  case (1 ct)
  then show ?case by (cases ct) (auto simp: char_diff_0 no_nul_def)
next
  case (2 c cs ct)
  then show ?case by (cases ct) (auto simp: char_diff_0 no_nul_def Let_def)
qed

abbreviation char_lt :: "char \<Rightarrow> char \<Rightarrow> bool" where
  "char_lt a b \<equiv> of_char a < (of_char b :: nat)"

lemma strcmp_less:
  "no_nul s \<Longrightarrow> no_nul t \<Longrightarrow> list_all ascii s \<Longrightarrow> list_all ascii t \<Longrightarrow>
   strcmp s t < 0 \<longleftrightarrow> ord.lexordp char_lt s t"
proof (induction s t rule: strcmp.induct)
  case (1 ct)
  then show ?case
    by (cases ct) (auto simp: char_diff_ascii char_diff_0 of_char_pos ord.lexordp_simps)
next
  case (2 c cs ct)
  then show ?case
    by (cases ct) (auto simp: char_diff_ascii char_diff_0 of_char_pos char_less_linear ord.lexordp_simps Let_def)
qed

lemma memcmp_0:
  "n \<le> length xs \<Longrightarrow> n \<le> length ys \<Longrightarrow> memcmp xs ys n = 0 \<longleftrightarrow> take n xs = take n ys"
proof (induction n arbitrary: xs ys)
  case (Suc n)
  then show ?case
    by (cases xs; cases ys) (auto simp: Let_def word_uint_eq_iff)
qed simp

lemma memcmp_prefix:
  assumes "length s2 \<le> length s1"
  shows "memcmp (map of_char s1) (map of_char s2) (length s2) = 0 \<longleftrightarrow> prefix s2 s1"
proof -
  have "memcmp (map of_char s1) (map of_char s2) (length s2) = 0 \<longleftrightarrow>
      map byte_of (take (length s2) s1) = map byte_of s2"
    using assms by (simp add: memcmp_0 take_map)
  also have "\<dots> \<longleftrightarrow> take (length s2) s1 = s2"
    by (rule inj_map_eq_map) (simp add: inj_def byte_of_inject)
  also have "\<dots> \<longleftrightarrow> prefix s2 s1"
    by (metis append_take_drop_id prefixI take_is_prefix prefix_def append_eq_conv_conj)
  finally show ?thesis .
qed

lemma strstr_loop_cases:
  assumes "s2 \<noteq> []"
  shows "strstr_loop (length s1) s1 s2 =
     (if prefix s2 s1 then Some s1 else case s1 of [] \<Rightarrow> None | c # s \<Rightarrow> strstr_loop (length s) s s2)"
proof (cases "length s2 \<le> length s1")
  case True
  with assms memcmp_prefix [OF True] show ?thesis
    by (subst strstr_loop.simps) (cases s1; simp)
next
  case False
  then have "\<not> prefix s2 s1" by (auto dest: prefix_length_le)
  moreover have "strstr_loop (length s) s s2 = None" if "s1 = c # s" for c s
    using that False by (subst strstr_loop.simps) simp
  moreover have "strstr_loop (length s1) s1 s2 = None"
    using False by (subst strstr_loop.simps) simp
  ultimately show ?thesis by (cases s1) auto
qed

lemma strstr_cases:
  "strstr s1 s2 =
     (if prefix s2 s1 then Some s1 else case s1 of [] \<Rightarrow> None | c # s \<Rightarrow> strstr s s2)"
  by (simp add: strstr_def strstr_loop_cases split: list.splits)

lemma strstr_None: "strstr s1 s2 = None \<longleftrightarrow> \<not> sublist s2 s1"
proof (induction s1)
  case Nil
  then show ?case by (subst strstr_cases) auto
next
  case (Cons c s1)
  then show ?case by (subst strstr_cases) (auto simp: sublist_Cons_right)
qed

lemma strstr_Some:
  "strstr s1 s2 = Some r \<Longrightarrow>
     \<exists>i\<le>length s1. r = drop i s1 \<and> prefix s2 r \<and> (\<forall>j<i. \<not> prefix s2 (drop j s1))"
proof (induction s1)
  case Nil
  then show ?case by (subst (asm) strstr_cases) (auto split: if_splits)
next
  case (Cons c s1)
  show ?case
  proof (cases "prefix s2 (c # s1)")
    case True
    with Cons.prems show ?thesis by (subst (asm) strstr_cases) (auto intro!: exI [of _ 0])
  next
    case False
    with Cons.prems have "strstr s1 s2 = Some r" by (subst (asm) strstr_cases) simp
    with Cons.IH obtain i where "i \<le> length s1" "r = drop i s1" "prefix s2 r"
      "\<forall>j<i. \<not> prefix s2 (drop j s1)"
      by blast
    with False show ?thesis by (intro exI [of _ "Suc i"]) (auto simp: less_Suc_eq_0_disj)
  qed
qed

lemma strlen_length: "no_nul s \<Longrightarrow> strlen s = length s"
  by (induction s) auto

lemma strlcpy_spec:
  assumes "no_nul src" "0 < n" "n \<le> length dest"
  shows "\<exists>rest. strlcpy dest src n = Some (length src, take (n - 1) src @ NUL # rest) \<and>
     length (take (n - 1) src @ NUL # rest) = length dest \<and>
     drop n (take (n - 1) src @ NUL # rest) = drop n dest"
proof -
  let ?l = "min (length src) (n - 1)"
  have l: "?l < length dest" using assms by auto
  have "strlcpy dest src n = Some (length src, (take ?l src @ drop ?l dest)[?l := NUL])"
    using assms l by (auto simp: strlcpy_def strlen_length copy_prefix_def store_def Let_def min_def)
  also have "(take ?l src @ drop ?l dest)[?l := NUL] = take (n - 1) src @ NUL # drop (Suc ?l) dest"
    using l by (simp add: list_update_append min_def Cons_nth_drop_Suc [symmetric] flip: Cons_nth_drop_Suc)
  finally show ?thesis
    using assms l by (intro exI [of _ "drop (Suc ?l) dest"]) (auto simp: min_def drop_Cons')
qed

subsection \<open>Properties\<close>

text \<open>
  The word-at-a-time \<open>memcpy\<close> is the byte-at-a-time copy from low to high addresses, for every
  alignment, every size and also for overlapping areas.
\<close>

theorem memcpy_bytewise: "memcpy dest src count mem = copy_bytes dest src count mem"
  by (rule memcpy_eq)

text \<open>
  \<open>memchr_inv\<close>, which compares 64-bit words between a byte-wise head and tail, returns the
  first byte that differs, exactly as the byte-wise scan.
\<close>

theorem memchr_inv_bytewise: "memchr_inv start v bytes mem = check_bytes8 start v bytes mem"
  by (rule memchr_inv_eq)

text \<open>
  (C14) \<open>memmove\<close> copes with overlap: when neither area wraps around the end of the address space, every
  byte of the destination area holds the byte that the source area held before, and no other byte
  changes.
\<close>

theorem memmove_overlap:
  assumes "unat dest + count \<le> 2 ^ 32" "unat src + count \<le> 2 ^ 32" "count < 2 ^ 32"
  shows "memmove dest src count mem a =
     (if in_area dest count a then mem (src + (a - dest)) else mem a)"
  using assms by (rule memmove_spec)

theorem memmove_overlap_witness:
  "memmove 0x1002 0x1000 4 (\<lambda>a. ucast a) 0x1005 = 3"
  using memmove_overlap [of "0x1002" 4 "0x1000" "\<lambda>a. ucast a" "0x1005"] by (simp add: in_area_def)

text \<open>
  (C15) On ASCII strings \<open>strcmp\<close> decides equality and its sign is the lexicographic order.
\<close>

theorem strcmp_order:
  assumes "no_nul s" "no_nul t" "list_all ascii s" "list_all ascii t"
  shows "(strcmp s t = 0 \<longleftrightarrow> s = t) \<and> (strcmp s t < 0 \<longleftrightarrow> ord.lexordp char_lt s t)"
  using assms by (simp add: strcmp_0 strcmp_less)

theorem strcmp_order_witness: "ord.lexordp char_lt ''run'' ''runAll''"
proof -
  have "strcmp ''run'' ''runAll'' < 0" by (simp add: char_diff_ascii)
  with strcmp_order [of "''run''" "''runAll''"] show ?thesis by simp
qed

text \<open>
  (C16) \<open>strstr\<close> returns the leftmost occurrence of the pattern, and NULL exactly when there is none.
\<close>

theorem strstr_leftmost:
  "case strstr s1 s2 of
     None \<Rightarrow> \<not> sublist s2 s1
   | Some r \<Rightarrow> \<exists>i\<le>length s1. r = drop i s1 \<and> prefix s2 r \<and> (\<forall>j<i. \<not> prefix s2 (drop j s1))"
  using strstr_None [of s1 s2] strstr_Some [of s1 s2] by (auto split: option.splits)

theorem strstr_leftmost_witness:
  "\<exists>i\<le>length ''am335x''. ''335x'' = drop i ''am335x'' \<and> prefix ''33'' ''335x'' \<and>
     (\<forall>j<i. \<not> prefix ''33'' (drop j ''am335x''))"
proof -
  have "strstr ''am335x'' ''33'' = Some ''335x''"
    by (subst strstr_cases, simp)+
  with strstr_leftmost [of "''33''" "''am335x''"] show ?thesis
    by (simp only: option.case)
qed

text \<open>
  (C17) \<open>strlcpy\<close> into a buffer of at least \<open>n > 0\<close> bytes never writes behind its first \<open>n\<close> bytes,
  always terminates the string, truncates it to \<open>n - 1\<close> characters and returns the full length.
\<close>

theorem strlcpy_fits:
  assumes "no_nul src" "0 < n" "n \<le> length dest"
  shows "\<exists>dest'. strlcpy dest src n = Some (length src, dest') \<and> length dest' = length dest \<and>
     cstr dest' = take (n - 1) src \<and> drop n dest' = drop n dest"
proof -
  obtain rest where "strlcpy dest src n = Some (length src, take (n - 1) src @ NUL # rest)"
    "length (take (n - 1) src @ NUL # rest) = length dest"
    "drop n (take (n - 1) src @ NUL # rest) = drop n dest"
    using strlcpy_spec [OF assms] by blast
  moreover have "cstr (take (n - 1) src @ NUL # rest) = take (n - 1) src"
    using assms(1) by (intro cstr_append_NUL no_nul_take)
  ultimately show ?thesis by blast
qed

theorem strlcpy_fits_witness:
  "\<exists>dest'. strlcpy ''xxxxxx'' ''boarddiag'' 4 = Some (9, dest') \<and> length dest' = 6 \<and>
     cstr dest' = ''boa'' \<and> drop 4 dest' = ''xx''"
  using strlcpy_fits [of "''boarddiag''" 4 "''xxxxxx''"] by (simp add: numeral_eq_Suc)

end
