(* ===== verification/Hashtable.thy ===== *)
theory Hashtable
  imports Cstring
begin

text \<open>
  The hash table of \<^verbatim>\<open>u-boot/lib/hashtable.c\<close>, which holds the environment of the boot loader:
  creation, search, insertion, deletion and the walk. Collisions are resolved by double hashing;
  slot 0 is never used.

  A pointer to a string is \<open>Some s\<close>, or \<open>None\<close> for NULL; a pointer to an entry is the index of its
  slot. Functions return \<open>None\<close> where the C code would dereference NULL, leave the table or not end.
  The outcomes of the memory allocations are an input: \<open>allocs\<close> lists whether the next calls of
  \<open>strdup\<close> and \<open>calloc\<close> succeed, and once it is empty they all do.

  Function pointers are arguments: \<open>change_ok\<close> is a field of the table as in the code. Entries name
  their callback by a number; \<open>env_hooks\<close> holds what a number stands for and the two functions
  outside the file that fill the fields of a new entry. \<open>True\<close> stands for a nonzero result, which
  rejects the change.
\<close>

subsection \<open>Data\<close>

datatype env_action = ENV_FIND | ENV_ENTER

datatype env_op = env_op_create | env_op_delete | env_op_overwrite

datatype errno = EINVAL | ESRCH | EPERM | ENOMEM

record env_entry =
  key :: "string option"
  data :: "string option"
  callback :: "nat option"
  flags :: int

record env_entry_node =
  used :: int
  entry :: env_entry

record hsearch_data =
  table :: "env_entry_node list option"
  ht_size :: nat
  filled :: u32
  change_ok :: "(env_entry \<Rightarrow> string option \<Rightarrow> env_op \<Rightarrow> u32 \<Rightarrow> bool) option"

record hstate = hsearch_data +
  errno :: "errno option"
  allocs :: "bool list"
  printed :: string

record env_hooks =
  env_callback_init :: "hstate \<Rightarrow> env_entry \<Rightarrow> nat option"
  env_flags_init :: "hstate \<Rightarrow> env_entry \<Rightarrow> int"
  call_callback :: "nat \<Rightarrow> string \<Rightarrow> string option \<Rightarrow> env_op \<Rightarrow> u32 \<Rightarrow> bool"

definition USED_FREE :: int where "USED_FREE = 0"
definition USED_DELETED :: int where "USED_DELETED = - 1"

definition free_node :: env_entry_node where
  "free_node = \<lparr>used = 0, entry = \<lparr>key = None, data = None, callback = None, flags = 0\<rparr>\<rparr>"

text \<open>One allocation, and \<open>strdup\<close> of a string that is not NULL.\<close>

definition alloc :: "hstate \<Rightarrow> bool \<times> hstate" where
  "alloc st = (case allocs st of [] \<Rightarrow> (True, st) | b # bs \<Rightarrow> (b, st\<lparr>allocs := bs\<rparr>))"

definition strdup_st :: "string \<Rightarrow> hstate \<Rightarrow> string option \<times> hstate" where
  "strdup_st s st = (let (ok, st) = alloc st in (if ok then Some s else None, st))"

subsection \<open>Creation\<close>

partial_function (option) isprime_loop :: "u32 \<Rightarrow> u32 \<Rightarrow> u32 option" where
  "isprime_loop number d =
     (if d * d < number \<and> number mod d \<noteq> 0 then isprime_loop number (d + 2) else Some d)"

definition isprime :: "u32 \<Rightarrow> bool option" where
  "isprime number = map_option (\<lambda>d. number mod d \<noteq> 0) (isprime_loop number 3)"

partial_function (option) next_prime :: "u32 \<Rightarrow> u32 option" where
  "next_prime nel =
     (case isprime nel of
        None \<Rightarrow> None
      | Some p \<Rightarrow> if p then Some nel else next_prime (nel + 2))"

definition hcreate_r :: "u32 \<Rightarrow> hstate \<Rightarrow> (nat \<times> hstate) option" where
  "hcreate_r nel st =
     (if table st \<noteq> None then Some (0, st)
      else case next_prime (nel OR 1) of
        None \<Rightarrow> None
      | Some nel \<Rightarrow>
          let st = st\<lparr>ht_size := unat nel, filled := 0\<rparr>;
              (ok, st) = alloc st
          in if ok then Some (1, st\<lparr>table := Some (replicate (unat nel + 1) free_node)\<rparr>)
             else Some (0, st))"

definition hdestroy_r :: "hstate \<Rightarrow> hstate option" where
  "hdestroy_r st =
     (if table st = None \<and> 0 < ht_size st then None else Some (st\<lparr>table := None\<rparr>))"

subsection \<open>Search\<close>

text \<open>The slot \<open>idx\<close>, and the table with a changed slot.\<close>

definition node :: "hstate \<Rightarrow> nat \<Rightarrow> env_entry_node option" where
  "node st idx =
     (case table st of None \<Rightarrow> None | Some tab \<Rightarrow> if idx < length tab then Some (tab ! idx) else None)"

definition set_node :: "nat \<Rightarrow> env_entry_node \<Rightarrow> hstate \<Rightarrow> hstate" where
  "set_node idx nd st = st\<lparr>table := map_option (\<lambda>tab. tab[idx := nd]) (table st)\<rparr>"

fun hmatch_loop :: "string \<Rightarrow> nat list \<Rightarrow> hstate \<Rightarrow> nat option option" where
  "hmatch_loop match [] st = Some None"
| "hmatch_loop match (idx # is) st =
     (case node st idx of
        None \<Rightarrow> None
      | Some nd \<Rightarrow>
          if used nd \<le> 0 then hmatch_loop match is st
          else case key (entry nd) of
            None \<Rightarrow> None
          | Some k \<Rightarrow>
              if strncmp match k (strlen match) = 0 then Some (Some idx)
              else hmatch_loop match is st)"

definition hmatch_r :: "string \<Rightarrow> nat \<Rightarrow> hstate \<Rightarrow> (nat \<times> nat option \<times> hstate) option" where
  "hmatch_r match last_idx st =
     (case hmatch_loop match [last_idx + 1..<ht_size st] st of
        None \<Rightarrow> None
      | Some (Some idx) \<Rightarrow> Some (idx, Some idx, st)
      | Some None \<Rightarrow> Some (0, None, st\<lparr>errno := Some ESRCH\<rparr>))"

text \<open>
  \<open>_compare_and_overwrite_entry\<close>: \<open>Some None\<close> is the return value -1 (keep searching), which leaves
  everything unchanged, \<open>Some (Some (ret, retval, st))\<close> any other return.
\<close>

definition rejects :: "env_hooks \<Rightarrow> env_entry \<Rightarrow> string \<Rightarrow> string option \<Rightarrow> env_op \<Rightarrow> u32 \<Rightarrow> bool" where
  "rejects h e name val op flag =
     (case callback e of None \<Rightarrow> False | Some cb \<Rightarrow> call_callback h cb name val op flag)"

definition denies :: "hstate \<Rightarrow> env_entry \<Rightarrow> string option \<Rightarrow> env_op \<Rightarrow> u32 \<Rightarrow> bool" where
  "denies st e val op flag = (case change_ok st of None \<Rightarrow> False | Some ok \<Rightarrow> ok e val op flag)"

definition compare_and_overwrite_entry ::
  "env_hooks \<Rightarrow> string \<Rightarrow> string option \<Rightarrow> env_action \<Rightarrow> u32 \<Rightarrow> nat \<Rightarrow> nat \<Rightarrow> hstate \<Rightarrow>
   (nat \<times> nat option \<times> hstate) option option" where
  "compare_and_overwrite_entry h item_key item_data action flag hval idx st =
     (case node st idx of
        None \<Rightarrow> None
      | Some nd \<Rightarrow>
          if used nd = int hval then
            case key (entry nd) of
              None \<Rightarrow> None
            | Some k \<Rightarrow>
                if strcmp item_key k = 0 then
                  if action = ENV_ENTER \<and> item_data \<noteq> None then
                    if denies st (entry nd) item_data env_op_overwrite flag then
                      Some (Some (0, None, st\<lparr>errno := Some EPERM\<rparr>))
                    else if rejects h (entry nd) item_key item_data env_op_overwrite flag then
                      Some (Some (0, None, st\<lparr>errno := Some EINVAL\<rparr>))
                    else
                      let (new, st) = strdup_st (the item_data) st;
                          st = set_node idx (nd\<lparr>entry := (entry nd)\<lparr>data := new\<rparr>\<rparr>) st
                      in if new = None then Some (Some (0, None, st\<lparr>errno := Some ENOMEM\<rparr>))
                         else Some (Some (idx, Some idx, st))
                  else Some (Some (idx, Some idx, st))
                else Some None
          else Some None)"

text \<open>The hash value of a key, the first slot and the step of the double hashing.\<close>

fun hash_loop :: "string \<Rightarrow> nat \<Rightarrow> u32 \<Rightarrow> u32" where
  "hash_loop k 0 hval = hval"
| "hash_loop k (Suc count) hval = hash_loop k count (push_bit 4 hval + of_char (k ! count))"

definition first_hash :: "string \<Rightarrow> nat \<Rightarrow> nat" where
  "first_hash k n =
     (let len = strlen k; hval = unat (hash_loop k len (of_nat len)) mod n
      in if hval = 0 then 1 else hval)"

definition second_hash :: "nat \<Rightarrow> nat \<Rightarrow> nat" where
  "second_hash hval n = 1 + hval mod (n - 2)"

definition next_idx :: "nat \<Rightarrow> nat \<Rightarrow> nat \<Rightarrow> nat" where
  "next_idx n hval2 idx = (if idx \<le> hval2 then n + idx - hval2 else idx - hval2)"

text \<open>
  The loop of the search. \<open>Inl\<close> is a return from inside the loop, \<open>Inr (idx, first_deleted)\<close> its end.
  The first argument bounds the number of turns; the search passes the size of the table.
\<close>

fun probe ::
  "nat \<Rightarrow> (nat \<Rightarrow> (nat \<times> nat option \<times> hstate) option option) \<Rightarrow> nat \<Rightarrow> nat \<Rightarrow> nat \<Rightarrow> nat \<Rightarrow> hstate \<Rightarrow>
   ((nat \<times> nat option \<times> hstate) + nat \<times> nat) option" where
  "probe 0 compare hval hval2 idx first_deleted st = None"
| "probe (Suc n) compare hval hval2 idx first_deleted st =
     (let idx = next_idx (ht_size st) hval2 idx in
      if idx = hval then Some (Inr (idx, first_deleted))
      else case node st idx of
        None \<Rightarrow> None
      | Some nd \<Rightarrow>
          let first_deleted =
            (if used nd = USED_DELETED \<and> first_deleted = 0 then idx else first_deleted)
          in case compare idx of
               None \<Rightarrow> None
             | Some (Some ret) \<Rightarrow> Some (Inl ret)
             | Some None \<Rightarrow>
                 if used nd \<noteq> USED_FREE then probe n compare hval hval2 idx first_deleted st
                 else Some (Inr (idx, first_deleted)))"

subsection \<open>Insertion and deletion\<close>

text \<open>\<open>_hdelete\<close>: the strings of the slot are freed and their pointers left as they are.\<close>

definition hdelete_at :: "nat \<Rightarrow> hstate \<Rightarrow> hstate" where
  "hdelete_at idx st =
     (case node st idx of
        None \<Rightarrow> st
      | Some nd \<Rightarrow>
          (set_node idx (nd\<lparr>used := USED_DELETED, entry := (entry nd)\<lparr>callback := None, flags := 0\<rparr>\<rparr>) st)
            \<lparr>filled := filled st - 1\<rparr>)"

text \<open>The part of \<open>hsearch_r\<close> that fills the slot \<open>idx\<close>.\<close>

definition enter_new ::
  "env_hooks \<Rightarrow> string \<Rightarrow> string option \<Rightarrow> u32 \<Rightarrow> nat \<Rightarrow> nat \<Rightarrow> hstate \<Rightarrow> (nat \<times> nat option \<times> hstate) option" where
  "enter_new h item_key item_data flag hval idx st =
     (case node st idx of
        None \<Rightarrow> None
      | Some nd \<Rightarrow>
          let (new_key, st) = strdup_st item_key st;
              (new_data, st) = (case item_data of None \<Rightarrow> (None, st) | Some d \<Rightarrow> strdup_st d st);
              e = (entry nd)\<lparr>key := new_key, data := new_data\<rparr>;
              nd = nd\<lparr>used := int hval, entry := e\<rparr>;
              st = set_node idx nd st
          in if new_key = None \<or> new_data = None then Some (0, None, st\<lparr>errno := Some ENOMEM\<rparr>)
             else
               let st = st\<lparr>filled := filled st + 1\<rparr>;
                   e = e\<lparr>callback := env_callback_init h st e\<rparr>;
                   e = e\<lparr>flags := env_flags_init h st e\<rparr>;
                   st = set_node idx (nd\<lparr>entry := e\<rparr>) st
               in if denies st e item_data env_op_create flag then
                    Some (0, None, (hdelete_at idx st)\<lparr>errno := Some EPERM\<rparr>)
                  else if rejects h e item_key item_data env_op_create flag then
                    Some (0, None, (hdelete_at idx st)\<lparr>errno := Some EINVAL\<rparr>)
                  else Some (1, Some idx, st))"

definition hsearch_r ::
  "env_hooks \<Rightarrow> string \<Rightarrow> string option \<Rightarrow> env_action \<Rightarrow> u32 \<Rightarrow> hstate \<Rightarrow> (nat \<times> nat option \<times> hstate) option" where
  "hsearch_r h item_key item_data action flag st =
     (let hval = first_hash item_key (ht_size st);
          compare = (\<lambda>idx. compare_and_overwrite_entry h item_key item_data action flag hval idx st);
          not_found = (\<lambda>idx first_deleted.
            if action = ENV_ENTER then
              if unat (filled st) = ht_size st then Some (0, None, st\<lparr>errno := Some ENOMEM\<rparr>)
              else enter_new h item_key item_data flag hval
                     (if first_deleted \<noteq> 0 then first_deleted else idx) st
            else Some (0, None, st\<lparr>errno := Some ESRCH\<rparr>))
      in case node st hval of
           None \<Rightarrow> None
         | Some nd \<Rightarrow>
             if used nd \<noteq> USED_FREE then
               let first_deleted = (if used nd = USED_DELETED then hval else 0) in
               case compare hval of
                 None \<Rightarrow> None
               | Some (Some ret) \<Rightarrow> Some ret
               | Some None \<Rightarrow>
                   (case probe (ht_size st) compare hval (second_hash hval (ht_size st)) hval first_deleted st of
                      None \<Rightarrow> None
                    | Some (Inl ret) \<Rightarrow> Some ret
                    | Some (Inr (idx, first_deleted)) \<Rightarrow> not_found idx first_deleted)
             else not_found hval 0)"

definition hdelete_r :: "env_hooks \<Rightarrow> string \<Rightarrow> u32 \<Rightarrow> hstate \<Rightarrow> (nat \<times> hstate) option" where
  "hdelete_r h name flag st =
     (case hsearch_r h name None ENV_FIND 0 st of
        None \<Rightarrow> None
      | Some (idx, ep, st) \<Rightarrow>
          if idx = 0 then Some (0, st\<lparr>errno := Some ESRCH\<rparr>)
          else case node st idx of
            None \<Rightarrow> None
          | Some nd \<Rightarrow>
              if denies st (entry nd) None env_op_delete flag then
                Some (0, st\<lparr>errno := Some EPERM\<rparr>)
              else if rejects h (entry nd) name None env_op_delete flag then
                Some (0, st\<lparr>errno := Some EINVAL\<rparr>)
              else Some (1, hdelete_at idx st))"

text \<open>\<open>hwalk_r\<close>: the callback gets a pointer to the entry and may change it.\<close>

fun hwalk_loop :: "(env_entry \<Rightarrow> int \<times> env_entry) \<Rightarrow> nat list \<Rightarrow> hstate \<Rightarrow> (int \<times> hstate) option" where
  "hwalk_loop f [] st = Some (0, st)"
| "hwalk_loop f (i # is) st =
     (case node st i of
        None \<Rightarrow> None
      | Some nd \<Rightarrow>
          if used nd > 0 then
            let (retval, e) = f (entry nd); st = set_node i (nd\<lparr>entry := e\<rparr>) st
            in if retval \<noteq> 0 then Some (retval, st) else hwalk_loop f is st
          else hwalk_loop f is st)"

definition hwalk_r :: "(env_entry \<Rightarrow> int \<times> env_entry) \<Rightarrow> hstate \<Rightarrow> (int \<times> hstate) option" where
  "hwalk_r f st = hwalk_loop f [1..<Suc (ht_size st)] st"


subsection \<open>The probe sequence visits every slot once\<close>

definition prime_size :: "nat \<Rightarrow> bool" where
  "prime_size n \<longleftrightarrow> 2 < n \<and> (\<forall>d. d dvd n \<longrightarrow> d = 1 \<or> d = n)"

definition probe_pos :: "nat \<Rightarrow> nat \<Rightarrow> nat \<Rightarrow> nat \<Rightarrow> nat" where
  "probe_pos n hval hval2 j = (next_idx n hval2 ^^ j) hval"

lemma probe_pos_0 [simp]: "probe_pos n hval hval2 0 = hval"
  by (simp add: probe_pos_def)

lemma probe_pos_Suc: "probe_pos n hval hval2 (Suc j) = next_idx n hval2 (probe_pos n hval hval2 j)"
  by (simp add: probe_pos_def)

lemma first_hash_range: "1 < n \<Longrightarrow> 1 \<le> first_hash k n \<and> first_hash k n < n"
  by (auto simp: first_hash_def Let_def)

lemma second_hash_range: "2 < n \<Longrightarrow> 1 \<le> second_hash hval n \<and> second_hash hval n < n"
  using mod_less_divisor [of "n - 2" hval] by (simp add: second_hash_def del: mod_less_divisor)

definition double_hashing :: "nat \<Rightarrow> nat \<Rightarrow> nat \<Rightarrow> bool" where
  "double_hashing n hval hval2 \<longleftrightarrow>
     prime_size n \<and> 1 \<le> hval \<and> hval < n \<and> 1 \<le> hval2 \<and> hval2 < n"

lemma probe_pos_range:
  assumes "double_hashing n hval hval2"
  shows "1 \<le> probe_pos n hval hval2 j \<and> probe_pos n hval hval2 j \<le> n"
proof (induction j)
  case 0
  show ?case using assms by (simp add: double_hashing_def)
next
  case (Suc j)
  then show ?case using assms by (auto simp: probe_pos_Suc next_idx_def double_hashing_def)
qed

lemma probe_pos_cong:
  assumes "double_hashing n hval hval2"
  shows "(int (probe_pos n hval hval2 j) + int j * int hval2) mod int n = int hval mod int n"
proof (induction j)
  case (Suc j)
  let ?i = "probe_pos n hval hval2 j"
  have "int (next_idx n hval2 ?i) = int ?i - int hval2 + (if ?i \<le> hval2 then int n else 0)"
    using assms by (auto simp: next_idx_def of_nat_diff double_hashing_def)
  then have "int (probe_pos n hval hval2 (Suc j)) + int (Suc j) * int hval2 =
      int ?i + int j * int hval2 + (if ?i \<le> hval2 then int n else 0)"
    by (simp add: probe_pos_Suc algebra_simps)
  with Suc.IH show ?case by (simp split: if_splits)
qed simp

lemma coprime_step:
  assumes "double_hashing n hval hval2"
  shows "coprime (int hval2) (int n)"
proof -
  have "gcd hval2 n dvd n" "gcd hval2 n \<le> hval2"
    using assms by (auto intro: gcd_le1_nat simp: double_hashing_def)
  then have "gcd hval2 n = 1"
    using assms unfolding prime_size_def double_hashing_def by (metis not_le)
  then show ?thesis by (simp add: coprime_iff_gcd_eq_1)
qed

lemma probe_pos_eq_dvd:
  assumes "double_hashing n hval hval2" "probe_pos n hval hval2 i = probe_pos n hval hval2 j"
  shows "int n dvd int i - int j"
proof -
  have "(int (probe_pos n hval hval2 i) + int i * int hval2) mod int n =
      (int (probe_pos n hval hval2 j) + int j * int hval2) mod int n"
    by (simp only: probe_pos_cong [OF assms(1)])
  then have "int n dvd (int i - int j) * int hval2"
    using assms(2) by (simp add: mod_eq_dvd_iff algebra_simps)
  then show ?thesis
    using coprime_step [OF assms(1)] by (simp add: coprime_dvd_mult_left_iff coprime_commute)
qed

lemma probe_pos_inj:
  assumes "double_hashing n hval hval2"
  shows "inj_on (probe_pos n hval hval2) {..<n}"
proof (rule inj_onI)
  fix i j assume "i \<in> {..<n}" "j \<in> {..<n}" "probe_pos n hval hval2 i = probe_pos n hval hval2 j"
  then have "int n dvd int i - int j" "\<bar>int i - int j\<bar> < int n"
    using probe_pos_eq_dvd [OF assms] by auto
  then have "int i - int j = 0"
    using zdvd_not_zless [of "\<bar>int i - int j\<bar>" "int n"] by (cases "int i - int j = 0") auto
  then show "i = j" by simp
qed

lemma probe_pos_image:
  assumes "double_hashing n hval hval2"
  shows "probe_pos n hval hval2 ` {..<n} = {1..n}"
proof (rule card_subset_eq)
  show "probe_pos n hval hval2 ` {..<n} \<subseteq> {1..n}" using probe_pos_range [OF assms] by auto
  show "card (probe_pos n hval hval2 ` {..<n}) = card {1..n}" using card_image [OF probe_pos_inj [OF assms]] by simp
qed simp

lemma probe_pos_return:
  assumes "double_hashing n hval hval2"
  shows "probe_pos n hval hval2 n = hval"
proof -
  obtain j where j: "j < n" "probe_pos n hval hval2 j = probe_pos n hval hval2 n"
    using probe_pos_image [OF assms] probe_pos_range [OF assms, of n]
    by (metis (no_types, lifting) atLeastAtMost_iff imageE lessThan_iff)
  then have "int n dvd int j - int n" using probe_pos_eq_dvd [OF assms, of j n] by simp
  then have "int n dvd int j" by (metis dvd_diffD dvd_refl diff_add_cancel dvd_add)
  then have "j = 0" using j(1) by (metis zdvd_imp_le not_le of_nat_less_iff of_nat_0_less_iff neq0_conv)
  with j(2) show ?thesis by simp
qed

lemma probe_pos_ne_start:
  assumes "double_hashing n hval hval2" "0 < j" "j < n"
  shows "probe_pos n hval hval2 j \<noteq> hval"
  using inj_onD [OF probe_pos_inj [OF assms(1)], of j 0] assms(2,3) by auto

text \<open>The slots in the order in which the search for a key visits them.\<close>

definition chain :: "string \<Rightarrow> nat \<Rightarrow> nat list" where
  "chain k n = map (probe_pos n (first_hash k n) (second_hash (first_hash k n) n)) [0..<n]"

lemma chain_dh: "prime_size n \<Longrightarrow> double_hashing n (first_hash k n) (second_hash (first_hash k n) n)"
  using first_hash_range [of n k] second_hash_range [of n "first_hash k n"]
  by (simp add: double_hashing_def prime_size_def)

lemma set_chain: "prime_size n \<Longrightarrow> set (chain k n) = {1..n}"
  using probe_pos_image [OF chain_dh] by (simp add: chain_def atLeast0LessThan)

lemma distinct_chain: "prime_size n \<Longrightarrow> distinct (chain k n)"
  using probe_pos_inj [OF chain_dh] by (simp add: chain_def distinct_map atLeast0LessThan)

lemma chain_start:
  assumes "prime_size n"
  shows "chain k n = first_hash k n # map (probe_pos n (first_hash k n) (second_hash (first_hash k n) n)) [1..<n]"
proof -
  have "[0..<n] = 0 # [1..<n]" using assms by (simp add: prime_size_def upt_conv_Cons)
  then show ?thesis by (simp add: chain_def)
qed

subsection \<open>The search as a scan of the chain\<close>

fun scan ::
  "(nat \<Rightarrow> (nat \<times> nat option \<times> hstate) option option) \<Rightarrow> nat \<Rightarrow> nat list \<Rightarrow> nat \<Rightarrow> hstate \<Rightarrow>
   ((nat \<times> nat option \<times> hstate) + nat \<times> nat) option" where
  "scan compare hval [] first_deleted st = Some (Inr (hval, first_deleted))"
| "scan compare hval (idx # is) first_deleted st =
     (case node st idx of
        None \<Rightarrow> None
      | Some nd \<Rightarrow>
          let first_deleted =
            (if used nd = USED_DELETED \<and> first_deleted = 0 then idx else first_deleted)
          in case compare idx of
               None \<Rightarrow> None
             | Some (Some ret) \<Rightarrow> Some (Inl ret)
             | Some None \<Rightarrow>
                 if used nd \<noteq> USED_FREE then scan compare hval is first_deleted st
                 else Some (Inr (idx, first_deleted)))"

lemma probe_scan:
  assumes "double_hashing (ht_size st) hval hval2"
  shows "j < ht_size st \<Longrightarrow> ht_size st - j \<le> fuel \<Longrightarrow>
     probe fuel compare hval hval2 (probe_pos (ht_size st) hval hval2 j) fd st =
     scan compare hval (map (probe_pos (ht_size st) hval hval2) [Suc j..<ht_size st]) fd st"
proof (induction fuel arbitrary: j fd)
  case (Suc fuel)
  let ?n = "ht_size st" and ?pos = "probe_pos (ht_size st) hval hval2"
  have nxt: "next_idx ?n hval2 (?pos j) = ?pos (Suc j)"
    by (simp add: probe_pos_Suc)
  show ?case
  proof (cases "Suc j = ?n")
    case True
    then have "?pos (Suc j) = hval" using probe_pos_return [OF assms] by simp
    with True nxt show ?thesis by (simp add: Let_def)
  next
    case False
    with Suc.prems have j: "Suc j < ?n" by simp
    then have "?pos (Suc j) \<noteq> hval" by (intro probe_pos_ne_start [OF assms]) auto
    moreover have "[Suc j..<?n] = Suc j # [Suc (Suc j)..<?n]"
      using j by (rule upt_conv_Cons)
    moreover have "probe fuel compare hval hval2 (?pos (Suc j)) fd' st =
        scan compare hval (map ?pos [Suc (Suc j)..<?n]) fd' st" for fd'
      using Suc.IH [of "Suc j" fd'] Suc.prems j by simp
    ultimately show ?thesis
      by (simp add: nxt Let_def del: upt_Suc split: option.splits)
  qed
qed simp


lemma hsearch_scan:
  assumes "prime_size (ht_size st)"
  shows "hsearch_r h k d action flag st =
     (case scan (\<lambda>idx. compare_and_overwrite_entry h k d action flag (first_hash k (ht_size st)) idx st)
        (first_hash k (ht_size st)) (chain k (ht_size st)) 0 st of
        None \<Rightarrow> None
      | Some (Inl ret) \<Rightarrow> Some ret
      | Some (Inr (idx, first_deleted)) \<Rightarrow>
          if action = ENV_ENTER then
            if unat (filled st) = ht_size st then Some (0, None, st\<lparr>errno := Some ENOMEM\<rparr>)
            else enter_new h k d flag (first_hash k (ht_size st))
                   (if first_deleted \<noteq> 0 then first_deleted else idx) st
          else Some (0, None, st\<lparr>errno := Some ESRCH\<rparr>))"
proof -
  let ?n = "ht_size st"
  let ?hval = "first_hash k ?n"
  let ?cmp = "\<lambda>idx. compare_and_overwrite_entry h k d action flag ?hval idx st"
  let ?rest = "map (probe_pos ?n ?hval (second_hash ?hval ?n)) [1..<?n]"
  have n: "0 < ?n" "1 < ?n" using assms by (simp_all add: prime_size_def)
  have hval: "1 \<le> ?hval" using first_hash_range [OF n(2)] by blast
  have probe: "probe ?n ?cmp ?hval (second_hash ?hval ?n) ?hval fd st = scan ?cmp ?hval ?rest fd st" for fd
    using probe_scan [OF chain_dh [OF assms], of 0 ?n ?cmp k fd] n(1) by simp
  have free: "?cmp ?hval = Some None" if "node st ?hval = Some nd" "used nd = USED_FREE" for nd
    using that hval by (simp add: compare_and_overwrite_entry_def USED_FREE_def)
  show ?thesis
  proof (cases "node st ?hval")
    case None
    then show ?thesis by (simp add: hsearch_r_def chain_start [OF assms] Let_def)
  next
    case (Some nd)
    show ?thesis
    proof (cases "used nd = USED_FREE")
      case True
      with Some free [OF Some True] hval show ?thesis
        by (simp add: hsearch_r_def chain_start [OF assms] Let_def USED_FREE_def USED_DELETED_def)
    next
      case False
      with Some show ?thesis
        by (simp add: hsearch_r_def chain_start [OF assms] Let_def probe split: option.splits)
    qed
  qed
qed

subsection \<open>The invariant of the table and the map it represents\<close>

text \<open>Slot \<open>i\<close> holds the live entry \<open>k\<close> with value \<open>d\<close>.\<close>

definition slot :: "env_entry_node list \<Rightarrow> nat \<Rightarrow> string \<Rightarrow> string \<Rightarrow> bool" where
  "slot tab i k d \<longleftrightarrow> i < length tab \<and> 0 < used (tab ! i) \<and>
     key (entry (tab ! i)) = Some k \<and> data (entry (tab ! i)) = Some d"

definition wf_tab :: "nat \<Rightarrow> env_entry_node list \<Rightarrow> bool" where
  "wf_tab n tab \<longleftrightarrow> prime_size n \<and> length tab = n + 1 \<and> used (tab ! 0) = USED_FREE \<and>
     (\<forall>i<length tab. used (tab ! i) = USED_FREE \<or> used (tab ! i) = USED_DELETED \<or>
        (\<exists>k d. slot tab i k d \<and> no_nul k \<and> no_nul d \<and> used (tab ! i) = int (first_hash k n))) \<and>
     (\<forall>i k d. slot tab i k d \<longrightarrow>
        (\<exists>xs ys. chain k n = xs @ i # ys \<and> (\<forall>x\<in>set xs. used (tab ! x) \<noteq> USED_FREE))) \<and>
     (\<forall>i j k d d'. slot tab i k d \<longrightarrow> slot tab j k d' \<longrightarrow> i = j)"

definition live :: "env_entry_node \<Rightarrow> bool" where
  "live nd \<longleftrightarrow> 0 < used nd"

definition wf_htab :: "hstate \<Rightarrow> bool" where
  "wf_htab st \<longleftrightarrow> (case table st of None \<Rightarrow> False | Some tab \<Rightarrow>
     wf_tab (ht_size st) tab \<and> ht_size st < 2 ^ 32 \<and> unat (filled st) = length (filter live tab))"

text \<open>The environment that a table represents.\<close>

definition env_of :: "hstate \<Rightarrow> string \<rightharpoonup> string" where
  "env_of st = map_of (map (\<lambda>nd. (the (key (entry nd)), the (data (entry nd))))
     (filter live (case table st of None \<Rightarrow> [] | Some tab \<Rightarrow> tab)))"

lemma wf_tabD:
  assumes "wf_tab n tab"
  shows "prime_size n" "length tab = n + 1" "used (tab ! 0) = 0"
    and "\<And>i. i < length tab \<Longrightarrow> used (tab ! i) = 0 \<or> used (tab ! i) = -1 \<or>
        (\<exists>k d. slot tab i k d \<and> no_nul k \<and> no_nul d \<and> used (tab ! i) = int (first_hash k n))"
    and "\<And>i k d. slot tab i k d \<Longrightarrow>
        \<exists>xs ys. chain k n = xs @ i # ys \<and> (\<forall>x\<in>set xs. used (tab ! x) \<noteq> 0)"
    and "\<And>i j k d d'. slot tab i k d \<Longrightarrow> slot tab j k d' \<Longrightarrow> i = j"
  using assms unfolding wf_tab_def USED_FREE_def USED_DELETED_def by blast+

lemma wf_tab_live:
  assumes "wf_tab n tab" "i < length tab" "0 < used (tab ! i)"
  obtains k d where "slot tab i k d" "no_nul k" "no_nul d" "used (tab ! i) = int (first_hash k n)"
  using wf_tabD(4) [OF assms(1,2)] assms(3) by auto

lemma slot_hash:
  assumes "wf_tab n tab" "slot tab i k d"
  shows "used (tab ! i) = int (first_hash k n)" "no_nul k" "no_nul d"
  using assms wf_tab_live [of n tab i] unfolding slot_def by (metis option.inject)+

lemma live_keys_distinct:
  assumes "wf_tab n tab"
  shows "distinct (map (\<lambda>nd. the (key (entry nd))) (filter live tab))"
proof -
  have "inj_on (\<lambda>i. the (key (entry (tab ! i)))) {i. i < length tab \<and> live (tab ! i)}"
  proof (rule inj_onI, clarsimp)
    fix i j
    assume "i < length tab" "live (tab ! i)" "j < length tab" "live (tab ! j)"
      and eq: "the (key (entry (tab ! i))) = the (key (entry (tab ! j)))"
    then obtain k d k' d' where "slot tab i k d" "slot tab j k' d'"
      using wf_tab_live [OF assms] unfolding live_def by metis
    with eq show "i = j" using wf_tabD(6) [OF assms] by (simp add: slot_def)
  qed
  moreover have "filter live tab = map (nth tab) (filter (\<lambda>i. live (tab ! i)) [0..<length tab])"
    by (simp flip: filter_map [unfolded comp_def] add: map_nth)
  ultimately show ?thesis
    by (simp add: distinct_map comp_def inj_on_def)
qed

lemma env_of_Some:
  assumes "table st = Some tab" "wf_tab n tab"
  shows "env_of st k = Some d \<longleftrightarrow> (\<exists>i. slot tab i k d)"
proof -
  let ?f = "\<lambda>nd. (the (key (entry nd)), the (data (entry nd)))"
  have "distinct (map (\<lambda>nd. the (key (entry nd))) (filter live tab))"
    using assms(2) by (rule live_keys_distinct)
  then have "distinct (map fst (map ?f (filter live tab)))"
    by (simp add: comp_def)
  then have "env_of st k = Some d \<longleftrightarrow> (k, d) \<in> set (map ?f (filter live tab))"
    unfolding env_of_def assms(1) by (simp only: option.case) (rule map_of_eq_Some_iff)
  also have "\<dots> \<longleftrightarrow> (\<exists>i. slot tab i k d)"
  proof
    assume "(k, d) \<in> set (map ?f (filter live tab))"
    then obtain nd where nd: "nd \<in> set tab" "live nd" "(k, d) = ?f nd" by auto
    then obtain i where i: "i < length tab" "tab ! i = nd" by (auto simp: in_set_conv_nth)
    with nd(2) have "0 < used (tab ! i)" by (simp add: live_def)
    then obtain k' d' where sl: "slot tab i k' d'"
      by (rule wf_tab_live [OF assms(2) i(1)])
    with nd(3) i(2) have "k = k'" "d = d'" by (simp_all add: slot_def)
    with sl show "\<exists>i. slot tab i k d" by blast
  next
    assume "\<exists>i. slot tab i k d"
    then show "(k, d) \<in> set (map ?f (filter live tab))"
      unfolding slot_def live_def by (force simp: in_set_conv_nth)
  qed
  finally show ?thesis .
qed


lemma env_of_None:
  assumes "table st = Some tab" "wf_tab n tab"
  shows "env_of st k = None \<longleftrightarrow> (\<forall>i d. \<not> slot tab i k d)"
proof -
  have "(\<exists>d. env_of st k = Some d) \<longleftrightarrow> (\<exists>d i. slot tab i k d)"
    by (simp only: env_of_Some [OF assms])
  then show ?thesis by (cases "env_of st k") auto
qed

lemma node_Some: "table st = Some tab \<Longrightarrow> i < length tab \<Longrightarrow> node st i = Some (tab ! i)"
  by (simp add: node_def)

lemma compare_miss:
  assumes "table st = Some tab" "wf_tab n tab" "i < length tab" "no_nul k" "\<And>d. \<not> slot tab i k d"
  shows "compare_and_overwrite_entry h k v action flag (first_hash k n) i st = Some None"
proof (cases "used (tab ! i) = int (first_hash k n)")
  case True
  have "1 < n" using wf_tabD(1) [OF assms(2)] by (simp add: prime_size_def)
  then have "0 < used (tab ! i)" using True first_hash_range [of n k] by simp
  then obtain k' d where kd: "slot tab i k' d" "no_nul k'"
    by (rule wf_tab_live [OF assms(2,3)])
  then have "k \<noteq> k'" using assms(5) by blast
  then have "strcmp k k' \<noteq> 0" using strcmp_0 [OF assms(4) kd(2)] by simp
  with kd True show ?thesis
    by (simp add: compare_and_overwrite_entry_def node_Some [OF assms(1,3)] slot_def)
next
  case False
  then show ?thesis
    by (simp add: compare_and_overwrite_entry_def node_Some [OF assms(1,3)])
qed

lemma scan_found:
  assumes "table st = Some tab" "\<forall>x\<in>set xs. x < length tab \<and> used (tab ! x) \<noteq> 0 \<and> compare x = Some None"
    and "i < length tab" "compare i = Some (Some ret)"
  shows "scan compare hval (xs @ i # ys) fd st = Some (Inl ret)"
  using assms(2)
proof (induction xs arbitrary: fd)
  case Nil
  then show ?case using assms by (simp add: node_Some Let_def)
next
  case (Cons x xs)
  then show ?case using assms(1) by (simp add: node_Some Let_def USED_FREE_def)
qed

text \<open>
  Without a match the scan selects the first slot of the chain that is free or deleted, and no free
  slot comes before it, or it has seen live slots only.
\<close>

definition selects :: "env_entry_node list \<Rightarrow> nat list \<Rightarrow> nat \<Rightarrow> bool" where
  "selects tab is s \<longleftrightarrow> (\<exists>xs ys. is = xs @ s # ys \<and> used (tab ! s) \<in> {0, -1} \<and>
     (\<forall>x\<in>set xs. used (tab ! x) \<noteq> 0))"

lemma selects_here: "used (tab ! s) \<in> {0, -1} \<Longrightarrow> selects tab (s # is) s"
  unfolding selects_def by (rule exI [of _ "[]"]) simp

lemma selects_Cons: "selects tab is s \<Longrightarrow> used (tab ! x) \<noteq> 0 \<Longrightarrow> selects tab (x # is) s"
  unfolding selects_def by (metis append_Cons set_ConsD)

lemma scan_missed_deleted:
  assumes "table st = Some tab" "\<forall>x\<in>set is. x < length tab \<and> compare x = Some None" "fd \<noteq> 0"
  shows "\<exists>idx. scan compare hval is fd st = Some (Inr (idx, fd))"
  using assms(2)
proof (induction "is")
  case (Cons x "is")
  then show ?case using assms(1,3) by (auto simp: node_Some Let_def)
qed simp

lemma scan_missed:
  assumes "table st = Some tab" "\<forall>x\<in>set is. 0 < x \<and> x < length tab \<and> compare x = Some None"
  shows "\<exists>idx fd. scan compare hval is 0 st = Some (Inr (idx, fd)) \<and>
     (selects tab is (if fd \<noteq> 0 then fd else idx) \<or> (\<forall>x\<in>set is. used (tab ! x) \<notin> {0, -1}))"
  using assms(2)
proof (induction "is")
  case (Cons x "is")
  have x: "x \<noteq> 0" "node st x = Some (tab ! x)" "compare x = Some None"
    using Cons.prems assms(1) by (auto simp: node_Some)
  consider "used (tab ! x) = 0" | "used (tab ! x) = -1" | "used (tab ! x) \<notin> {0, -1}" by blast
  then show ?case
  proof cases
    case 1
    then have "scan compare hval (x # is) 0 st = Some (Inr (x, 0))"
      using x by (simp add: Let_def USED_FREE_def USED_DELETED_def)
    moreover have "selects tab (x # is) (if (0::nat) \<noteq> 0 then 0 else x)"
      using 1 by (simp add: selects_here)
    ultimately show ?thesis by blast
  next
    case 2
    have "\<exists>idx. scan compare hval is x st = Some (Inr (idx, x))"
      using Cons.prems by (intro scan_missed_deleted [OF assms(1)] x(1)) auto
    then obtain idx where "scan compare hval (x # is) 0 st = Some (Inr (idx, x))"
      using x 2 by (auto simp: Let_def USED_FREE_def USED_DELETED_def)
    moreover have "selects tab (x # is) (if x \<noteq> 0 then x else idx)"
      using 2 x(1) by (simp add: selects_here)
    ultimately show ?thesis by blast
  next
    case 3
    then have eq: "scan compare hval (x # is) 0 st = scan compare hval is 0 st"
      using x by (simp add: Let_def USED_FREE_def USED_DELETED_def)
    obtain idx fd where IH: "scan compare hval is 0 st = Some (Inr (idx, fd))"
      "selects tab is (if fd \<noteq> 0 then fd else idx) \<or> (\<forall>x\<in>set is. used (tab ! x) \<notin> {0, -1})"
      using Cons.IH Cons.prems by auto
    have "selects tab (x # is) (if fd \<noteq> 0 then fd else idx) \<or> (\<forall>x\<in>set (x # is). used (tab ! x) \<notin> {0, -1})"
      using IH(2) 3 selects_Cons by (metis insert_iff set_ConsD)
    with eq IH(1) show ?thesis by metis
  qed
qed simp


subsection \<open>Changing one slot\<close>

text \<open>A slot that the search for \<open>k\<close> reaches without passing a free slot.\<close>

definition reachable :: "env_entry_node list \<Rightarrow> string \<Rightarrow> nat \<Rightarrow> nat \<Rightarrow> bool" where
  "reachable tab k n s \<longleftrightarrow> (\<exists>xs ys. chain k n = xs @ s # ys \<and> (\<forall>x\<in>set xs. used (tab ! x) \<noteq> 0))"

definition good_node :: "nat \<Rightarrow> string \<Rightarrow> string \<Rightarrow> env_entry_node \<Rightarrow> bool" where
  "good_node n k d nd \<longleftrightarrow> used nd = int (first_hash k n) \<and> key (entry nd) = Some k \<and>
     data (entry nd) = Some d \<and> no_nul k \<and> no_nul d"

lemma wf_tab_alt:
  "wf_tab n tab \<longleftrightarrow> prime_size n \<and> length tab = n + 1 \<and> used (tab ! 0) = 0 \<and>
     (\<forall>i<length tab. used (tab ! i) = 0 \<or> used (tab ! i) = -1 \<or> (\<exists>k d. good_node n k d (tab ! i))) \<and>
     (\<forall>i k d. slot tab i k d \<longrightarrow> reachable tab k n i) \<and>
     (\<forall>i j k d d'. slot tab i k d \<longrightarrow> slot tab j k d' \<longrightarrow> i = j)" (is "_ \<longleftrightarrow> ?rhs")
proof -
  have "(\<exists>k d. slot tab i k d \<and> no_nul k \<and> no_nul d \<and> used (tab ! i) = int (first_hash k n)) \<longleftrightarrow>
      (\<exists>k d. good_node n k d (tab ! i))" if "i < length tab" "prime_size n" for i
  proof -
    have "0 < first_hash k n" for k
      using first_hash_range [of n k] that(2) by (simp add: prime_size_def)
    with that(1) show ?thesis
      by (auto simp: slot_def good_node_def)
  qed
  then show ?thesis
    unfolding wf_tab_def USED_FREE_def USED_DELETED_def reachable_def by blast
qed

lemma reachable_range:
  assumes "prime_size n" "reachable tab k n s"
  shows "0 < s \<and> s \<le> n"
proof -
  have "s \<in> set (chain k n)" using assms(2) by (auto simp: reachable_def)
  then show ?thesis using set_chain [OF assms(1)] by simp
qed

lemma reachable_update:
  "used nd \<noteq> 0 \<Longrightarrow> reachable tab k n i \<Longrightarrow> s < length tab \<Longrightarrow> reachable (tab[s := nd]) k n i"
  unfolding reachable_def by (metis nth_list_update)

lemma good_node_slot:
  assumes "prime_size n" "good_node n k d nd" "s < length tab"
  shows "slot (tab[s := nd]) i k' d' \<longleftrightarrow> (if i = s then k' = k \<and> d' = d else slot tab i k' d')"
  using assms first_hash_range [of n k] by (auto simp: slot_def good_node_def prime_size_def)

lemma deleted_slot:
  assumes "used nd = -1" "s < length tab"
  shows "slot (tab[s := nd]) i k d \<longleftrightarrow> i \<noteq> s \<and> slot tab i k d"
  using assms by (cases "i = s") (auto simp: slot_def)

lemma wf_tab_set:
  assumes wf: "wf_tab n tab" and good: "good_node n k d nd" and reach: "reachable tab k n s"
    and fresh: "\<And>i d'. slot tab i k d' \<Longrightarrow> i = s"
  shows "wf_tab n (tab[s := nd])"
proof -
  have n: "prime_size n" "length tab = n + 1" using wf by (simp_all add: wf_tab_alt)
  have s: "0 < s" "s < length tab" using reachable_range [OF n(1) reach] n(2) by auto
  have used: "used nd \<noteq> 0"
    using good first_hash_range [of n k] n(1) by (simp add: good_node_def prime_size_def)
  note sl = good_node_slot [OF n(1) good s(2)]
  have "reachable (tab[s := nd]) k' n i" if "slot (tab[s := nd]) i k' d'" for i k' d'
    using that sl reach wf reachable_update [OF used _ s(2)] by (metis wf_tab_alt)
  moreover have "i = j" if "slot (tab[s := nd]) i k' d'" "slot (tab[s := nd]) j k' d''" for i j k' d' d''
    using that sl fresh wf by (metis wf_tab_alt)
  moreover have "used (tab[s := nd] ! i) = 0 \<or> used (tab[s := nd] ! i) = -1 \<or> (\<exists>k d. good_node n k d (tab[s := nd] ! i))"
    if "i < length tab" for i
    using that wf good unfolding wf_tab_alt by (cases "i = s") auto
  ultimately show ?thesis
    using wf s unfolding wf_tab_alt by simp
qed

lemma wf_tab_delete:
  assumes wf: "wf_tab n tab" and del: "used nd = -1" and s: "0 < s" "s < length tab"
  shows "wf_tab n (tab[s := nd])"
proof -
  note sl = deleted_slot [OF del s(2)]
  have used: "used nd \<noteq> 0" using del by simp
  have "reachable (tab[s := nd]) k' n i" if "slot (tab[s := nd]) i k' d'" for i k' d'
    using that sl wf reachable_update [OF used _ s(2)] by (metis wf_tab_alt)
  moreover have "i = j" if "slot (tab[s := nd]) i k' d'" "slot (tab[s := nd]) j k' d''" for i j k' d' d''
    using that sl wf by (metis wf_tab_alt)
  moreover have "used (tab[s := nd] ! i) = 0 \<or> used (tab[s := nd] ! i) = -1 \<or> (\<exists>k d. good_node n k d (tab[s := nd] ! i))"
    if "i < length tab" for i
    using that wf del unfolding wf_tab_alt by (cases "i = s") auto
  ultimately show ?thesis
    using wf s unfolding wf_tab_alt by simp
qed

lemma length_filter_update:
  "i < length xs \<Longrightarrow> length (filter P (xs[i := x])) + (if P (xs ! i) then 1 else 0) =
     length (filter P xs) + (if P x then 1 else 0)"
proof (induction xs arbitrary: i)
  case (Cons y xs)
  then show ?case by (cases i) auto
qed simp


subsection \<open>The operations on a well-formed table\<close>

lemma wf_htabE:
  assumes "wf_htab st"
  obtains tab where "table st = Some tab" "wf_tab (ht_size st) tab" "ht_size st < 2 ^ 32"
    "unat (filled st) = length (filter live tab)"
  using assms unfolding wf_htab_def by (cases "table st") auto

lemma wf_htabI:
  "table st = Some tab \<Longrightarrow> wf_tab (ht_size st) tab \<Longrightarrow> ht_size st < 2 ^ 32 \<Longrightarrow>
   unat (filled st) = length (filter live tab) \<Longrightarrow> wf_htab st"
  by (simp add: wf_htab_def)

lemma set_node_simps [simp]:
  "table (set_node i nd st) = map_option (\<lambda>tab. tab[i := nd]) (table st)"
  "ht_size (set_node i nd st) = ht_size st"
  "filled (set_node i nd st) = filled st"
  "change_ok (set_node i nd st) = change_ok st"
  "errno (set_node i nd st) = errno st"
  "allocs (set_node i nd st) = allocs st"
  by (simp_all add: set_node_def)

lemma wf_htab_errno [simp]: "wf_htab (st\<lparr>errno := e\<rparr>) = wf_htab st"
  by (cases "table st") (simp_all add: wf_htab_def)

lemma env_of_errno [simp]: "env_of (st\<lparr>errno := e\<rparr>) = env_of st"
  by (simp add: env_of_def)

lemma hsearch_hit:
  assumes st: "table st = Some tab" and wf: "wf_tab (ht_size st) tab" and sl: "slot tab i k d"
    and cmp: "compare_and_overwrite_entry h k v action flag (first_hash k (ht_size st)) i st = Some (Some ret)"
  shows "hsearch_r h k v action flag st = Some ret"
proof -
  let ?n = "ht_size st"
  let ?cmp = "\<lambda>idx. compare_and_overwrite_entry h k v action flag (first_hash k ?n) idx st"
  have n: "prime_size ?n" "length tab = ?n + 1" using wf_tabD(1,2) [OF wf] .
  obtain xs ys where ch: "chain k ?n = xs @ i # ys" "\<forall>x\<in>set xs. used (tab ! x) \<noteq> 0"
    using wf_tabD(5) [OF wf sl] by blast
  have "x < length tab \<and> used (tab ! x) \<noteq> 0 \<and> ?cmp x = Some None" if x: "x \<in> set xs" for x
  proof -
    have "x \<in> {1..?n}" using x ch(1) set_chain [OF n(1), of k] by auto
    then have l: "x < length tab" using n(2) by simp
    have "x \<noteq> i" using x ch(1) distinct_chain [OF n(1), of k] by auto
    then have "\<not> slot tab x k d'" for d' using wf_tabD(6) [OF wf _ sl] by blast
    with l show ?thesis
      using compare_miss [OF st wf l slot_hash(2) [OF wf sl]] ch(2) x by blast
  qed
  moreover have "i < length tab" using sl by (simp add: slot_def)
  ultimately have "scan ?cmp (first_hash k ?n) (chain k ?n) 0 st = Some (Inl ret)"
    unfolding ch(1) using cmp by (intro scan_found [OF st]) auto
  then show ?thesis
    by (simp add: hsearch_scan [OF n(1)])
qed

lemma hsearch_miss:
  assumes st: "table st = Some tab" and wf: "wf_tab (ht_size st) tab" and k: "no_nul k"
    and miss: "\<And>i d. \<not> slot tab i k d" and filled: "unat (filled st) = length (filter live tab)"
  shows "hsearch_r h k v ENV_FIND flag st = Some (0, None, st\<lparr>errno := Some ESRCH\<rparr>)"
    and "unat (filled st) = ht_size st \<Longrightarrow>
       hsearch_r h k v ENV_ENTER flag st = Some (0, None, st\<lparr>errno := Some ENOMEM\<rparr>)"
    and "unat (filled st) \<noteq> ht_size st \<Longrightarrow> \<exists>s. selects tab (chain k (ht_size st)) s \<and>
       hsearch_r h k v ENV_ENTER flag st = enter_new h k v flag (first_hash k (ht_size st)) s st"
proof -
  let ?n = "ht_size st"
  let ?cmp = "\<lambda>action idx. compare_and_overwrite_entry h k v action flag (first_hash k ?n) idx st"
  have n: "prime_size ?n" "length tab = ?n + 1" using wf_tabD(1,2) [OF wf] .
  have "\<forall>x\<in>set (chain k ?n). 0 < x \<and> x < length tab \<and> ?cmp action x = Some None" for action
  proof
    fix x assume "x \<in> set (chain k ?n)"
    then have "0 < x" "x < length tab" using set_chain [OF n(1), of k] n(2) by auto
    then show "0 < x \<and> x < length tab \<and> ?cmp action x = Some None"
      using compare_miss [OF st wf _ k] miss by blast
  qed
  note missed = scan_missed [OF st this, of _ "first_hash k ?n"]
  obtain idx fd where "scan (?cmp ENV_FIND) (first_hash k ?n) (chain k ?n) 0 st = Some (Inr (idx, fd))"
    using missed [of ENV_FIND] by blast
  then show "hsearch_r h k v ENV_FIND flag st = Some (0, None, st\<lparr>errno := Some ESRCH\<rparr>)"
    by (simp add: hsearch_scan [OF n(1)])
  obtain idx fd where sc: "scan (?cmp ENV_ENTER) (first_hash k ?n) (chain k ?n) 0 st = Some (Inr (idx, fd))"
    and sel: "selects tab (chain k ?n) (if fd \<noteq> 0 then fd else idx) \<or>
      (\<forall>x\<in>set (chain k ?n). used (tab ! x) \<notin> {0, -1})"
    using missed [of ENV_ENTER] by blast
  show "hsearch_r h k v ENV_ENTER flag st = Some (0, None, st\<lparr>errno := Some ENOMEM\<rparr>)"
    if "unat (filled st) = ?n"
    using sc that by (simp add: hsearch_scan [OF n(1)])
  assume room: "unat (filled st) \<noteq> ?n"
  have "\<not> (\<forall>x\<in>set (chain k ?n). used (tab ! x) \<notin> {0, -1})"
  proof
    assume all: "\<forall>x\<in>set (chain k ?n). used (tab ! x) \<notin> {0, -1}"
    obtain nd tab' where tab: "tab = nd # tab'" "length tab' = ?n" using n(2) by (cases tab) auto
    have "live x" if x: "x \<in> set tab'" for x
    proof -
      obtain i where i: "i < length tab'" "x = tab' ! i" using x by (auto simp: in_set_conv_nth)
      then have "Suc i \<in> set (chain k ?n)" using tab set_chain [OF n(1), of k] by simp
      then have "used (tab ! Suc i) \<notin> {0, -1}" using all by blast
      then show ?thesis using wf_tabD(4) [OF wf, of "Suc i"] i tab by (auto simp: live_def slot_def)
    qed
    then have "filter live tab' = tab'" by simp
    moreover have "\<not> live nd" using wf_tabD(3) [OF wf] tab(1) by (simp add: live_def)
    ultimately show False using room filled tab by simp
  qed
  with sel have "selects tab (chain k ?n) (if fd \<noteq> 0 then fd else idx)" by blast
  moreover have "hsearch_r h k v ENV_ENTER flag st =
      enter_new h k v flag (first_hash k ?n) (if fd \<noteq> 0 then fd else idx) st"
    using sc room by (simp add: hsearch_scan [OF n(1)])
  ultimately show "\<exists>s. selects tab (chain k ?n) s \<and>
       hsearch_r h k v ENV_ENTER flag st = enter_new h k v flag (first_hash k ?n) s st"
    by blast
qed

lemma selects_reachable:
  assumes "selects tab (chain k n) s"
  shows "reachable tab k n s" "used (tab ! s) \<in> {0, -1}"
  using assms unfolding selects_def reachable_def by blast+

lemma slot_pos:
  assumes "wf_tab n tab" "slot tab i k d"
  shows "0 < i"
  using assms(2) wf_tabD(3) [OF assms(1)] by (cases i) (auto simp: slot_def)

text \<open>Lookup: the table returns what the environment holds.\<close>

lemma hsearch_find:
  assumes "wf_htab st" "no_nul k"
  shows "case env_of st k of
     None \<Rightarrow> hsearch_r h k v ENV_FIND flag st = Some (0, None, st\<lparr>errno := Some ESRCH\<rparr>)
   | Some d \<Rightarrow> \<exists>i nd. hsearch_r h k v ENV_FIND flag st = Some (i, Some i, st) \<and> 0 < i \<and>
       node st i = Some nd \<and> live nd \<and> key (entry nd) = Some k \<and> data (entry nd) = Some d"
proof -
  obtain tab where st: "table st = Some tab" and wf: "wf_tab (ht_size st) tab"
    and filled: "unat (filled st) = length (filter live tab)"
    using assms(1) by (rule wf_htabE)
  show ?thesis
  proof (cases "env_of st k")
    case None
    then have "\<not> slot tab i k d" for i d using env_of_None [OF st wf] by blast
    with None show ?thesis using hsearch_miss(1) [OF st wf assms(2) _ filled] by simp
  next
    case (Some d)
    then obtain i where sl: "slot tab i k d" using env_of_Some [OF st wf] by blast
    have i: "i < length tab" using sl by (simp add: slot_def)
    have "0 < i" using wf sl by (rule slot_pos)
    moreover have nd: "node st i = Some (tab ! i)" using st i by (rule node_Some)
    moreover have "compare_and_overwrite_entry h k v ENV_FIND flag (first_hash k (ht_size st)) i st =
        Some (Some (i, Some i, st))"
      using sl slot_hash(1,2) [OF wf sl] strcmp_0 [of k k]
      by (simp add: compare_and_overwrite_entry_def nd slot_def)
    then have "hsearch_r h k v ENV_FIND flag st = Some (i, Some i, st)"
      by (rule hsearch_hit [OF st wf sl])
    ultimately show ?thesis
      using Some sl by (simp add: slot_def live_def)
  qed
qed


lemma option_eqI: "(\<And>y. x = Some y \<longleftrightarrow> z = Some y) \<Longrightarrow> x = z"
  by (cases x; cases z) auto

text \<open>What a change of one slot does to the environment.\<close>

lemma htab_set:
  assumes st: "table st = Some tab" and wf: "wf_tab (ht_size st) tab" and n: "ht_size st < 2 ^ 32"
    and st': "table st' = Some (tab[s := nd])" "ht_size st' = ht_size st"
    and good: "good_node (ht_size st) k d nd" and reach: "reachable tab k (ht_size st) s"
    and fresh: "\<And>i d'. slot tab i k d' \<Longrightarrow> i = s"
    and only: "\<And>k' d'. slot tab s k' d' \<Longrightarrow> k' = k"
    and filled: "unat (filled st') + (if live (tab ! s) then 1 else 0) = length (filter live tab) + 1"
  shows "wf_htab st' \<and> env_of st' = (env_of st)(k \<mapsto> d)"
proof
  let ?n = "ht_size st"
  have len: "prime_size ?n" "length tab = ?n + 1" using wf_tabD(1,2) [OF wf] .
  have s: "0 < s" "s < length tab" using reachable_range [OF len(1) reach] len(2) by auto
  have live: "live nd"
    using good first_hash_range [of ?n k] len(1) by (simp add: live_def good_node_def prime_size_def)
  have wf': "wf_tab ?n (tab[s := nd])" using wf good reach fresh by (rule wf_tab_set)
  have "unat (filled st') = length (filter live (tab[s := nd]))"
    using filled live length_filter_update [OF s(2), of live nd] by (simp split: if_splits)
  then show "wf_htab st'"
    using wf_htabI [OF st'(1)] wf' st'(2) n by simp
  have sl: "slot (tab[s := nd]) i k' d' \<longleftrightarrow> (if k' = k then i = s \<and> d' = d else slot tab i k' d')" for i k' d'
  proof (cases "i = s")
    case True
    then show ?thesis using only [of k' d'] by (simp add: good_node_slot [OF len(1) good s(2)]) blast
  next
    case False
    then show ?thesis using fresh [of i d'] by (simp add: good_node_slot [OF len(1) good s(2)]) blast
  qed
  show "env_of st' = (env_of st)(k \<mapsto> d)"
  proof
    fix k'
    have "env_of st' k' = Some d' \<longleftrightarrow> ((env_of st)(k \<mapsto> d)) k' = Some d'" for d'
      unfolding env_of_Some [OF st'(1) wf'] sl by (cases "k' = k") (auto simp: env_of_Some [OF st wf])
    then show "env_of st' k' = ((env_of st)(k \<mapsto> d)) k'"
      by (rule option_eqI)
  qed
qed

lemma htab_delete:
  assumes st: "table st = Some tab" and wf: "wf_tab (ht_size st) tab" and n: "ht_size st < 2 ^ 32"
    and st': "table st' = Some (tab[s := nd])" "ht_size st' = ht_size st"
    and del: "used nd = -1" and s: "0 < s" "s < length tab"
    and filled: "unat (filled st') + (if live (tab ! s) then 1 else 0) = length (filter live tab)"
  shows "wf_htab st'"
    and "slot tab s k d \<Longrightarrow> env_of st' = (env_of st)(k := None)"
    and "\<not> live (tab ! s) \<Longrightarrow> env_of st' = env_of st"
proof -
  have wf': "wf_tab (ht_size st) (tab[s := nd])" using wf del s by (rule wf_tab_delete)
  have "\<not> live nd" using del by (simp add: live_def)
  then have "unat (filled st') = length (filter live (tab[s := nd]))"
    using filled length_filter_update [OF s(2), of live nd] by (simp split: if_splits)
  then show "wf_htab st'"
    using wf_htabI [OF st'(1)] wf' st'(2) n by simp
  note env = env_of_Some [OF st wf] env_of_Some [OF st'(1) wf'] deleted_slot [OF del s(2)]
  show "env_of st' = (env_of st)(k := None)" if sl: "slot tab s k d"
  proof
    fix k'
    have "env_of st' k' = Some d' \<longleftrightarrow> ((env_of st)(k := None)) k' = Some d'" for d'
    proof (cases "k' = k")
      case True
      then have "\<not> (i \<noteq> s \<and> slot tab i k' d')" for i
        using wf_tabD(6) [OF wf sl] by blast
      with True show ?thesis by (simp add: env)
    next
      case False
      then have "\<not> slot tab s k' d'" using sl by (simp add: slot_def)
      then have "(i \<noteq> s \<and> slot tab i k' d') \<longleftrightarrow> slot tab i k' d'" for i by blast
      with False show ?thesis by (simp add: env)
    qed
    then show "env_of st' k' = ((env_of st)(k := None)) k'" by (rule option_eqI)
  qed
  show "env_of st' = env_of st" if "\<not> live (tab ! s)"
  proof
    fix k'
    have "env_of st' k' = Some d' \<longleftrightarrow> env_of st k' = Some d'" for d'
    proof -
      have "\<not> slot tab s k' d'" using that by (simp add: slot_def live_def)
      then have "(i \<noteq> s \<and> slot tab i k' d') \<longleftrightarrow> slot tab i k' d'" for i by blast
      then show ?thesis by (simp add: env)
    qed
    then show "env_of st' k' = env_of st k'" by (rule option_eqI)
  qed
qed


text \<open>
  Insertion: with memory available it either stores the value, or the table is full or a hook
  rejects it, and then the environment keeps its old content.
\<close>

lemma strdup_ok: "allocs st = [] \<Longrightarrow> strdup_st s st = (Some s, st)"
  by (simp add: strdup_st_def alloc_def)

lemma overwrite_hit:
  assumes st: "table st = Some tab" and wf: "wf_tab (ht_size st) tab" and n: "ht_size st < 2 ^ 32"
    and filled: "unat (filled st) = length (filter live tab)" and sl: "slot tab i k d0"
    and d: "no_nul d" and mem: "allocs st = []"
  shows "\<exists>ret rv st'. hsearch_r h k (Some d) ENV_ENTER flag st = Some (ret, rv, st') \<and> wf_htab st' \<and>
     allocs st' = [] \<and> change_ok st' = change_ok st \<and> ht_size st' = ht_size st \<and>
     (if denies st (entry (tab ! i)) (Some d) env_op_overwrite flag \<or> rejects h (entry (tab ! i)) k (Some d) env_op_overwrite flag
      then ret = 0 \<and> rv = None \<and> env_of st' = env_of st
      else 0 < ret \<and> rv = Some i \<and> env_of st' = (env_of st)(k \<mapsto> d))"
proof -
  let ?n = "ht_size st" and ?nd = "tab ! i"
  let ?cmp = "compare_and_overwrite_entry h k (Some d) ENV_ENTER flag (first_hash k ?n) i st"
  have i: "i < length tab" using sl by (simp add: slot_def)
  note nd = node_Some [OF st i]
  have k: "used ?nd = int (first_hash k ?n)" "no_nul k" using slot_hash(1,2) [OF wf sl] .
  have key: "key (entry ?nd) = Some k" using sl by (simp add: slot_def)
  have eq: "strcmp k k = 0" using strcmp_0 [OF k(2) k(2)] by simp
  have wfst: "wf_htab st" using wf_htabI [OF st wf n filled] .
  show ?thesis
  proof (cases "denies st (entry ?nd) (Some d) env_op_overwrite flag")
    case True
    then have "?cmp = Some (Some (0, None, st\<lparr>errno := Some EPERM\<rparr>))"
      by (simp add: compare_and_overwrite_entry_def nd k(1) key eq)
    then show ?thesis using hsearch_hit [OF st wf sl] True wfst mem by simp
  next
    case allowed: False
    show ?thesis
    proof (cases "rejects h (entry ?nd) k (Some d) env_op_overwrite flag")
      case True
      then have "?cmp = Some (Some (0, None, st\<lparr>errno := Some EINVAL\<rparr>))"
        using allowed by (simp add: compare_and_overwrite_entry_def nd k(1) key eq)
      then show ?thesis using hsearch_hit [OF st wf sl] True wfst mem by simp
    next
      case False
      let ?new = "?nd\<lparr>entry := (entry ?nd)\<lparr>data := Some d\<rparr>\<rparr>"
      let ?st = "set_node i ?new st"
      have "?cmp = Some (Some (i, Some i, ?st))"
        using allowed False by (simp add: compare_and_overwrite_entry_def nd k(1) key eq strdup_ok [OF mem])
      then have "hsearch_r h k (Some d) ENV_ENTER flag st = Some (i, Some i, ?st)"
        by (rule hsearch_hit [OF st wf sl])
      moreover have "wf_htab ?st \<and> env_of ?st = (env_of st)(k \<mapsto> d)"
      proof (rule htab_set [OF st wf n])
        show "table ?st = Some (tab[i := ?new])" using st by simp
        show "good_node ?n k d ?new" using k key d by (simp add: good_node_def)
        show "reachable tab k ?n i" using wf_tabD(5) [OF wf sl] by (simp add: reachable_def)
        show "j = i" if "slot tab j k d'" for j d' using wf_tabD(6) [OF wf that sl] .
        show "k' = k" if "slot tab i k' d'" for k' d' using that key by (simp add: slot_def)
        show "unat (filled ?st) + (if live ?nd then 1 else 0) = length (filter live tab) + 1"
          using filled sl by (simp add: live_def slot_def)
      qed simp
      ultimately show ?thesis
        using allowed False slot_pos [OF wf sl] mem by simp
    qed
  qed
qed


text \<open>The slot that \<open>enter_new\<close> fills, and its outcomes.\<close>

definition new_entry :: "env_hooks \<Rightarrow> string \<Rightarrow> string \<Rightarrow> nat \<Rightarrow> nat \<Rightarrow> hstate \<Rightarrow> env_entry_node \<Rightarrow> env_entry" where
  "new_entry h k d hval s st nd =
     (let e = (entry nd)\<lparr>key := Some k, data := Some d\<rparr>;
          st = (set_node s (nd\<lparr>used := int hval, entry := e\<rparr>) st)\<lparr>filled := filled st + 1\<rparr>;
          e = e\<lparr>callback := env_callback_init h st e\<rparr>
      in e\<lparr>flags := env_flags_init h st e\<rparr>)"

lemma new_entry_simps [simp]:
  "key (new_entry h k d hval s st nd) = Some k" "data (new_entry h k d hval s st nd) = Some d"
  by (simp_all add: new_entry_def Let_def)

lemma enter_new_eq:
  fixes h k d hval
  assumes st: "table st = Some tab" and s: "s < length tab" and mem: "allocs st = []"
  defines "e \<equiv> new_entry h k d hval s st (tab ! s)"
  defines "st' \<equiv> (set_node s ((tab ! s)\<lparr>used := int hval, entry := e\<rparr>) st)\<lparr>filled := filled st + 1\<rparr>"
  shows "enter_new h k (Some d) flag hval s st =
     (if denies st e (Some d) env_op_create flag then
        Some (0, None, (hdelete_at s st')\<lparr>errno := Some EPERM\<rparr>)
      else if rejects h e k (Some d) env_op_create flag then
        Some (0, None, (hdelete_at s st')\<lparr>errno := Some EINVAL\<rparr>)
      else Some (1, Some s, st'))"
proof -
  have two: "set_node s nd2 ((set_node s nd1 st)\<lparr>filled := w\<rparr>) = (set_node s nd2 st)\<lparr>filled := w\<rparr>" for nd1 nd2 w
    using st by (simp add: set_node_def)
  have den: "denies ((set_node s nd st)\<lparr>filled := w\<rparr>) = denies st" for nd w
    by (simp add: denies_def fun_eq_iff)
  show ?thesis
    unfolding st'_def e_def
    by (simp add: enter_new_def node_Some [OF st s] strdup_ok [OF mem] two den Let_def new_entry_def)
qed

lemma hdelete_at_simps:
  assumes "table st = Some tab" "s < length tab"
  shows "table (hdelete_at s st) =
      Some (tab[s := (tab ! s)\<lparr>used := -1, entry := (entry (tab ! s))\<lparr>callback := None, flags := 0\<rparr>\<rparr>])"
    "ht_size (hdelete_at s st) = ht_size st" "filled (hdelete_at s st) = filled st - 1"
    "allocs (hdelete_at s st) = allocs st" "change_ok (hdelete_at s st) = change_ok st"
  using assms by (simp_all add: hdelete_at_def node_Some USED_DELETED_def)


lemma live_bound:
  assumes "wf_tab n tab"
  shows "length (filter live tab) \<le> n"
proof -
  obtain nd tab' where tab: "tab = nd # tab'" "length tab' = n"
    using wf_tabD(2) [OF assms] by (cases tab) auto
  moreover have "\<not> live nd" using wf_tabD(3) [OF assms] tab(1) by (simp add: live_def)
  ultimately show ?thesis using length_filter_le [of live tab'] by simp
qed

lemma unat_add_1: "unat w < n \<Longrightarrow> n < 2 ^ 32 \<Longrightarrow> unat (w + 1 :: u32) = unat w + 1"
  by (simp add: unat_word_ariths)

lemma enter_miss:
  fixes h k d flag
  assumes st: "table st = Some tab" and wf: "wf_tab (ht_size st) tab" and n: "ht_size st < 2 ^ 32"
    and filled: "unat (filled st) = length (filter live tab)" and miss: "\<And>i d. \<not> slot tab i k d"
    and kd: "no_nul k" "no_nul d" and mem: "allocs st = []"
  shows "\<exists>ret rv st'. hsearch_r h k (Some d) ENV_ENTER flag st = Some (ret, rv, st') \<and> wf_htab st' \<and>
     allocs st' = [] \<and> change_ok st' = change_ok st \<and> ht_size st' = ht_size st \<and>
     ((ret = 0 \<and> rv = None \<and> env_of st' = env_of st \<and>
         (unat (filled st) = ht_size st \<or>
          (\<exists>e. denies st e (Some d) env_op_create flag \<or> rejects h e k (Some d) env_op_create flag))) \<or>
      (0 < ret \<and> rv \<noteq> None \<and> env_of st' = (env_of st)(k \<mapsto> d)))"
proof (cases "unat (filled st) = ht_size st")
  case True
  then have "hsearch_r h k (Some d) ENV_ENTER flag st = Some (0, None, st\<lparr>errno := Some ENOMEM\<rparr>)"
    using hsearch_miss(2) [OF st wf kd(1) miss filled] by blast
  moreover have "wf_htab st" using wf_htabI [OF st wf n filled] .
  ultimately show ?thesis using True mem by simp
next
  case False
  let ?n = "ht_size st"
  obtain s where sel: "selects tab (chain k ?n) s"
    and eq: "hsearch_r h k (Some d) ENV_ENTER flag st = enter_new h k (Some d) flag (first_hash k ?n) s st"
    using hsearch_miss(3) [OF st wf kd(1) miss filled False] by blast
  note reach = selects_reachable(1) [OF sel]
  have s: "0 < s" "s < length tab"
    using reachable_range [OF wf_tabD(1) [OF wf] reach] wf_tabD(2) [OF wf] by auto
  have dead: "\<not> live (tab ! s)" using selects_reachable(2) [OF sel] by (auto simp: live_def)
  then have noslot: "\<not> slot tab s k' d'" for k' d' by (auto simp: slot_def live_def)
  define e where "e = new_entry h k d (first_hash k ?n) s st (tab ! s)"
  define nd where "nd = (tab ! s)\<lparr>used := int (first_hash k ?n), entry := e\<rparr>"
  define st' where "st' = (set_node s nd st)\<lparr>filled := filled st + 1\<rparr>"
  have tab': "table st' = Some (tab[s := nd])" "ht_size st' = ?n" "allocs st' = []" "change_ok st' = change_ok st"
    using st mem by (simp_all add: st'_def)
  have "unat (filled st) < ?n" using False filled live_bound [OF wf] by simp
  then have fill: "unat (filled st') = unat (filled st) + 1"
    using unat_add_1 [of "filled st" ?n] n by (simp add: st'_def)
  have set: "wf_htab st' \<and> env_of st' = (env_of st)(k \<mapsto> d)"
  proof (rule htab_set [OF st wf n tab'(1,2) _ reach])
    show "good_node ?n k d nd" using kd by (simp add: good_node_def nd_def e_def)
    show "unat (filled st') + (if live (tab ! s) then 1 else 0) = length (filter live tab) + 1"
      using dead fill filled by simp
  qed (use miss noslot in blast)+
  let ?del = "hdelete_at s st'"
  have len: "s < length (tab[s := nd])" using s by simp
  note del = hdelete_at_simps [OF tab'(1) len]
  have undo: "wf_htab ?del" "env_of ?del = env_of st"
  proof -
    have d1: "table ?del = Some (tab[s := (tab[s := nd] ! s)\<lparr>used := -1, entry := (entry (tab[s := nd] ! s))\<lparr>callback := None, flags := 0\<rparr>\<rparr>])"
      using del(1) by simp
    have d2: "unat (filled ?del) + (if live (tab ! s) then 1 else 0) = length (filter live tab)"
      using del(3) dead filled by (simp add: st'_def)
    have d3: "ht_size ?del = ?n" using del(2) tab'(2) by simp
    show "wf_htab ?del" by (rule htab_delete(1) [OF st wf n d1 d3 _ s d2]) simp
    show "env_of ?del = env_of st" by (rule htab_delete(3) [OF st wf n d1 d3 _ s d2 dead]) simp
  qed
  note res = enter_new_eq [OF st s(2) mem, of h k d flag "first_hash k ?n", folded e_def, folded nd_def, folded st'_def]
  consider "denies st e (Some d) env_op_create flag"
    | "\<not> denies st e (Some d) env_op_create flag" "rejects h e k (Some d) env_op_create flag"
    | "\<not> denies st e (Some d) env_op_create flag" "\<not> rejects h e k (Some d) env_op_create flag"
    by blast
  then show ?thesis
  proof cases
    case 1
    with res eq have "hsearch_r h k (Some d) ENV_ENTER flag st = Some (0, None, ?del\<lparr>errno := Some EPERM\<rparr>)" by simp
    with 1 undo del(2,4,5) tab'(2,3,4) show ?thesis by auto
  next
    case 2
    with res eq have "hsearch_r h k (Some d) ENV_ENTER flag st = Some (0, None, ?del\<lparr>errno := Some EINVAL\<rparr>)" by simp
    with 2 undo del(2,4,5) tab'(2,3,4) show ?thesis by auto
  next
    case 3
    with res eq have "hsearch_r h k (Some d) ENV_ENTER flag st = Some (1, Some s, st')" by simp
    with set tab'(2,3,4) show ?thesis by auto
  qed
qed

end
