(* ===== verification/EnvStore.thy ===== *)
theory EnvStore
  imports Hashtable
begin

text \<open>
  The hash table implements a finite map from names to values: what creation, lookup, insertion and
  deletion do to the environment \<^const>\<open>env_of\<close> that a well-formed table represents, and the contract
  of such a store, stated once as the locale \<open>string_store\<close>, that the import and export of the
  environment rely on.
\<close>

subsection \<open>Insertion and deletion refine the update of a map\<close>


lemma hsearch_enter:
  fixes h k d flag
  assumes "wf_htab st" "no_nul k" "no_nul d" "allocs st = []"
  shows "\<exists>ret rv st'. hsearch_r h k (Some d) ENV_ENTER flag st = Some (ret, rv, st') \<and> wf_htab st' \<and>
     allocs st' = [] \<and> change_ok st' = change_ok st \<and> ht_size st' = ht_size st \<and>
     ((ret = 0 \<and> rv = None \<and> env_of st' = env_of st \<and>
         (k \<notin> dom (env_of st) \<and> unat (filled st) = ht_size st \<or>
          (\<exists>e op. denies st e (Some d) op flag \<or> rejects h e k (Some d) op flag))) \<or>
      (0 < ret \<and> rv \<noteq> None \<and> env_of st' = (env_of st)(k \<mapsto> d)))"
proof -
  obtain tab where st: "table st = Some tab" and wf: "wf_tab (ht_size st) tab" and n: "ht_size st < 2 ^ 32"
    and filled: "unat (filled st) = length (filter live tab)"
    using assms(1) by (rule wf_htabE)
  show ?thesis
  proof (cases "env_of st k")
    case None
    then have miss: "\<not> slot tab i k d'" for i d' using env_of_None [OF st wf] by blast
    have "k \<notin> dom (env_of st)" using None by (simp add: domIff)
    with enter_miss [OF st wf n filled miss assms(2-4), of h flag] show ?thesis by metis
  next
    case (Some d0)
    then obtain i where sl: "slot tab i k d0" using env_of_Some [OF st wf] by blast
    obtain ret rv st' where r: "hsearch_r h k (Some d) ENV_ENTER flag st = Some (ret, rv, st')"
      "wf_htab st'" "allocs st' = []" "change_ok st' = change_ok st" "ht_size st' = ht_size st"
      and c: "if denies st (entry (tab ! i)) (Some d) env_op_overwrite flag \<or> rejects h (entry (tab ! i)) k (Some d) env_op_overwrite flag
        then ret = 0 \<and> rv = None \<and> env_of st' = env_of st
        else 0 < ret \<and> rv = Some i \<and> env_of st' = (env_of st)(k \<mapsto> d)"
      using overwrite_hit [OF st wf n filled sl assms(3,4), of h flag] by blast
    show ?thesis
    proof (cases "denies st (entry (tab ! i)) (Some d) env_op_overwrite flag \<or> rejects h (entry (tab ! i)) k (Some d) env_op_overwrite flag")
      case True
      with r c show ?thesis by (metis (full_types))
    next
      case False
      with r c show ?thesis by auto
    qed
  qed
qed

lemma hdelete_spec:
  fixes h k flag
  assumes "wf_htab st" "no_nul k"
  shows "\<exists>ret st'. hdelete_r h k flag st = Some (ret, st') \<and> wf_htab st' \<and>
     allocs st' = allocs st \<and> change_ok st' = change_ok st \<and> ht_size st' = ht_size st \<and>
     ((ret = 0 \<and> env_of st' = env_of st \<and>
         (k \<notin> dom (env_of st) \<or> (\<exists>e. denies st e None env_op_delete flag \<or> rejects h e k None env_op_delete flag))) \<or>
      (ret = 1 \<and> env_of st' = (env_of st)(k := None)))"
proof -
  obtain tab where st: "table st = Some tab" and wf: "wf_tab (ht_size st) tab" and n: "ht_size st < 2 ^ 32"
    and filled: "unat (filled st) = length (filter live tab)"
    using assms(1) by (rule wf_htabE)
  show ?thesis
  proof (cases "env_of st k")
    case None
    then have "hdelete_r h k flag st = Some (0, st\<lparr>errno := Some ESRCH\<rparr>)"
      using hsearch_find [OF assms, of h None 0] by (simp add: hdelete_r_def)
    with assms(1) None show ?thesis by (simp add: domIff)
  next
    case (Some d)
    then obtain i nd where find: "hsearch_r h k None ENV_FIND 0 st = Some (i, Some i, st)" "0 < i"
      "node st i = Some nd" "live nd" "key (entry nd) = Some k" "data (entry nd) = Some d"
      using hsearch_find [OF assms, of h None 0] by auto
    have i: "i < length tab" "nd = tab ! i" using find(3) st by (auto simp: node_def split: if_splits)
    consider "denies st (entry nd) None env_op_delete flag"
      | "\<not> denies st (entry nd) None env_op_delete flag" "rejects h (entry nd) k None env_op_delete flag"
      | "\<not> denies st (entry nd) None env_op_delete flag" "\<not> rejects h (entry nd) k None env_op_delete flag"
      by blast
    then show ?thesis
    proof cases
      case 1
      then have "hdelete_r h k flag st = Some (0, st\<lparr>errno := Some EPERM\<rparr>)"
        using find by (simp add: hdelete_r_def)
      with 1 assms(1) show ?thesis by auto
    next
      case 2
      then have "hdelete_r h k flag st = Some (0, st\<lparr>errno := Some EINVAL\<rparr>)"
        using find by (simp add: hdelete_r_def)
      with 2 assms(1) show ?thesis by auto
    next
      case 3
      then have eq: "hdelete_r h k flag st = Some (1, hdelete_at i st)"
        using find by (simp add: hdelete_r_def)
      have sl: "slot tab i k d" using find i by (simp add: slot_def live_def)
      note del = hdelete_at_simps [OF st i(1)]
      have "1 \<le> unat (filled st)"
        using filled i find(4) nth_mem [OF i(1)] by (cases "filter live tab") (auto simp: filter_empty_conv)
      moreover from this have "filled st \<noteq> 0" by auto
      ultimately have fill: "unat (filled (hdelete_at i st)) + (if live (tab ! i) then 1 else 0) = length (filter live tab)"
        using filled i(2) find(4) unat_minus_one [of "filled st"] by (auto simp: del(3))
      have "wf_htab (hdelete_at i st)"
        by (rule htab_delete(1) [OF st wf n del(1,2) _ find(2) i(1) fill]) simp
      moreover have "env_of (hdelete_at i st) = (env_of st)(k := None)"
        by (rule htab_delete(2) [OF st wf n del(1,2) _ find(2) i(1) fill sl]) simp
      ultimately show ?thesis using eq del(2,4,5) by simp
    qed
  qed
qed


subsection \<open>Creation gives an empty table of prime size\<close>

lemma u32_square:
  assumes "unat d \<le> 65535"
  shows "unat (d * d :: u32) = unat d * unat d"
proof -
  have "unat d * unat d \<le> 65535 * 65535" using assms by (intro mult_mono) auto
  then show ?thesis by (simp add: unat_word_ariths)
qed

text \<open>Where the trial division stops.\<close>

definition stops_at :: "nat \<Rightarrow> nat \<Rightarrow> bool" where
  "stops_at p d \<longleftrightarrow> odd d \<and> 3 \<le> d \<and> d \<le> 65535 \<and> (p \<le> d * d \<or> d dvd p) \<and>
     (\<forall>e. odd e \<longrightarrow> 3 \<le> e \<longrightarrow> e < d \<longrightarrow> \<not> e dvd p) \<and> (d = 3 \<or> (d - 2) * (d - 2) < p)"

lemma isprime_loop_stops:
  assumes "unat p \<le> 65535 * 65535" "odd (unat d)" "3 \<le> unat d" "unat d \<le> 65535"
    "\<forall>e. odd e \<longrightarrow> 3 \<le> e \<longrightarrow> e < unat d \<longrightarrow> \<not> e dvd unat p" "unat d = 3 \<or> (unat d - 2) * (unat d - 2) < unat p"
  shows "\<exists>d'. isprime_loop p d = Some d' \<and> stops_at (unat p) (unat d')"
  using assms(2-)
proof (induction "65535 - unat d" arbitrary: d rule: less_induct)
  case less
  have sq: "d * d < p \<longleftrightarrow> unat d * unat d < unat p"
    using u32_square [OF less.prems(3)] by (simp add: word_less_nat_alt)
  have dv: "p mod d \<noteq> 0 \<longleftrightarrow> \<not> unat d dvd unat p"
    by (simp add: word_unat_eq_iff unat_mod dvd_eq_mod_eq_0)
  show ?case
  proof (cases "unat d * unat d < unat p \<and> \<not> unat d dvd unat p")
    case True
    have "unat d < 65535"
    proof (rule ccontr)
      assume "\<not> unat d < 65535"
      with less.prems(3) have "unat d = 65535" by simp
      with True assms(1) show False by simp
    qed
    moreover have "odd (65535 :: nat)" by simp
    ultimately have d2: "unat d + 2 \<le> 65535" using less.prems(1) by presburger
    then have u: "unat (d + 2) = unat d + 2" by (simp add: unat_word_ariths)
    have "\<not> e dvd unat p" if "odd e" "3 \<le> e" "e < unat (d + 2)" for e
    proof (cases "e < unat d")
      case False
      with that u less.prems(1) have "e = unat d" by presburger
      with True show ?thesis by simp
    qed (use less.prems(4) that in blast)
    then have "\<exists>d'. isprime_loop p (d + 2) = Some d' \<and> stops_at (unat p) (unat d')"
      using d2 less.prems True by (intro less.hyps) (auto simp: u)
    then show ?thesis
      using True sq dv by (subst isprime_loop.simps) simp
  next
    case False
    then have "isprime_loop p d = Some d"
      using sq dv by (subst isprime_loop.simps) auto
    with False less.prems show ?thesis
      by (auto simp: stops_at_def)
  qed
qed

lemma stops_at_prime:
  assumes st: "stops_at p d" and p: "odd p" "5 \<le> p"
  shows "\<not> d dvd p \<longleftrightarrow> prime_size p"
proof
  assume "prime_size p"
  show "\<not> d dvd p"
  proof
    assume "d dvd p"
    with \<open>prime_size p\<close> st have "d = p" by (auto simp: prime_size_def stops_at_def)
    with st p have "(p - 2) * (p - 2) < p" by (auto simp: stops_at_def)
    moreover have "3 * (p - 2) \<le> (p - 2) * (p - 2)" using p by (intro mult_le_mono1) simp
    ultimately have "3 * (p - 2) < p" by (rule le_less_trans [rotated])
    then show False using p by simp
  qed
next
  assume nd: "\<not> d dvd p"
  have none: "\<not> q dvd p" if "1 < q" "q \<le> d" for q
  proof
    assume "q dvd p"
    then have "odd q" using p(1) by (metis dvd_trans)
    then have "3 \<le> q" using that(1) by presburger
    with \<open>odd q\<close> \<open>q dvd p\<close> nd that(2) st show False by (cases "q = d") (auto simp: stops_at_def)
  qed
  have "q = 1 \<or> q = p" if qp: "q dvd p" for q
  proof (rule ccontr)
    assume q: "\<not> (q = 1 \<or> q = p)"
    from qp obtain r where r: "p = q * r" ..
    have "p \<le> d * d" using st nd by (auto simp: stops_at_def)
    have "1 < q" "1 < r" using q r p(2) by (cases q; cases r; auto)+
    then have "d < q" "d < r" using none [of q] none [of r] r by (auto simp: not_le [symmetric])
    then have "d * d < q * r" by (intro mult_strict_mono) auto
    with r \<open>p \<le> d * d\<close> show False by simp
  qed
  with p show "prime_size p" by (auto simp: prime_size_def)
qed

lemma isprime_iff:
  assumes "odd (unat p)" "5 \<le> unat p" "unat p \<le> 65535 * 65535"
  shows "isprime p = Some (prime_size (unat p))"
proof -
  obtain d where d: "isprime_loop p 3 = Some d" "stops_at (unat p) (unat d)"
    using isprime_loop_stops [OF assms(3), of 3] by auto
  have "p mod d \<noteq> 0 \<longleftrightarrow> \<not> unat d dvd unat p"
    by (simp add: word_unat_eq_iff unat_mod dvd_eq_mod_eq_0)
  with d stops_at_prime [OF d(2) assms(1,2)] show ?thesis
    by (simp add: isprime_def)
qed

lemma isprime_521: "isprime 521 = Some True"
  by (simp add: isprime_def isprime_loop.simps)

lemma next_prime_ends:
  assumes "odd (unat nel)" "5 \<le> unat nel" "unat nel \<le> 521"
  shows "\<exists>p. next_prime nel = Some p \<and> prime_size (unat p) \<and> unat nel \<le> unat p \<and> unat p \<le> 521"
  using assms
proof (induction "521 - unat nel" arbitrary: nel rule: less_induct)
  case less
  have isp: "isprime nel = Some (prime_size (unat nel))"
    using less.prems by (intro isprime_iff) auto
  show ?case
  proof (cases "prime_size (unat nel)")
    case True
    with isp have "next_prime nel = Some nel" by (subst next_prime.simps) simp
    with True less.prems show ?thesis by blast
  next
    case False
    with isp have not: "isprime nel \<noteq> Some True" by simp
    have "unat nel \<noteq> 521"
    proof
      assume "unat nel = 521"
      then have "of_nat (unat nel) = (of_nat 521 :: u32)" by (rule arg_cong)
      then have "nel = 521" by simp
      with isprime_521 not show False by simp
    qed
    moreover have "odd (521 :: nat)" by simp
    ultimately have l: "unat nel + 2 \<le> 521" using less.prems by presburger
    then have u: "unat (nel + 2) = unat nel + 2" by (simp add: unat_word_ariths)
    have "\<exists>p. next_prime (nel + 2) = Some p \<and> prime_size (unat p) \<and> unat (nel + 2) \<le> unat p \<and> unat p \<le> 521"
      using l less.prems by (intro less.hyps) (auto simp: u)
    moreover have "next_prime nel = next_prime (nel + 2)"
      using isp False by (subst next_prime.simps) simp
    ultimately show ?thesis using u by auto
  qed
qed

lemma wf_tab_fresh: "prime_size n \<Longrightarrow> wf_tab n (replicate (n + 1) free_node)"
  by (auto simp: wf_tab_alt slot_def free_node_def nth_Cons')

lemma hcreate_spec:
  assumes "table st = None" "allocs st = []" "5 \<le> unat nel" "unat nel \<le> 520"
  shows "\<exists>st'. hcreate_r nel st = Some (1, st') \<and> wf_htab st' \<and> env_of st' = Map.empty \<and>
     unat nel \<le> ht_size st' \<and> allocs st' = [] \<and> change_ok st' = change_ok st"
proof -
  have "unat (nel OR 1) = unat nel OR 1"
    by (simp add: unsigned_or_eq)
  also have "\<dots> = unat nel + of_bool (even (unat nel))"
    by (rule or_one_eq)
  finally have odd: "odd (unat (nel OR 1))" and le: "unat nel \<le> unat (nel OR 1)" "unat (nel OR 1) \<le> 521"
    using assms(4) by auto
  obtain p where p: "next_prime (nel OR 1) = Some p" "prime_size (unat p)" "unat (nel OR 1) \<le> unat p" "unat p \<le> 521"
    using next_prime_ends [OF odd] le assms(3) by auto
  define st' where "st' = st\<lparr>ht_size := unat p, filled := 0, table := Some (replicate (unat p + 1) free_node)\<rparr>"
  have "hcreate_r nel st = Some (1, st')"
    using assms(1,2) p(1) by (simp add: hcreate_r_def alloc_def st'_def)
  moreover have "wf_htab st'"
    using wf_tab_fresh [OF p(2)] p(4) by (intro wf_htabI) (auto simp: st'_def live_def free_node_def)
  moreover have "env_of st' = Map.empty"
    by (simp add: env_of_def st'_def live_def free_node_def)
  ultimately show ?thesis using p le assms(2) by (auto simp: st'_def)
qed

subsection \<open>The contract of a store of strings\<close>

text \<open>Applying an operation that may fail to a list of arguments, from left to right.\<close>

fun fold_opt :: "('a \<Rightarrow> 's \<Rightarrow> 's option) \<Rightarrow> 'a list \<Rightarrow> 's \<Rightarrow> 's option" where
  "fold_opt f [] s = Some s"
| "fold_opt f (x # xs) s = (case f x s of None \<Rightarrow> None | Some s' \<Rightarrow> fold_opt f xs s')"

locale string_store =
  fixes inv :: "'s \<Rightarrow> bool"
    and env :: "'s \<Rightarrow> string \<rightharpoonup> string"
    and cap :: "'s \<Rightarrow> nat"
    and put :: "string \<Rightarrow> string \<Rightarrow> 's \<Rightarrow> 's option"
    and del :: "string \<Rightarrow> 's \<Rightarrow> 's option"
  assumes finite_env: "inv s \<Longrightarrow> finite (dom (env s))"
    and put: "inv s \<Longrightarrow> no_nul k \<Longrightarrow> no_nul d \<Longrightarrow> k \<in> dom (env s) \<or> card (dom (env s)) < cap s \<Longrightarrow>
      \<exists>s'. put k d s = Some s' \<and> inv s' \<and> env s' = (env s)(k \<mapsto> d) \<and> cap s' = cap s"
    and del: "inv s \<Longrightarrow> no_nul k \<Longrightarrow>
      \<exists>s'. del k s = Some s' \<and> inv s' \<and> env s' = (env s)(k := None) \<and> cap s' = cap s"
begin

lemma put_list:
  assumes "inv s" "\<forall>(k, d)\<in>set kvs. no_nul k \<and> no_nul d" "card (dom (env s)) + length kvs \<le> cap s"
  shows "\<exists>s'. fold_opt (\<lambda>(k, d). put k d) kvs s = Some s' \<and> inv s' \<and>
     env s' = env s ++ map_of (rev kvs) \<and> cap s' = cap s"
  using assms
proof (induction kvs arbitrary: s)
  case (Cons kd kvs)
  obtain k d where kd: "kd = (k, d)" by (cases kd)
  obtain s1 where s1: "put k d s = Some s1" "inv s1" "env s1 = (env s)(k \<mapsto> d)" "cap s1 = cap s"
    using put [of s k d] Cons.prems kd by auto
  have "card (dom (env s1)) \<le> Suc (card (dom (env s)))"
    using s1(3) finite_env [OF Cons.prems(1)] card_insert_le_m1 by (simp add: card_insert_if)
  then have room: "card (dom (env s1)) + length kvs \<le> cap s1"
    using Cons.prems(3) s1(4) by simp
  have rest: "\<forall>(k, d)\<in>set kvs. no_nul k \<and> no_nul d" using Cons.prems(2) by simp
  obtain s' where s': "fold_opt (\<lambda>(k, d). put k d) kvs s1 = Some s'" "inv s'"
    "env s' = env s1 ++ map_of (rev kvs)" "cap s' = cap s1"
    using Cons.IH [OF s1(2) rest room] by blast
  have "env s' = env s ++ map_of (rev (kd # kvs))"
    using s'(3) s1(3) kd by (simp add: map_add_def fun_eq_iff split: option.splits)
  with s' s1 kd show ?case by auto
qed simp

lemma put_then_del:
  assumes "inv s" "no_nul k" "no_nul d" "k \<notin> dom (env s)" "card (dom (env s)) < cap s"
  shows "\<exists>s1 s2. put k d s = Some s1 \<and> del k s1 = Some s2 \<and> inv s2 \<and> env s2 = env s"
  using put [OF assms(1-3)] del assms by (metis fun_upd_triv fun_upd_upd domIff)

end

text \<open>The operations of the hash table as operations of such a store.\<close>

definition permissive :: "env_hooks \<Rightarrow> hstate \<Rightarrow> bool" where
  "permissive h st \<longleftrightarrow> (\<forall>e v op flag. \<not> denies st e v op flag) \<and> (\<forall>e k v op flag. \<not> rejects h e k v op flag)"

definition store_inv :: "env_hooks \<Rightarrow> hstate \<Rightarrow> bool" where
  "store_inv h st \<longleftrightarrow> wf_htab st \<and> allocs st = [] \<and> permissive h st"

definition hput :: "env_hooks \<Rightarrow> u32 \<Rightarrow> string \<Rightarrow> string \<Rightarrow> hstate \<Rightarrow> hstate option" where
  "hput h flag k d st = map_option (\<lambda>(ret, rv, st). st) (hsearch_r h k (Some d) ENV_ENTER flag st)"

definition hdel :: "env_hooks \<Rightarrow> u32 \<Rightarrow> string \<Rightarrow> hstate \<Rightarrow> hstate option" where
  "hdel h flag k st = map_option snd (hdelete_r h k flag st)"

lemma filled_card:
  assumes "wf_htab st"
  shows "finite (dom (env_of st))" "unat (filled st) = card (dom (env_of st))"
proof -
  obtain tab where st: "table st = Some tab" and wf: "wf_tab (ht_size st) tab"
    and filled: "unat (filled st) = length (filter live tab)"
    using assms by (rule wf_htabE)
  let ?keys = "map (\<lambda>nd. the (key (entry nd))) (filter live tab)"
  have "dom (env_of st) = set ?keys"
    by (simp add: env_of_def st dom_map_of_conv_image_fst image_image)
  then show "finite (dom (env_of st))" "unat (filled st) = card (dom (env_of st))"
    using distinct_card [OF live_keys_distinct [OF wf]] filled by simp_all
qed

interpretation env_store: string_store "store_inv h" env_of ht_size "hput h flag" "hdel h flag" for h flag
proof
  fix st k d
  assume inv: "store_inv h st"
  then have wf: "wf_htab st" "allocs st = []" and perm: "permissive h st"
    by (simp_all add: store_inv_def)
  show "finite (dom (env_of st))" using wf(1) by (rule filled_card)
  assume k: "no_nul k"
  have perm': "permissive h st'" if "change_ok st' = change_ok st" for st'
    using perm that by (simp add: permissive_def denies_def)
  obtain ret st' where "hdelete_r h k flag st = Some (ret, st')" "wf_htab st'" "allocs st' = allocs st"
    "change_ok st' = change_ok st" "ht_size st' = ht_size st" "env_of st' = (env_of st)(k := None)"
  proof -
    have "(env_of st)(k := None) = env_of st" if "k \<notin> dom (env_of st)"
      using that by (auto simp: domIff)
    then show ?thesis
      using that hdelete_spec [OF wf(1) k, of h flag] perm unfolding permissive_def by metis
  qed
  with wf(2) perm' show "\<exists>s'. hdel h flag k st = Some s' \<and> store_inv h s' \<and>
      env_of s' = (env_of st)(k := None) \<and> ht_size s' = ht_size st"
    by (simp add: hdel_def store_inv_def)
  assume d: "no_nul d" and room: "k \<in> dom (env_of st) \<or> card (dom (env_of st)) < ht_size st"
  obtain ret rv st' where "hsearch_r h k (Some d) ENV_ENTER flag st = Some (ret, rv, st')" "wf_htab st'"
    "allocs st' = []" "change_ok st' = change_ok st" "ht_size st' = ht_size st" "env_of st' = (env_of st)(k \<mapsto> d)"
    using hsearch_enter [OF wf(1) k d wf(2), of h flag] room filled_card(2) [OF wf(1)] perm
    unfolding permissive_def by (metis less_irrefl)
  with perm' show "\<exists>s'. hput h flag k d st = Some s' \<and> store_inv h s' \<and>
      env_of s' = (env_of st)(k \<mapsto> d) \<and> ht_size s' = ht_size st"
    by (simp add: hput_def store_inv_def)
qed

subsection \<open>Properties\<close>

text \<open>An empty table of seven slots and hooks that accept every change, for the examples.\<close>

definition demo_table :: hstate where
  "demo_table = \<lparr>table = Some (replicate 8 free_node), ht_size = 7, filled = 0, change_ok = None,
     errno = None, allocs = [], printed = []\<rparr>"

definition demo_hooks :: env_hooks where
  "demo_hooks = \<lparr>env_callback_init = (\<lambda>_ _. None), env_flags_init = (\<lambda>_ _. 0),
     call_callback = (\<lambda>_ _ _ _ _. False)\<rparr>"

lemma demo_table_inv: "store_inv demo_hooks demo_table" "env_of demo_table = Map.empty"
proof -
  have "isprime 7 = Some True" by (simp add: isprime_def isprime_loop.simps)
  then have "prime_size 7" using isprime_iff [of 7] by simp
  then have "wf_tab 7 (replicate 8 free_node)" using wf_tab_fresh [of 7] by simp
  then have "wf_htab demo_table"
    by (intro wf_htabI) (auto simp: demo_table_def live_def free_node_def)
  moreover have "\<not> rejects demo_hooks e k v op flag" for e k v op flag
    by (cases "callback e") (simp_all add: rejects_def demo_hooks_def)
  ultimately show "store_inv demo_hooks demo_table"
    by (auto simp: store_inv_def permissive_def denies_def demo_table_def)
  show "env_of demo_table = Map.empty"
    by (simp add: env_of_def demo_table_def live_def free_node_def)
qed

text \<open>
  (C19) Insertion refines the update of a map. With memory available, \<open>hsearch_r\<close> with \<open>ENV_ENTER\<close> always
  ends and keeps the table well-formed. It returns an entry and updates exactly this name, or it
  returns NULL with the environment unchanged, and then the table is full or a hook refused.
\<close>

theorem hsearch_enter_refines:
  assumes "wf_htab st" "no_nul k" "no_nul d" "allocs st = []"
  shows "\<exists>ret rv st'. hsearch_r h k (Some d) ENV_ENTER flag st = Some (ret, rv, st') \<and> wf_htab st' \<and>
     ((ret = 0 \<and> rv = None \<and> env_of st' = env_of st \<and>
         (k \<notin> dom (env_of st) \<and> unat (filled st) = ht_size st \<or>
          (\<exists>e op. denies st e (Some d) op flag \<or> rejects h e k (Some d) op flag))) \<or>
      (0 < ret \<and> rv \<noteq> None \<and> env_of st' = (env_of st)(k \<mapsto> d)))"
  using hsearch_enter [OF assms, of h flag] by (elim exE conjE) (intro exI conjI)

theorem hsearch_enter_refines_witness:
  "\<exists>ret rv st'. hsearch_r demo_hooks ''bootdelay'' (Some ''2'') ENV_ENTER 0 demo_table = Some (ret, rv, st') \<and>
     env_of st' = [''bootdelay'' \<mapsto> ''2'']"
proof -
  have inv: "wf_htab demo_table" "allocs demo_table = []" "permissive demo_hooks demo_table"
    using demo_table_inv(1) by (simp_all add: store_inv_def)
  moreover have "unat (filled demo_table) \<noteq> ht_size demo_table" by (simp add: demo_table_def)
  ultimately show ?thesis
    using hsearch_enter_refines [of demo_table "''bootdelay''" "''2''" demo_hooks 0] demo_table_inv(2)
    unfolding permissive_def by auto
qed

text \<open>
  Lookup returns exactly what the environment holds: the entry with this name and its value, or
  NULL and \<open>ESRCH\<close>; the search always ends and changes nothing else.
\<close>

theorem hsearch_find_refines:
  assumes "wf_htab st" "no_nul k"
  shows "case env_of st k of
     None \<Rightarrow> hsearch_r h k v ENV_FIND flag st = Some (0, None, st\<lparr>errno := Some ESRCH\<rparr>)
   | Some d \<Rightarrow> \<exists>i nd. hsearch_r h k v ENV_FIND flag st = Some (i, Some i, st) \<and> 0 < i \<and>
       node st i = Some nd \<and> key (entry nd) = Some k \<and> data (entry nd) = Some d"
  using hsearch_find [OF assms, of h v flag] by (auto split: option.splits)

theorem hsearch_find_refines_witness:
  "hsearch_r demo_hooks ''serverip'' None ENV_FIND 0 demo_table = Some (0, None, demo_table\<lparr>errno := Some ESRCH\<rparr>)"
  using hsearch_find_refines [of demo_table "''serverip''" demo_hooks None 0] demo_table_inv
  by (simp add: store_inv_def)

text \<open>
  (C20) Deletion refines the removal of a name: it always ends and keeps the table well-formed; it
  returns 1 and removes exactly this name, or 0 with the environment unchanged, and then the name is
  absent or a hook refused.
\<close>

theorem hdelete_refines:
  assumes "wf_htab st" "no_nul k"
  shows "\<exists>ret st'. hdelete_r h k flag st = Some (ret, st') \<and> wf_htab st' \<and>
     ((ret = 0 \<and> env_of st' = env_of st \<and>
         (k \<notin> dom (env_of st) \<or> (\<exists>e. denies st e None env_op_delete flag \<or> rejects h e k None env_op_delete flag))) \<or>
      (ret = 1 \<and> env_of st' = (env_of st)(k := None)))"
  using hdelete_spec [OF assms, of h flag] by (elim exE conjE) (intro exI conjI)

theorem hdelete_refines_witness:
  "\<exists>ret st'. hdelete_r demo_hooks ''ipaddr'' 0 demo_table = Some (ret, st') \<and> wf_htab st' \<and> env_of st' = Map.empty"
  using hdelete_refines [of demo_table "''ipaddr''" demo_hooks 0] demo_table_inv by (auto simp: store_inv_def)

text \<open>
  (C21) For every request from 5 to 520 elements \<open>hcreate_r\<close> ends with an empty, well-formed table whose
  size is a prime not smaller than the request.
\<close>

theorem hcreate_empty:
  assumes "table st = None" "allocs st = []" "5 \<le> unat nel" "unat nel \<le> 520"
  shows "\<exists>st'. hcreate_r nel st = Some (1, st') \<and> wf_htab st' \<and> env_of st' = Map.empty \<and>
     unat nel \<le> ht_size st' \<and> prime_size (ht_size st')"
proof -
  obtain st' where st': "hcreate_r nel st = Some (1, st')" "wf_htab st'" "env_of st' = Map.empty"
    "unat nel \<le> ht_size st'"
    using hcreate_spec [OF assms] by blast
  moreover from st'(2) have "prime_size (ht_size st')" by (rule wf_htabE) (rule wf_tabD(1))
  ultimately show ?thesis by blast
qed

theorem hcreate_empty_witness:
  "\<exists>st'. hcreate_r 64 (demo_table\<lparr>table := None\<rparr>) = Some (1, st') \<and> wf_htab st' \<and> 64 \<le> ht_size st'"
  using hcreate_empty [of "demo_table\<lparr>table := None\<rparr>" 64] by (auto simp: demo_table_def)

lemma demo_hash: "first_hash ''ipaddr'' 7 = 2"
  by (simp add: first_hash_def Let_def)


end
