(* ===== verification/Qsort.thy ===== *)
theory Qsort
  imports Cstring "HOL-Library.Multiset"
begin

text \<open>
  \<open>qsort\<close> of \<^verbatim>\<open>u-boot/lib/qsort.c\<close>, the shell sort that orders the exported environment.

  Offsets are counted in elements instead of bytes: the code multiplies the gap and the length by
  the width of an element and swaps two elements byte by byte. \<open>cmp\<close> is \<open>comp\<close>, the comparison function of
  the caller. The loops of the code are \<open>do\<close> loops that are entered with their condition true, so the
  model tests the condition first.
\<close>

subsection \<open>The code\<close>

text \<open>\<open>do wgap = 3 * wgap + 1; while (wgap < (nel - 1) / 3)\<close>\<close>

function gap_loop :: "nat \<Rightarrow> nat \<Rightarrow> nat" where
  "gap_loop nel wgap =
     (let wgap = 3 * wgap + 1 in if wgap < (nel - 1) div 3 then gap_loop nel wgap else wgap)"
  by pat_completeness auto
termination by (relation "measure (\<lambda>(nel, wgap). nel - wgap)") auto
declare gap_loop.simps [simp del]

text \<open>The innermost loop moves the element at \<open>j\<close> down in steps of \<open>wgap\<close>.\<close>

function sift :: "('a \<Rightarrow> 'a \<Rightarrow> int) \<Rightarrow> nat \<Rightarrow> nat \<Rightarrow> 'a list \<Rightarrow> 'a list" where
  "sift cmp wgap j xs =
     (if 0 < wgap \<and> wgap \<le> j then
        let j = j - wgap; a = xs ! j; b = xs ! (j + wgap) in
        if cmp a b \<le> 0 then xs else sift cmp wgap j (xs[j := b, j + wgap := a])
      else xs)"
  by pat_completeness auto
termination by (relation "measure (\<lambda>(cmp, wgap, j, xs). j)") auto
declare sift.simps [simp del]

function pass :: "('a \<Rightarrow> 'a \<Rightarrow> int) \<Rightarrow> nat \<Rightarrow> nat \<Rightarrow> nat \<Rightarrow> 'a list \<Rightarrow> 'a list" where
  "pass cmp wgap nel i xs =
     (if i < nel then pass cmp wgap nel (Suc i) (sift cmp wgap i xs) else xs)"
  by pat_completeness auto
termination by (relation "measure (\<lambda>(cmp, wgap, nel, i, xs). nel - i)") auto
declare pass.simps [simp del]

function passes :: "('a \<Rightarrow> 'a \<Rightarrow> int) \<Rightarrow> nat \<Rightarrow> nat \<Rightarrow> 'a list \<Rightarrow> 'a list" where
  "passes cmp wgap nel xs =
     (if wgap \<noteq> 0 then passes cmp ((wgap - 1) div 3) nel (pass cmp wgap nel wgap xs) else xs)"
  by pat_completeness auto
termination by (relation "measure (\<lambda>(cmp, wgap, nel, xs). wgap)") auto
declare passes.simps [simp del]

definition qsort :: "('a \<Rightarrow> 'a \<Rightarrow> int) \<Rightarrow> 'a list \<Rightarrow> 'a list" where
  "qsort cmp base =
     (let nel = length base in
      if nel > 1 then passes cmp (gap_loop nel 0) nel base else base)"

definition strcmp_compar :: "string \<Rightarrow> string \<Rightarrow> int" where
  "strcmp_compar p1 p2 = strcmp p1 p2"

subsection \<open>Accesses stay inside the array and permute it\<close>

lemma sift_mset: "j < length xs \<Longrightarrow> mset (sift cmp wgap j xs) = mset xs \<and> length (sift cmp wgap j xs) = length xs"
proof (induction cmp wgap j xs rule: sift.induct)
  case (1 cmp wgap j xs)
  show ?case
  proof (cases "0 < wgap \<and> wgap \<le> j \<and> \<not> cmp (xs ! (j - wgap)) (xs ! j) \<le> 0")
    case True
    let ?xs = "xs[j - wgap := xs ! j, j := xs ! (j - wgap)]"
    have "mset ?xs = mset xs"
      using 1(2) True by (intro mset_swap) auto
    moreover have "sift cmp wgap j xs = sift cmp wgap (j - wgap) ?xs"
      using True by (subst sift.simps) (simp add: Let_def)
    ultimately show ?thesis
      using 1 True by (simp add: Let_def)
  next
    case False
    then have "sift cmp wgap j xs = xs"
      by (subst sift.simps) (auto simp: Let_def)
    then show ?thesis by simp
  qed
qed

lemma pass_mset:
  "nel = length xs \<Longrightarrow> mset (pass cmp wgap nel i xs) = mset xs \<and> length (pass cmp wgap nel i xs) = length xs"
proof (induction cmp wgap nel i xs rule: pass.induct)
  case (1 cmp wgap nel i xs)
  then show ?case
    using sift_mset [of i xs cmp wgap] by (subst (1 2) pass.simps) auto
qed

lemma passes_mset:
  "nel = length xs \<Longrightarrow> mset (passes cmp wgap nel xs) = mset xs \<and> length (passes cmp wgap nel xs) = length xs"
proof (induction cmp wgap nel xs rule: passes.induct)
  case (1 cmp wgap nel xs)
  then show ?case
    using pass_mset [of nel xs cmp wgap wgap] by (subst (1 2) passes.simps) auto
qed

lemma qsort_mset: "mset (qsort cmp xs) = mset xs"
  by (simp add: qsort_def passes_mset Let_def)

subsection \<open>The gaps end with one\<close>

inductive shell_gap :: "nat \<Rightarrow> bool" where
  one: "shell_gap 1"
| step: "shell_gap g \<Longrightarrow> shell_gap (3 * g + 1)"

lemma gap_loop_shell: "g = 0 \<or> shell_gap g \<Longrightarrow> shell_gap (gap_loop nel g)"
proof (induction nel g rule: gap_loop.induct)
  case (1 nel g)
  have "shell_gap (3 * g + 1)"
    using 1(2) shell_gap.one shell_gap.step by auto
  with 1(1) show ?case
    by (subst gap_loop.simps) (simp add: Let_def)
qed

lemma passes_last:
  "shell_gap g \<Longrightarrow> nel = length xs \<Longrightarrow>
     \<exists>ys. mset ys = mset xs \<and> passes cmp g nel xs = pass cmp 1 nel 1 ys"
proof (induction g arbitrary: xs rule: shell_gap.induct)
  case one
  show ?case
    by (intro exI [of _ xs] conjI refl) (subst passes.simps, subst passes.simps, simp)
next
  case (step g)
  let ?xs = "pass cmp (3 * g + 1) nel (3 * g + 1) xs"
  have "mset ?xs = mset xs" "length ?xs = length xs"
    using pass_mset [of nel xs] step.prems by blast+
  moreover have "passes cmp (3 * g + 1) nel xs = passes cmp g nel ?xs"
    by (subst passes.simps) simp
  ultimately show ?case
    using step.IH [of ?xs] step.prems by metis
qed

subsection \<open>The last pass is an insertion sort\<close>

text \<open>Insertion from the right end.\<close>

function insert_right :: "('a \<Rightarrow> 'a \<Rightarrow> int) \<Rightarrow> 'a list \<Rightarrow> 'a \<Rightarrow> 'a list" where
  "insert_right cmp [] x = [x]"
| "insert_right cmp (p @ [y]) x = (if cmp y x \<le> 0 then p @ [y, x] else insert_right cmp p x @ [y])"
  by (metis rev_exhaust surj_pair) auto
termination by (relation "measure (\<lambda>(cmp, p, x). length p)") auto

lemma sift_one: "sift cmp 1 (length p) (p @ x # s) = insert_right cmp p x @ s"
proof (induction p arbitrary: s rule: rev_induct)
  case Nil
  show ?case by (subst sift.simps) simp
next
  case (snoc y p)
  have "sift cmp 1 (length (p @ [y])) ((p @ [y]) @ x # s) =
      (if cmp y x \<le> 0 then p @ y # x # s else sift cmp 1 (length p) (p @ x # y # s))"
    by (subst sift.simps) (simp add: Let_def nth_append list_update_append)
  with snoc.IH [of "y # s"] show ?case by simp
qed

locale comparison =
  fixes cmp :: "'a \<Rightarrow> 'a \<Rightarrow> int" and D :: "'a set"
  assumes total: "x \<in> D \<Longrightarrow> y \<in> D \<Longrightarrow> cmp x y \<le> 0 \<or> cmp y x \<le> 0"
    and trans: "x \<in> D \<Longrightarrow> y \<in> D \<Longrightarrow> z \<in> D \<Longrightarrow> cmp x y \<le> 0 \<Longrightarrow> cmp y z \<le> 0 \<Longrightarrow> cmp x z \<le> 0"
begin

abbreviation ordered :: "'a list \<Rightarrow> bool" where
  "ordered \<equiv> sorted_wrt (\<lambda>a b. cmp a b \<le> 0)"

lemma set_insert_right: "set (insert_right cmp p x) = insert x (set p)"
  by (induction p rule: rev_induct) auto

lemma ordered_insert_right:
  "set p \<subseteq> D \<Longrightarrow> x \<in> D \<Longrightarrow> ordered p \<Longrightarrow> ordered (insert_right cmp p x)"
proof (induction p rule: rev_induct)
  case (snoc y p)
  then show ?case
    using total [of y x] trans [of _ y x]
    by (auto simp: sorted_wrt_append set_insert_right)
qed simp

lemma ordered_pass:
  "nel = length xs \<Longrightarrow> set xs \<subseteq> D \<Longrightarrow> ordered (take i xs) \<Longrightarrow> ordered (pass cmp 1 nel i xs)"
proof (induction "nel - i" arbitrary: i xs)
  case 0
  then show ?case by (subst pass.simps) simp
next
  case (Suc m)
  let ?p = "take i xs" and ?x = "xs ! i" and ?s = "drop (Suc i) xs"
  have i: "i < length xs" using Suc by simp
  have xs: "xs = ?p @ ?x # ?s" using i by (rule id_take_nth_drop)
  have eq: "sift cmp 1 i xs = insert_right cmp ?p ?x @ ?s"
    using sift_one [of cmp ?p ?x ?s] i xs by simp
  have len: "nel = length (sift cmp 1 i xs)" and ms: "mset (sift cmp 1 i xs) = mset xs"
    using sift_mset [OF i] Suc.prems(1) by metis+
  have "length (insert_right cmp ?p ?x) = Suc i"
    using arg_cong [OF eq, of length] len Suc.prems(1) i by simp
  then have "take (Suc i) (sift cmp 1 i xs) = insert_right cmp ?p ?x"
    using eq by simp
  moreover have "set ?p \<subseteq> D" "?x \<in> D"
    using Suc.prems(2) i by (auto dest: in_set_takeD)
  ultimately have sorted: "ordered (take (Suc i) (sift cmp 1 i xs))"
    using ordered_insert_right Suc.prems(3) by simp
  have "set (sift cmp 1 i xs) \<subseteq> D"
    using Suc.prems(2) ms by (metis set_mset_mset)
  moreover have "m = nel - Suc i"
    using Suc.hyps(2) by simp
  ultimately have "ordered (pass cmp 1 nel (Suc i) (sift cmp 1 i xs))"
    using len sorted by (intro Suc.hyps(1))
  then show ?case
    using i Suc.prems(1) by (subst pass.simps) simp
qed

lemma ordered_qsort: "set xs \<subseteq> D \<Longrightarrow> ordered (qsort cmp xs)"
proof (cases "length xs > 1")
  case True
  assume xs: "set xs \<subseteq> D"
  obtain ys where ys: "mset ys = mset xs"
    "passes cmp (gap_loop (length xs) 0) (length xs) xs = pass cmp 1 (length xs) 1 ys"
    using passes_last [OF gap_loop_shell refl] by blast
  have "length ys = length xs" "set ys = set xs"
    using ys(1) by (metis size_mset, metis set_mset_mset)
  moreover have "ordered (take 1 ys)" by (cases ys) auto
  ultimately show ?thesis
    using ys(2) ordered_pass [of "length xs" ys 1] xs True by (simp add: qsort_def)
next
  case False
  then show ?thesis by (cases xs) (auto simp: qsort_def)
qed

end

subsection \<open>Sorting strings\<close>

text \<open>The ASCII strings, on which the sign of \<open>strcmp\<close> is an order.\<close>

definition ascii_strings :: "string set" where
  "ascii_strings = {s. no_nul s \<and> list_all ascii s}"

lemma strcmp_le:
  assumes "s \<in> ascii_strings" "t \<in> ascii_strings"
  shows "strcmp s t \<le> 0 \<longleftrightarrow> s = t \<or> ord.lexordp char_lt s t"
  using assms strcmp_0 [of s t] strcmp_less [of s t] by (auto simp: ascii_strings_def)

lemma char_lt_linorder: "class.linorder (\<lambda>a b. of_char a \<le> (of_char b :: nat)) char_lt"
proof
  fix x y :: char
  assume "of_char x \<le> (of_char y :: nat)" "of_char y \<le> (of_char x :: nat)"
  then have "(of_char x :: nat) = of_char y" by simp
  then show "x = y" by (simp only: of_char_eq_iff)
qed auto

interpretation strcmp_sort: comparison strcmp_compar ascii_strings
proof
  fix x y z
  assume D: "x \<in> ascii_strings" "y \<in> ascii_strings"
  show "strcmp_compar x y \<le> 0 \<or> strcmp_compar y x \<le> 0"
    using linorder.lexordp_linear [OF char_lt_linorder, of x y]
    unfolding strcmp_compar_def strcmp_le [OF D] strcmp_le [OF D(2,1)] by blast
  assume z: "z \<in> ascii_strings" and "strcmp_compar x y \<le> 0" "strcmp_compar y z \<le> 0"
  then have "x = y \<or> ord.lexordp char_lt x y" "y = z \<or> ord.lexordp char_lt y z"
    unfolding strcmp_compar_def strcmp_le [OF D] strcmp_le [OF D(2) z] by blast+
  then show "strcmp_compar x z \<le> 0"
    unfolding strcmp_compar_def strcmp_le [OF D(1) z]
    using linorder.lexordp_trans [OF char_lt_linorder, of x y z] by blast
qed

subsection \<open>Properties\<close>

text \<open>
  (C18) \<open>qsort\<close> sorts: on ASCII strings with the comparison of the code, the result is a permutation
  of the array in ascending order, whatever the number of elements.
\<close>

theorem qsort_sorts:
  assumes "set xs \<subseteq> ascii_strings"
  shows "mset (qsort strcmp_compar xs) = mset xs \<and>
     sorted_wrt (\<lambda>s t. strcmp_compar s t \<le> 0) (qsort strcmp_compar xs)"
  using qsort_mset strcmp_sort.ordered_qsort [OF assms] by blast

theorem qsort_sorts_witness:
  "sorted_wrt (\<lambda>s t. strcmp_compar s t \<le> 0) (qsort strcmp_compar [''serverip'', ''bootcmd'', ''ipaddr'', ''baud''])"
proof -
  have "set [''serverip'', ''bootcmd'', ''ipaddr'', ''baud''] \<subseteq> ascii_strings"
    by (simp add: ascii_strings_def)
  then show ?thesis
    using qsort_sorts by blast
qed

end
