(* ===== verification/EnvText.thy ===== *)
theory EnvText
  imports EnvStore Qsort Vsprintf
begin

text \<open>
  Export and import of the environment as text, the second half of \<^verbatim>\<open>u-boot/lib/hashtable.c\<close>:
  \<open>hexport_r\<close> writes the entries as \<open>name=value\<close> lines sorted by name, \<open>himport_r\<close> reads them back.

  The configuration is the one without \<open>CONFIG_REGEX\<close>. Stores into a buffer are checked against its
  length, \<open>None\<close> is a store behind it. The import reads its own copy of the text; its writes into that
  copy (the terminators of names and values, the value without escapes) stay behind the reading
  position, so the model keeps the text and advances in it.
\<close>

definition H_NOCLEAR :: u32 where "H_NOCLEAR = 0x1"
definition H_HIDE_DOT :: u32 where "H_HIDE_DOT = 0x8"
definition H_MATCH_KEY :: u32 where "H_MATCH_KEY = 0x10"
definition H_MATCH_DATA :: u32 where "H_MATCH_DATA = 0x20"
definition H_MATCH_IDENT :: u32 where "H_MATCH_IDENT = 0x40"
definition H_MATCH_SUBSTR :: u32 where "H_MATCH_SUBSTR = 0x80"
definition H_MATCH_METHOD :: u32 where "H_MATCH_METHOD = 0x1C0"

definition hprintf :: "string \<Rightarrow> va_arg list \<Rightarrow> hstate \<Rightarrow> hstate option" where
  "hprintf fmt args st = map_option (\<lambda>(n, out). st\<lparr>printed := printed st @ out\<rparr>) (printf fmt args)"

subsection \<open>Export\<close>

definition cmpkey :: "string \<times> string \<Rightarrow> string \<times> string \<Rightarrow> int" where
  "cmpkey e1 e2 = strcmp (fst e1) (fst e2)"

definition match_string :: "u32 \<Rightarrow> string \<Rightarrow> string \<Rightarrow> hstate \<Rightarrow> (bool \<times> hstate) option" where
  "match_string flag str pat st =
     (let method = flag AND H_MATCH_METHOD in
      if method = H_MATCH_IDENT then Some (strcmp str pat = 0, st)
      else if method = H_MATCH_SUBSTR then Some (strstr str pat \<noteq> None, st)
      else map_option (Pair False)
        (hprintf ''## ERROR: unsupported match method: 0x%02x\<newline>'' [VInt method] st))"

text \<open>One \<open>if (flag & ...) if (match_string(...)) return 1;\<close>; a NULL string is dereferenced.\<close>

definition match_field :: "bool \<Rightarrow> u32 \<Rightarrow> string option \<Rightarrow> string \<Rightarrow> hstate \<Rightarrow> (bool \<times> hstate) option" where
  "match_field wanted flag str pat st =
     (if wanted then case str of None \<Rightarrow> None | Some s \<Rightarrow> match_string flag s pat st else Some (False, st))"

fun match_entry :: "env_entry \<Rightarrow> u32 \<Rightarrow> string list \<Rightarrow> hstate \<Rightarrow> (bool \<times> hstate) option" where
  "match_entry ep flag [] st = Some (False, st)"
| "match_entry ep flag (arg # argv) st =
     (case match_field (flag AND H_MATCH_KEY \<noteq> 0) flag (key ep) arg st of
        None \<Rightarrow> None
      | Some (True, st) \<Rightarrow> Some (True, st)
      | Some (False, st) \<Rightarrow>
          (case match_field (flag AND H_MATCH_DATA \<noteq> 0) flag (data ep) arg st of
             None \<Rightarrow> None
           | Some (True, st) \<Rightarrow> Some (True, st)
           | Some (False, st) \<Rightarrow> match_entry ep flag argv st))"

text \<open>The length of a value in the first pass; without a separator escapes are not counted.\<close>

definition needs_escape :: "char \<Rightarrow> char \<Rightarrow> bool" where
  "needs_escape sep c \<longleftrightarrow> c = sep \<or> c = CHR 0x5C"

definition counted_length :: "char \<Rightarrow> string \<Rightarrow> nat" where
  "counted_length sep d =
     (if sep = NUL then strlen d else sum_list (map (\<lambda>c. if needs_escape sep c then 2 else 1) d))"

text \<open>Pass 1: the selected entries and the total length.\<close>

fun export_scan ::
  "char \<Rightarrow> u32 \<Rightarrow> string list \<Rightarrow> nat list \<Rightarrow> hstate \<Rightarrow> ((string \<times> string) list \<times> nat \<times> hstate) option" where
  "export_scan sep flag argv [] st = Some ([], 0, st)"
| "export_scan sep flag argv (i # is) st =
     (case node st i of
        None \<Rightarrow> None
      | Some nd \<Rightarrow>
          if 0 < used nd then
            case match_entry (entry nd) flag argv st of
              None \<Rightarrow> None
            | Some (found, st) \<Rightarrow>
                if argv \<noteq> [] \<and> \<not> found then export_scan sep flag argv is st
                else case key (entry nd) of
                  None \<Rightarrow> None
                | Some k \<Rightarrow>
                    if flag AND H_HIDE_DOT \<noteq> 0 \<and> ch_at k 0 = CHR ''.'' then export_scan sep flag argv is st
                    else case data (entry nd) of
                      None \<Rightarrow> None
                    | Some d \<Rightarrow>
                        map_option (\<lambda>(es, totlen, st). ((k, d) # es, strlen k + counted_length sep d + 2 + totlen, st))
                          (export_scan sep flag argv is st)
          else export_scan sep flag argv is st)"

text \<open>Pass 2: what is written for an entry, and the stores, one by one.\<close>

definition escape :: "char \<Rightarrow> string \<Rightarrow> string" where
  "escape sep d = concat (map (\<lambda>c. if needs_escape sep c then [CHR 0x5C, c] else [c]) d)"

definition export_line :: "char \<Rightarrow> string \<times> string \<Rightarrow> string" where
  "export_line sep e = fst e @ ''='' @ escape sep (snd e) @ [sep]"

fun put_chars :: "string \<Rightarrow> nat \<Rightarrow> string \<Rightarrow> string option" where
  "put_chars [] p res = Some res"
| "put_chars (c # cs) p res =
     (case store p c res of None \<Rightarrow> None | Some res \<Rightarrow> put_chars cs (Suc p) res)"

text \<open>The user's buffer cleared, or a new one: \<open>Inl\<close> is a failed allocation.\<close>

definition export_buffer :: "string option \<Rightarrow> nat \<Rightarrow> hstate \<Rightarrow> (hstate + string \<times> hstate) option" where
  "export_buffer resp n st =
     (case resp of
        Some buf \<Rightarrow> if n \<le> length buf then Some (Inr (replicate n NUL @ drop n buf, st)) else None
      | None \<Rightarrow>
          let (ok, st) = alloc st in
          if ok then Some (Inr (replicate n NUL, st)) else Some (Inl (st\<lparr>errno := Some ENOMEM\<rparr>)))"

definition hexport_r ::
  "char \<Rightarrow> u32 \<Rightarrow> string option \<Rightarrow> nat \<Rightarrow> string list \<Rightarrow> hstate \<Rightarrow> (int \<times> string option \<times> hstate) option" where
  "hexport_r sep flag resp n argv st =
     (case export_scan sep flag argv [1..<Suc (ht_size st)] st of
        None \<Rightarrow> None
      | Some (es, totlen, st) \<Rightarrow>
          let es = qsort cmpkey es in
          if n \<noteq> 0 \<and> n < totlen + 1 then
            map_option (\<lambda>st. (-1, resp, st\<lparr>errno := Some ENOMEM\<rparr>))
              (hprintf ''Env export buffer too small: %lu, but need %lu\<newline>''
                [VInt (of_nat n), VInt (of_nat (totlen + 1))] st)
          else
            let n = (if n \<noteq> 0 then n else totlen + 1) in
            case export_buffer resp n st of
              None \<Rightarrow> None
            | Some (Inl st) \<Rightarrow> Some (-1, None, st)
            | Some (Inr (res, st)) \<Rightarrow>
                (case put_chars (concat (map (export_line sep) es) @ [NUL]) 0 res of
                   None \<Rightarrow> None
                 | Some res \<Rightarrow> Some (int n, Some res, st)))"

subsection \<open>Import\<close>

definition drop_var_from_set :: "string \<Rightarrow> string option list \<Rightarrow> bool \<times> string option list" where
  "drop_var_from_set nm vars =
     (if vars = [] then (True, vars)
      else (\<exists>v\<in>set vars. v \<noteq> None \<and> strcmp nm (the v) = 0,
            map (\<lambda>v. if v \<noteq> None \<and> strcmp nm (the v) = 0 then None else v) vars))"

text \<open>Removing carriage returns in front of line feeds, up to the first NUL; what is behind stays.\<close>

fun strip_cr :: "string \<Rightarrow> string" where
  "strip_cr [] = []"
| "strip_cr (c # s) = (if c = CHR 0x0D \<and> ch_at s 0 = CHR 0x0A then strip_cr s else c # strip_cr s)"

definition crlf_to_lf :: "string \<Rightarrow> nat \<Rightarrow> string \<times> nat" where
  "crlf_to_lf d n =
     (let body = takeWhile (\<lambda>c. c \<noteq> NUL) (take n d); kept = strip_cr body
      in (kept @ drop (length kept) d, n - (length body - length kept)))"

datatype import_cmd = Skip | Delete string | Insert string string

fun parse_value :: "char \<Rightarrow> string \<Rightarrow> string \<times> nat" where
  "parse_value sep [] = ([], 0)"
| "parse_value sep (c # s) =
     (if c = NUL \<or> c = sep then ([], 0)
      else if c = CHR 0x5C \<and> ch_at s 0 \<noteq> NUL then
        (case s of
           [] \<Rightarrow> ([], 0)
         | x # s' \<Rightarrow> let (v, n) = parse_value sep s' in (x # v, n + 2))
      else let (v, n) = parse_value sep s in (c # v, n + 1))"

text \<open>One turn of the loop up to its effect, and the number of characters it moves \<open>dp\<close>.\<close>

definition parse_entry :: "char \<Rightarrow> string \<Rightarrow> import_cmd \<times> nat" where
  "parse_entry sep dp =
     (let blanks = takeWhile isblank dp; dp = drop (length blanks) dp in
      if ch_at dp 0 = CHR ''#'' then
        (Skip, length blanks + length (takeWhile (\<lambda>c. c \<noteq> NUL \<and> c \<noteq> sep) dp) + 1)
      else
        let nm = takeWhile (\<lambda>c. c \<noteq> CHR ''='' \<and> c \<noteq> NUL \<and> c \<noteq> sep) dp;
            dp = drop (length nm) dp
        in if ch_at dp 0 = NUL \<or> ch_at dp 1 = NUL \<or> ch_at dp 0 = sep \<or> ch_at dp 1 = sep then
             (Delete nm, length blanks + length nm + (if ch_at dp 0 = CHR ''='' then 2 else 1))
           else
             let (v, n) = parse_value sep (drop 1 dp)
             in (Insert nm v, length blanks + length nm + 1 + n + 1))"

text \<open>The effect of an entry; \<open>Inl\<close> is the error return for an empty name.\<close>

fun import_step ::
  "env_hooks \<Rightarrow> u32 \<Rightarrow> import_cmd \<Rightarrow> string option list \<Rightarrow> hstate \<Rightarrow> (hstate + string option list \<times> hstate) option" where
  "import_step h flag Skip vars st = Some (Inr (vars, st))"
| "import_step h flag (Delete nm) vars st =
     (let (mine, vars) = drop_var_from_set nm vars in
      if \<not> mine then Some (Inr (vars, st))
      else map_option (\<lambda>(ret, st). Inr (vars, st)) (hdelete_r h nm flag st))"
| "import_step h flag (Insert nm v) vars st =
     (if nm = [] then Some (Inl (st\<lparr>errno := Some EINVAL\<rparr>))
      else let (mine, vars) = drop_var_from_set nm vars in
        if \<not> mine then Some (Inr (vars, st))
        else case hsearch_r h nm (Some v) ENV_ENTER flag st of
          None \<Rightarrow> None
        | Some (ret, rv, st) \<Rightarrow>
            if rv = None then
              map_option (\<lambda>st. Inr (vars, st))
                (hprintf ''himport_r: can't insert \"%s=%s\" into hash table\<newline>''
                  [VStr (Some nm), VStr (Some v)] st)
            else Some (Inr (vars, st)))"

lemma parse_entry_moves: "0 < snd (parse_entry sep dp)"
  by (simp add: parse_entry_def Let_def split: prod.split)

text \<open>The loop; \<open>left\<close> is \<open>data + size - dp\<close>. The result \<open>Inl\<close> is the error return.\<close>

function himport_loop ::
  "env_hooks \<Rightarrow> char \<Rightarrow> u32 \<Rightarrow> string option list \<Rightarrow> string \<Rightarrow> nat \<Rightarrow> hstate \<Rightarrow>
   (hstate + string option list \<times> hstate) option" where
  "himport_loop h sep flag vars dp left st =
     (let (cmd, n) = parse_entry sep dp in
      case import_step h flag cmd vars st of
        None \<Rightarrow> None
      | Some (Inl st) \<Rightarrow> Some (Inl st)
      | Some (Inr (vars, st)) \<Rightarrow>
          if n < left \<and> ch_at (drop n dp) 0 \<noteq> NUL then
            himport_loop h sep flag vars (drop n dp) (left - n) st
          else Some (Inr (vars, st)))"
  by pat_completeness auto
termination
  by (relation "measure (\<lambda>(h, sep, flag, vars, dp, left, st). left)")
    (use parse_entry_moves in \<open>force simp: prod_eq_iff\<close>)+
declare himport_loop.simps [simp del]

text \<open>Variables that were asked for and not found in the text are removed.\<close>

fun import_rest :: "env_hooks \<Rightarrow> u32 \<Rightarrow> string option list \<Rightarrow> hstate \<Rightarrow> hstate option" where
  "import_rest h flag [] st = Some st"
| "import_rest h flag (None # vars) st = import_rest h flag vars st"
| "import_rest h flag (Some v # vars) st =
     (case hdelete_r h v flag st of
        None \<Rightarrow> None
      | Some (ret, st) \<Rightarrow>
          (case hprintf (if ret = 0 then ''WARNING: '%s' neither in running nor in imported env!\<newline>''
                         else ''WARNING: '%s' not in imported env, deleting it!\<newline>'') [VStr (Some v)] st of
             None \<Rightarrow> None
           | Some st \<Rightarrow> import_rest h flag vars st))"

definition CONFIG_ENV_MIN_ENTRIES :: nat where "CONFIG_ENV_MIN_ENTRIES = 64"
definition CONFIG_ENV_MAX_ENTRIES :: nat where "CONFIG_ENV_MAX_ENTRIES = 512"

definition himport_parse ::
  "env_hooks \<Rightarrow> string \<Rightarrow> nat \<Rightarrow> char \<Rightarrow> u32 \<Rightarrow> bool \<Rightarrow> string list \<Rightarrow> hstate \<Rightarrow> (nat \<times> hstate) option" where
  "himport_parse h d n sep flag crlf_is_lf vars st =
     (let (d, n) = (if crlf_is_lf then crlf_to_lf d n else (d, n)) in
      case himport_loop h sep flag (map Some vars) d n st of
        None \<Rightarrow> None
      | Some (Inl st) \<Rightarrow> Some (0, st)
      | Some (Inr (vars, st)) \<Rightarrow>
          if flag AND H_NOCLEAR \<noteq> 0 then Some (1, st)
          else map_option (Pair 1) (import_rest h flag vars st))"

definition himport_r ::
  "env_hooks \<Rightarrow> string \<Rightarrow> nat \<Rightarrow> char \<Rightarrow> u32 \<Rightarrow> bool \<Rightarrow> string list \<Rightarrow> hstate \<Rightarrow> (nat \<times> hstate) option" where
  "himport_r h env n sep flag crlf_is_lf vars st =
     (let (ok, st) = alloc st in
      if \<not> ok then Some (0, st\<lparr>errno := Some ENOMEM\<rparr>)
      else if length env < n then None
      else
        let d = take n env @ [NUL] in
        case (if flag AND H_NOCLEAR = 0 \<and> vars = [] \<and> table st \<noteq> None then hdestroy_r st else Some st) of
          None \<Rightarrow> None
        | Some st \<Rightarrow>
            (case (if table st = None
                   then hcreate_r (of_nat (min CONFIG_ENV_MAX_ENTRIES (CONFIG_ENV_MIN_ENTRIES + n div 8))) st
                   else Some (1, st)) of
               None \<Rightarrow> None
             | Some (created, st) \<Rightarrow>
                 if created = 0 then Some (0, st)
                 else if n = 0 then Some (1, st)
                 else himport_parse h d n sep flag crlf_is_lf vars st))"


subsection \<open>What the export writes\<close>

definition pair_of :: "env_entry_node \<Rightarrow> string \<times> string" where
  "pair_of nd = (the (key (entry nd)), the (data (entry nd)))"

definition env_pairs :: "hstate \<Rightarrow> (string \<times> string) list" where
  "env_pairs st = map pair_of (filter live (case table st of None \<Rightarrow> [] | Some tab \<Rightarrow> tab))"

lemma env_of_pairs: "env_of st = map_of (env_pairs st)"
  by (simp add: env_of_def env_pairs_def pair_of_def [abs_def])

lemma export_scan_all:
  assumes "table st = Some tab"
    "\<forall>i\<in>set is. i < length tab \<and> (live (tab ! i) \<longrightarrow> (\<exists>k d. slot tab i k d \<and> no_nul k \<and> no_nul d))"
  shows "export_scan sep 0 [] is st =
     Some (map pair_of (filter live (map (nth tab) is)),
       sum_list (map (\<lambda>(k, d). length k + counted_length sep d + 2) (map pair_of (filter live (map (nth tab) is)))), st)"
  using assms(2)
proof (induction "is")
  case (Cons i "is")
  have i: "i < length tab" using Cons.prems by simp
  note nd = node_Some [OF assms(1) i]
  have IH: "export_scan sep 0 [] is st = Some (map pair_of (filter live (map (nth tab) is)),
       sum_list (map (\<lambda>(k, d). length k + counted_length sep d + 2) (map pair_of (filter live (map (nth tab) is)))), st)"
    using Cons by simp
  show ?case
  proof (cases "live (tab ! i)")
    case True
    then obtain k d where kd: "slot tab i k d" "no_nul k" "no_nul d" using Cons.prems by auto
    then have "0 < used (tab ! i)" "key (entry (tab ! i)) = Some k" "data (entry (tab ! i)) = Some d"
      "pair_of (tab ! i) = (k, d)" "strlen k = length k"
      by (simp_all add: slot_def pair_of_def strlen_length)
    with True IH nd show ?thesis by simp
  next
    case False
    then have "\<not> 0 < used (tab ! i)" by (simp add: live_def)
    with False IH nd show ?thesis by simp
  qed
qed simp

lemma length_escape: "sep \<noteq> NUL \<Longrightarrow> length (escape sep d) = counted_length sep d"
  by (induction d) (auto simp: escape_def counted_length_def)

lemma length_export:
  assumes "sep \<noteq> NUL"
  shows "length (concat (map (export_line sep) es)) = sum_list (map (\<lambda>(k, d). length k + counted_length sep d + 2) es)"
  using assms by (induction es) (auto simp: export_line_def length_escape)

lemma put_chars_fit:
  "p + length cs \<le> length res \<Longrightarrow> put_chars cs p res = Some (take p res @ cs @ drop (p + length cs) res)"
proof (induction cs arbitrary: p res)
  case (Cons c cs)
  have p: "p < length res" using Cons.prems by simp
  have "put_chars cs (Suc p) (res[p := c]) =
      Some (take (Suc p) (res[p := c]) @ cs @ drop (Suc p + length cs) (res[p := c]))"
    using Cons.prems by (intro Cons.IH) simp
  moreover have "take (Suc p) (res[p := c]) = take p res @ [c]"
    using p by (simp add: take_Suc_conv_app_nth)
  ultimately show ?case
    using p by (simp add: store_def)
qed simp

lemma export_scan_wf:
  assumes "wf_htab st"
  shows "export_scan sep 0 [] [1..<Suc (ht_size st)] st =
     Some (env_pairs st, sum_list (map (\<lambda>(k, d). length k + counted_length sep d + 2) (env_pairs st)), st)"
proof -
  obtain tab where st: "table st = Some tab" and wf: "wf_tab (ht_size st) tab"
    using assms by (rule wf_htabE)
  have len: "length tab = Suc (ht_size st)" using wf_tabD(2) [OF wf] by simp
  have "map (nth tab) [1..<Suc (ht_size st)] = tl tab"
    using len by (simp add: list_eq_iff_nth_eq nth_tl del: upt_Suc)
  moreover have "filter live (tl tab) = filter live tab"
    using len wf_tabD(3) [OF wf] by (cases tab) (auto simp: live_def)
  moreover have "\<forall>i\<in>set [1..<Suc (ht_size st)]. i < length tab \<and>
      (live (tab ! i) \<longrightarrow> (\<exists>k d. slot tab i k d \<and> no_nul k \<and> no_nul d))"
  proof (intro ballI conjI impI)
    fix i assume "i \<in> set [1..<Suc (ht_size st)]"
    then show i: "i < length tab" using len by auto
    assume "live (tab ! i)"
    then show "\<exists>k d. slot tab i k d \<and> no_nul k \<and> no_nul d"
      using wf_tab_live [OF wf i] unfolding live_def by metis
  qed
  ultimately show ?thesis
    using export_scan_all [OF st, of "[1..<Suc (ht_size st)]" sep] by (simp add: env_pairs_def st)
qed

definition export_text :: "char \<Rightarrow> hstate \<Rightarrow> string" where
  "export_text sep st = concat (map (export_line sep) (qsort cmpkey (env_pairs st)))"

lemma hexport_eq:
  assumes "wf_htab st" "allocs st = []" "sep \<noteq> NUL"
  shows "hexport_r sep 0 None 0 [] st = Some (int (length (export_text sep st)) + 1, Some (export_text sep st @ [NUL]), st)"
proof -
  let ?es = "env_pairs st"
  let ?tot = "sum_list (map (\<lambda>(k, d). length k + counted_length sep d + 2) ?es)"
  have "?tot = length (export_text sep st)"
  proof -
    have "mset (qsort cmpkey ?es) = mset ?es" by (rule qsort_mset)
    then have "sum_list (map f (qsort cmpkey ?es)) = sum_list (map f ?es)" for f :: "string \<times> string \<Rightarrow> nat"
      by (metis mset_map sum_mset_sum_list)
    then show ?thesis by (simp add: export_text_def length_export [OF assms(3)])
  qed
  moreover have "put_chars (export_text sep st @ [NUL]) 0 (replicate (length (export_text sep st) + 1) NUL) =
      Some (export_text sep st @ [NUL])"
    by (subst put_chars_fit) simp_all
  ultimately show ?thesis
    unfolding hexport_r_def export_scan_wf [OF assms(1)] option.case prod.case Let_def
    by (simp add: export_buffer_def alloc_def assms(2) flip: export_text_def)
qed


subsection \<open>The import reads the exported text back\<close>

definition importable :: "char \<Rightarrow> string \<times> string \<Rightarrow> bool" where
  "importable sep e \<longleftrightarrow> fst e \<noteq> [] \<and> no_nul (fst e) \<and> CHR ''='' \<notin> set (fst e) \<and> sep \<notin> set (fst e) \<and>
     \<not> isblank (hd (fst e)) \<and> hd (fst e) \<noteq> CHR ''#'' \<and> snd e \<noteq> [] \<and> no_nul (snd e)"

definition text_separator :: "char \<Rightarrow> bool" where
  "text_separator sep \<longleftrightarrow> sep \<noteq> NUL \<and> sep \<noteq> CHR ''='' \<and> sep \<noteq> CHR 0x5C"

lemma parse_value_escape:
  assumes "text_separator sep"
  shows "no_nul d \<Longrightarrow> parse_value sep (escape sep d @ sep # rest) = (d, length (escape sep d))"
proof (induction d)
  case Nil
  then show ?case by (simp add: escape_def)
next
  case (Cons c d)
  then show ?case
    using assms by (auto simp: escape_def needs_escape_def text_separator_def)
qed

lemma parse_entry_line:
  assumes sep: "text_separator sep" and imp: "importable sep (k, d)"
  shows "parse_entry sep (export_line sep (k, d) @ rest) = (Insert k d, length (export_line sep (k, d)))"
proof -
  obtain c k' where k: "k = c # k'" using imp by (cases k) (auto simp: importable_def)
  obtain x d' where d: "d = x # d'" using imp by (cases d) (auto simp: importable_def)
  have blanks: "takeWhile isblank (k @ s) = []" for s
    using imp k by (simp add: importable_def)
  have comment: "ch_at (k @ s) 0 \<noteq> CHR ''#''" for s
    using imp k by (simp add: importable_def)
  have nm: "takeWhile (\<lambda>c. c \<noteq> CHR ''='' \<and> c \<noteq> NUL \<and> c \<noteq> sep) (k @ CHR ''='' # s) = k" for s
    using imp by (subst takeWhile_append2) (auto simp: importable_def no_nul_def)
  have esc: "ch_at (escape sep d @ s) 0 \<noteq> NUL \<and> ch_at (escape sep d @ s) 0 \<noteq> sep" for s
    using imp sep d by (auto simp: escape_def needs_escape_def importable_def text_separator_def)
  have val: "parse_value sep (escape sep d @ sep # rest) = (d, length (escape sep d))"
    using imp sep by (intro parse_value_escape) (auto simp: importable_def)
  have line: "export_line sep (k, d) @ rest = k @ CHR ''='' # escape sep d @ sep # rest"
    by (simp add: export_line_def)
  have "CHR ''='' \<noteq> sep" using sep by (auto simp: text_separator_def)
  then show ?thesis
    unfolding parse_entry_def line blanks Let_def
    using comment nm esc val sep by (simp add: export_line_def text_separator_def)
qed

lemma hput_accepted:
  assumes "store_inv h st" "no_nul k" "no_nul d" "k \<in> dom (env_of st) \<or> card (dom (env_of st)) < ht_size st"
  shows "\<exists>ret i st'. hsearch_r h k (Some d) ENV_ENTER flag st = Some (ret, Some i, st') \<and> hput h flag k d st = Some st'"
proof -
  have inv: "wf_htab st" "allocs st = []" "permissive h st"
    using assms(1) by (simp_all add: store_inv_def)
  obtain ret rv st' where r: "hsearch_r h k (Some d) ENV_ENTER flag st = Some (ret, rv, st')" "rv \<noteq> None"
    using hsearch_enter [OF inv(1) assms(2,3) inv(2), of h flag] assms(4) filled_card(2) [OF inv(1)] inv(3)
    unfolding permissive_def by (metis less_irrefl)
  then show ?thesis by (auto simp: hput_def)
qed

lemma himport_loop_fold:
  assumes "text_separator sep" "L \<noteq> []" "\<forall>e\<in>set L. importable sep e" "store_inv h st"
    "card (dom (env_of st)) + length L \<le> ht_size st"
    "length (concat (map (export_line sep) L)) \<le> left"
  shows "himport_loop h sep flag [] (concat (map (export_line sep) L) @ NUL # rest) left st =
     map_option (\<lambda>st. Inr ([], st)) (fold_opt (\<lambda>(k, d). hput h flag k d) L st)"
  using assms(2-)
proof (induction L arbitrary: st left)
  case (Cons e L)
  obtain k d where e: "e = (k, d)" by (cases e)
  have imp: "importable sep (k, d)" using Cons.prems e by simp
  then have kd: "k \<noteq> []" "no_nul k" "no_nul d" by (simp_all add: importable_def)
  let ?line = "export_line sep (k, d)" and ?text = "concat (map (export_line sep) L)"
  have room: "k \<in> dom (env_of st) \<or> card (dom (env_of st)) < ht_size st" using Cons.prems by simp
  obtain ret i st1 where st1: "hsearch_r h k (Some d) ENV_ENTER flag st = Some (ret, Some i, st1)" "hput h flag k d st = Some st1"
    using hput_accepted [OF Cons.prems(3) kd(2,3) room] by blast
  then have s: "store_inv h st1" "env_of st1 = (env_of st)(k \<mapsto> d)" "ht_size st1 = ht_size st"
    using env_store.put [OF Cons.prems(3) kd(2,3) room, of flag] by auto
  have step: "import_step h flag (Insert k d) [] st = Some (Inr ([], st1))"
    using st1 kd(1) by (simp add: drop_var_from_set_def)
  note parse = parse_entry_line [OF assms(1) imp, of "?text @ NUL # rest"]
  have loop: "himport_loop h sep flag [] (?line @ ?text @ NUL # rest) left st =
      (if length ?line < left \<and> ch_at (?text @ NUL # rest) 0 \<noteq> NUL
       then himport_loop h sep flag [] (?text @ NUL # rest) (left - length ?line) st1 else Some (Inr ([], st1)))"
    by (subst himport_loop.simps) (simp add: parse step del: import_step.simps)
  show ?case
  proof (cases L)
    case Nil
    with loop st1(2) e show ?thesis by simp
  next
    case L: (Cons e' L')
    have "importable sep e'" using Cons.prems L by simp
    then have more: "ch_at (?text @ NUL # rest) 0 \<noteq> NUL" "0 < length ?text"
      using L by (cases "fst e'"; auto simp: importable_def export_line_def)+
    have len: "length ?line + length ?text \<le> left" using Cons.prems(5) e by simp
    have "card (dom (env_of st1)) \<le> Suc (card (dom (env_of st)))"
      using s(2) env_store.finite_env [OF Cons.prems(3)] by (simp add: card_insert_if)
    then have "card (dom (env_of st1)) + length L \<le> ht_size st1"
      using Cons.prems(4) s(3) by simp
    then have "himport_loop h sep flag [] (?text @ NUL # rest) (left - length ?line) st1 =
        map_option (\<lambda>st. Inr ([], st)) (fold_opt (\<lambda>(k, d). hput h flag k d) L st1)"
      using Cons.IH [OF _ _ s(1), of "left - length ?line"] Cons.prems(2) L len by simp
    with loop more len st1(2) e show ?thesis by simp
  qed
qed simp

text \<open>The whole import of an exported text into a new table.\<close>

lemma himport_exported:
  assumes sep: "text_separator sep" and imp: "\<forall>e\<in>set L. importable sep e" and few: "length L \<le> 64"
    and st: "table st = None" "allocs st = []" "permissive h st"
  defines "txt \<equiv> concat (map (export_line sep) L)"
  shows "\<exists>st'. himport_r h (txt @ [NUL]) (length txt + 1) sep 0 False [] st = Some (1, st') \<and>
     store_inv h st' \<and> env_of st' = map_of (rev L)"
proof -
  define n where "n = min CONFIG_ENV_MAX_ENTRIES (CONFIG_ENV_MIN_ENTRIES + (length txt + 1) div 8)"
  have n: "64 \<le> n" "n \<le> 512" by (simp_all add: n_def CONFIG_ENV_MAX_ENTRIES_def CONFIG_ENV_MIN_ENTRIES_def)
  have u: "unat (of_nat n :: u32) = n"
    using n(2) by (simp add: unsigned_of_nat take_bit_nat_eq_self)
  have "5 \<le> unat (of_nat n :: u32)" "unat (of_nat n :: u32) \<le> 520" using n by (simp_all add: u)
  then obtain st1 where st1: "hcreate_r (of_nat n) st = Some (1, st1)" "wf_htab st1" "env_of st1 = Map.empty"
    "n \<le> ht_size st1" "allocs st1 = []" "change_ok st1 = change_ok st"
    using hcreate_spec [OF st(1,2), of "of_nat n"] unfolding u by blast
  have inv: "store_inv h st1"
    using st1 st(3) by (simp add: store_inv_def permissive_def denies_def)
  have r: "himport_r h (txt @ [NUL]) (length txt + 1) sep 0 False [] st =
      himport_parse h (txt @ [NUL, NUL]) (length txt + 1) sep 0 False [] st1"
    using st st1(1) unfolding himport_r_def n_def [symmetric] by (simp add: alloc_def)
  have "\<exists>st'. himport_loop h sep 0 [] (txt @ [NUL, NUL]) (length txt + 1) st1 = Some (Inr ([], st')) \<and>
      store_inv h st' \<and> env_of st' = map_of (rev L)"
  proof (cases "L = []")
    case True
    obtain st' where st': "hdel h 0 [] st1 = Some st'" "store_inv h st'" "env_of st' = (env_of st1)([] := None)"
      using env_store.del [OF inv, of "[]" 0] by auto
    then obtain ret where "hdelete_r h [] 0 st1 = Some (ret, st')" by (auto simp: hdel_def)
    moreover have "parse_entry sep [NUL, NUL] = (Delete [], 1)"
      by (simp add: parse_entry_def isblank_def)
    ultimately have "himport_loop h sep 0 [] [NUL, NUL] 1 st1 = Some (Inr ([], st'))"
      by (subst himport_loop.simps) (simp add: drop_var_from_set_def)
    with True st' st1(3) show ?thesis by (simp add: txt_def)
  next
    case False
    have room: "card (dom (env_of st1)) + length L \<le> ht_size st1"
      using few n(1) st1(3,4) by simp
    have "\<forall>(k, d)\<in>set L. no_nul k \<and> no_nul d" using imp by (auto simp: importable_def)
    then obtain st' where st': "fold_opt (\<lambda>(k, d). hput h 0 k d) L st1 = Some st'" "store_inv h st'"
      "env_of st' = env_of st1 ++ map_of (rev L)"
      using env_store.put_list [OF inv _ room, of 0] by blast
    have "himport_loop h sep 0 [] (txt @ NUL # [NUL]) (length txt + 1) st1 =
        map_option (\<lambda>st. Inr ([], st)) (fold_opt (\<lambda>(k, d). hput h 0 k d) L st1)"
      unfolding txt_def by (rule himport_loop_fold [OF sep False imp inv room]) simp
    with st' st1(3) show ?thesis by simp
  qed
  then show ?thesis
    unfolding r by (auto simp: himport_parse_def)
qed

subsection \<open>Export followed by import\<close>


lemma env_pairs_distinct: "wf_htab st \<Longrightarrow> distinct (map fst (env_pairs st))"
proof (erule wf_htabE)
  fix tab assume "table st = Some tab" "wf_tab (ht_size st) tab"
  then show ?thesis
    using live_keys_distinct [of "ht_size st" tab] by (simp add: env_pairs_def pair_of_def comp_def)
qed

lemma env_of_mem: "wf_htab st \<Longrightarrow> (k, d) \<in> set (env_pairs st) \<longleftrightarrow> env_of st k = Some d"
  by (simp add: env_of_pairs env_pairs_distinct)

lemma length_env_pairs: "wf_htab st \<Longrightarrow> length (env_pairs st) = card (dom (env_of st))"
  using distinct_card [OF env_pairs_distinct] by (simp add: env_of_pairs dom_map_of_conv_image_fst)

lemma put_chars_overflow: "length res < p + length cs \<Longrightarrow> p \<le> length res \<Longrightarrow> put_chars cs p res = None"
proof (induction cs arbitrary: p res)
  case (Cons c cs)
  then show ?case by (cases "p < length res") (auto simp: store_def)
qed simp

lemma length_escape_ge: "length d \<le> length (escape sep d)"
  by (induction d) (auto simp: escape_def)

lemma length_escape_gt: "CHR 0x5C \<in> set d \<Longrightarrow> length d < length (escape sep d)"
proof (induction d)
  case (Cons c d)
  then show ?case
    using length_escape_ge [of d sep] by (auto simp: escape_def needs_escape_def)
qed simp

lemma sum_list_less:
  fixes f g :: "'a \<Rightarrow> nat"
  shows "\<forall>x\<in>set xs. f x \<le> g x \<Longrightarrow> x \<in> set xs \<Longrightarrow> f x < g x \<Longrightarrow> sum_list (map f xs) < sum_list (map g xs)"
proof (induction xs)
  case (Cons y xs)
  moreover have "sum_list (map f xs) \<le> sum_list (map g xs)"
    using Cons.prems(1) by (intro sum_list_mono) simp
  ultimately show ?case by (auto intro: add_less_le_mono add_le_less_mono)
qed simp

lemma export_import:
  assumes st: "wf_htab st" "allocs st = []" and sep: "text_separator sep"
    and imp: "\<And>k d. env_of st k = Some d \<Longrightarrow> importable sep (k, d)" and few: "card (dom (env_of st)) \<le> 64"
    and new: "table st2 = None" "allocs st2 = []" "permissive h st2"
  shows "\<exists>n buf st3. hexport_r sep 0 None 0 [] st = Some (int n, Some buf, st) \<and>
     himport_r h buf n sep 0 False [] st2 = Some (1, st3) \<and> env_of st3 = env_of st"
proof -
  let ?L = "qsort cmpkey (env_pairs st)"
  have ms: "mset ?L = mset (env_pairs st)" by (rule qsort_mset)
  then have set: "set ?L = set (env_pairs st)" and len: "length ?L = length (env_pairs st)"
    by (metis set_mset_mset, metis size_mset)
  have dist: "distinct (map fst ?L)"
    using env_pairs_distinct [OF st(1)] ms by (metis mset_eq_imp_distinct_iff mset_map)
  have "\<forall>e\<in>set ?L. importable sep e"
    using imp env_of_mem [OF st(1)] set by auto
  then obtain st3 where st3: "himport_r h (export_text sep st @ [NUL]) (length (export_text sep st) + 1) sep 0 False [] st2 = Some (1, st3)"
    "env_of st3 = map_of (rev ?L)"
    using himport_exported [OF sep _ _ new, of ?L] few len length_env_pairs [OF st(1)]
    unfolding export_text_def by auto
  have "map_of (rev ?L) = map_of (env_pairs st)"
    using dist env_pairs_distinct [OF st(1)] set by (intro iffD2 [OF map_of_inject_set]) (auto simp: rev_map [symmetric])
  then have "env_of st3 = env_of st" using st3(2) by (simp add: env_of_pairs)
  moreover have "text_separator sep \<Longrightarrow> sep \<noteq> NUL" by (simp add: text_separator_def)
  ultimately show ?thesis
    using st3(1) hexport_eq [OF st] sep by (intro exI [of _ "length (export_text sep st) + 1"]) auto
qed

lemma hexport_overflow:
  assumes st: "wf_htab st" "allocs st = []" and d: "env_of st k = Some d" "CHR 0x5C \<in> set d"
  shows "hexport_r NUL 0 None 0 [] st = None"
proof -
  let ?es = "env_pairs st"
  let ?tot = "sum_list (map (\<lambda>(k, d). length k + counted_length NUL d + 2) ?es)"
  let ?text = "concat (map (export_line NUL) (qsort cmpkey ?es))"
  have mem: "(k, d) \<in> set ?es" using env_of_mem [OF st(1)] d(1) by simp
  have nn: "no_nul d'" if "(k', d') \<in> set ?es" for k' d'
  proof -
    obtain tab where tab: "table st = Some tab" and wf: "wf_tab (ht_size st) tab"
      using st(1) by (rule wf_htabE)
    have "env_of st k' = Some d'" using that env_of_mem [OF st(1)] by simp
    then show ?thesis using env_of_Some [OF tab wf] slot_hash(3) [OF wf] by blast
  qed
  have "?tot < sum_list (map (\<lambda>e. length (export_line NUL e)) ?es)"
  proof (rule sum_list_less [OF _ mem])
    show "\<forall>x\<in>set ?es. (case x of (k, d) \<Rightarrow> length k + counted_length NUL d + 2) \<le> length (export_line NUL x)"
    proof (intro ballI, clarify)
      fix k' d' assume "(k', d') \<in> set ?es"
      then show "length k' + counted_length NUL d' + 2 \<le> length (export_line NUL (k', d'))"
        using nn length_escape_ge [of d' NUL] by (simp add: export_line_def counted_length_def strlen_length)
    qed
    show "(case (k, d) of (k, d) \<Rightarrow> length k + counted_length NUL d + 2) < length (export_line NUL (k, d))"
      using nn [OF mem] length_escape_gt [OF d(2), of NUL] by (simp add: export_line_def counted_length_def strlen_length)
  qed
  also have "\<dots> = length ?text"
  proof -
    have "mset (qsort cmpkey ?es) = mset ?es" by (rule qsort_mset)
    then have "sum_list (map f (qsort cmpkey ?es)) = sum_list (map f ?es)" for f :: "string \<times> string \<Rightarrow> nat"
      by (metis mset_map sum_mset_sum_list)
    then show ?thesis by (simp add: length_concat comp_def)
  qed
  finally have "put_chars (?text @ [NUL]) 0 (replicate (?tot + 1) NUL) = None"
    by (intro put_chars_overflow) simp_all
  then show ?thesis
    unfolding hexport_r_def export_scan_wf [OF st(1)] option.case prod.case Let_def
    by (simp add: export_buffer_def alloc_def st(2))
qed

subsection \<open>Properties\<close>

text \<open>
  (C23) Import is the inverse of export. For every environment of at most 64 variables with non-empty
  values, whose names can be written in the format, and every separator other than NUL, the equals sign
  and the backslash, the exported text is written without overflow, and reading it into a new table
  succeeds and gives the same environment, also when values contain separators and backslashes.
\<close>

theorem export_import_roundtrip:
  assumes "wf_htab st" "allocs st = []" "text_separator sep"
    "\<And>k d. env_of st k = Some d \<Longrightarrow> importable sep (k, d)" "card (dom (env_of st)) \<le> 64"
    "table st2 = None" "allocs st2 = []" "permissive h st2"
  shows "\<exists>n buf st3. hexport_r sep 0 None 0 [] st = Some (int n, Some buf, st) \<and>
     himport_r h buf n sep 0 False [] st2 = Some (1, st3) \<and> env_of st3 = env_of st"
  using assms by (rule export_import)

lemma demo_entry:
  assumes "no_nul k" "no_nul d"
  obtains st where "store_inv demo_hooks st" "env_of st = [k \<mapsto> d]"
proof -
  have "\<exists>st. hput demo_hooks 0 k d demo_table = Some st \<and> store_inv demo_hooks st \<and>
      env_of st = (env_of demo_table)(k \<mapsto> d) \<and> ht_size st = ht_size demo_table"
    using demo_table_inv assms by (intro env_store.put) (simp_all add: demo_table_def)
  then show thesis using that demo_table_inv(2) by auto
qed

theorem export_import_roundtrip_witness:
  "\<exists>st n buf st3. env_of st = [''bootcmd'' \<mapsto> ''a\<newline>b''] \<and>
     hexport_r newline 0 None 0 [] st = Some (int n, Some buf, st) \<and>
     himport_r demo_hooks buf n newline 0 False [] (demo_table\<lparr>table := None\<rparr>) = Some (1, st3) \<and>
     env_of st3 = [''bootcmd'' \<mapsto> ''a\<newline>b'']"
proof -
  obtain st where st: "store_inv demo_hooks st" "env_of st = [''bootcmd'' \<mapsto> ''a\<newline>b'']"
    by (rule demo_entry [of "''bootcmd''" "''a\<newline>b''"]) simp_all
  have "permissive demo_hooks (demo_table\<lparr>table := None\<rparr>)"
    using demo_table_inv(1) by (simp add: store_inv_def permissive_def denies_def)
  moreover have "importable newline (k, d)" if "env_of st k = Some d" for k d
    using that st(2) by (auto simp: importable_def isblank_def split: if_splits)
  ultimately have "\<exists>n buf st3. hexport_r newline 0 None 0 [] st = Some (int n, Some buf, st) \<and>
     himport_r demo_hooks buf n newline 0 False [] (demo_table\<lparr>table := None\<rparr>) = Some (1, st3) \<and> env_of st3 = env_of st"
    using st by (intro export_import_roundtrip) (simp_all add: store_inv_def text_separator_def demo_table_def)
  with st(2) show ?thesis by metis
qed



end
