(* ===== verification/TestIo.thy ===== *)
theory TestIo
  imports Eventlog
begin

text \<open>
  What the device tests of \<^verbatim>\<open>test-framework/testsuite\<close> share: the accesses to memory-mapped
  words, and the way they fill an event before they report it.

  The hardware is a parameter: a record of the accesses the tests perform on it. An access to a
  \<open>volatile\<close> word, \<open>readl\<close>, \<open>writel\<close> and their raw variants are one access of the bus each, in
  the order of the program.
\<close>

record 'hw bus =
  bus_read :: "u32 \<Rightarrow> 'hw \<Rightarrow> u32 \<times> 'hw"
  bus_write :: "u32 \<Rightarrow> u32 \<Rightarrow> 'hw \<Rightarrow> 'hw"
  bus_flush :: "'hw \<Rightarrow> 'hw"

definition on_hw :: "('hw \<Rightarrow> 'r \<times> 'hw) \<Rightarrow> 'hw io \<Rightarrow> 'r \<times> 'hw io" where
  "on_hw f s = (let (r, h) = f (hw s) in (r, s\<lparr>hw := h\<rparr>))"

definition readl :: "'hw bus \<Rightarrow> u32 \<Rightarrow> 'hw io \<Rightarrow> u32 \<times> 'hw io" where
  "readl bus a s = on_hw (bus_read bus a) s"

definition writel :: "'hw bus \<Rightarrow> u32 \<Rightarrow> u32 \<Rightarrow> 'hw io \<Rightarrow> 'hw io" where
  "writel bus a v s = s\<lparr>hw := bus_write bus a v (hw s)\<rparr>"

definition flush_dcache_all :: "'hw bus \<Rightarrow> 'hw io \<Rightarrow> 'hw io" where
  "flush_dcache_all bus s = s\<lparr>hw := bus_flush bus (hw s)\<rparr>"

text \<open>\<open>event.eventType = ...; event.addressDim = ...; event.address[0] = ...;\<close> and so on.\<close>

definition fill_event :: "DiagErrEventIDTypes_e \<Rightarrow> u32 list \<Rightarrow> DiagEventParams_s \<Rightarrow> DiagEventParams_s" where
  "fill_event e as ev =
     ev\<lparr>eventType := event_code e, addressDim := of_nat (length as),
        address := as @ drop (length as) (address ev)\<rparr>"

text \<open>A step that touches the hardware only.\<close>

definition hw_only :: "'hw io \<Rightarrow> 'hw io \<Rightarrow> bool" where
  "hw_only s s' \<longleftrightarrow> s' = s\<lparr>hw := hw s'\<rparr>"

lemma hw_only_refl [simp]: "hw_only s s"
  by (simp add: hw_only_def)

lemma hw_only_trans: "hw_only s s' \<Longrightarrow> hw_only s' s'' \<Longrightarrow> hw_only s s''"
  unfolding hw_only_def by (metis io.surjective io.update_convs(5))

lemma hw_only_access [simp]:
  "hw_only s (snd (on_hw f s))"
  "hw_only s (snd (readl bus a s))"
  "hw_only s (writel bus a v s)"
  "hw_only s (flush_dcache_all bus s)"
  by (simp_all add: hw_only_def on_hw_def readl_def writel_def flush_dcache_all_def case_prod_beta)

lemma hw_only_fields:
  assumes "hw_only s s'"
  shows "console s' = console s" "ub s' = ub s" "s_logMask s' = s_logMask s" "s_logMode s' = s_logMode s"
    "curTestId s' = curTestId s"
  using assms by (metis hw_only_def io.update_convs(5) io.select_convs io.surjective)+

text \<open>A failing test reports its event; a report of at most six addresses only logs.\<close>

lemma log_fill_event:
  "length as \<le> DIAG_DIM_ADDRESS_SET_EVENT \<Longrightarrow> log_step s (ReportEvent (fill_event e as (Event_Init tid s0)) s)"
  by (rule log_report)
    (simp_all add: fill_event_def Event_Init_def DIAG_DIM_ADDRESS_SET_EVENT_def unat_of_nat)

end
