(* ===== verification/I2cUclass.thy ===== *)
theory I2cUclass
  imports TestIo
begin

text \<open>
  The I2C bus interface of the driver model: \<^verbatim>\<open>u-boot/drivers/i2c/i2c-uclass.c\<close>, \<^verbatim>\<open>include/i2c.h\<close>.

  Below the interface is the driver of a bus, reached through its table of operations, and the
  core of the driver model; both are parameters. A bus is a number; a chip is a child of its bus,
  named by the bus and its position among the children, and carries its platform data. A result
  of \<open>None\<close> is undefined behaviour: an offset longer than its buffer, or a shift by the whole width.
\<close>

subsection \<open>Data\<close>

definition E_INVAL :: int where "E_INVAL = 22"
definition E_NODEV :: int where "E_NODEV = 19"
definition E_NOSYS :: int where "E_NOSYS = 38"
definition E_NOMEM :: int where "E_NOMEM = 12"

definition DM_I2C_CHIP_10BIT :: u32 where "DM_I2C_CHIP_10BIT = 1"
definition DM_I2C_CHIP_RD_ADDRESS :: u32 where "DM_I2C_CHIP_RD_ADDRESS = 2"
definition DM_I2C_CHIP_WR_ADDRESS :: u32 where "DM_I2C_CHIP_WR_ADDRESS = 4"

definition I2C_M_TEN :: u32 where "I2C_M_TEN = 0x10"
definition I2C_M_RD :: u32 where "I2C_M_RD = 1"

definition I2C_MAX_OFFSET_LEN :: nat where "I2C_MAX_OFFSET_LEN = 4"

record dm_i2c_chip =
  chip_addr :: u32
  offset_len :: u32
  chip_flags :: u32
  chip_addr_offset_mask :: u32

text \<open>The buffer of a message that writes; a message that reads has no content yet.\<close>

record i2c_msg =
  msg_addr :: u32
  msg_flags :: u32
  msg_len :: u32
  msg_buf :: "u8 list"

text \<open>
  The operations of a driver, some of them optional. A transfer returns the bytes that it stores
  in the buffer of a message that reads.
\<close>

record 'd dm_i2c_ops =
  xfer :: "(nat \<Rightarrow> i2c_msg list \<Rightarrow> 'd \<Rightarrow> int \<times> u8 list \<times> 'd) option"
  probe_chip :: "(nat \<Rightarrow> u32 \<Rightarrow> u32 \<Rightarrow> 'd \<Rightarrow> int \<times> 'd) option"
  set_bus_speed :: "(nat \<Rightarrow> u32 \<Rightarrow> 'd \<Rightarrow> int \<times> 'd) option"
  get_bus_speed :: "(nat \<Rightarrow> 'd \<Rightarrow> int \<times> 'd) option"
  set_flags :: "(nat \<times> nat \<Rightarrow> u32 \<Rightarrow> 'd \<Rightarrow> int \<times> 'd) option"

text \<open>
  The core of the driver model, as far as the interface calls it. \<open>device_bind_driver\<close> returns its
  error code; the new device is the last child of its parent.
\<close>

record 'd dm_core =
  i2c_get_ops :: "nat \<Rightarrow> 'd dm_i2c_ops"
  uclass_get_device_by_seq :: "int \<Rightarrow> 'd \<Rightarrow> int \<times> nat \<times> 'd"
  device_probe :: "nat \<times> nat \<Rightarrow> 'd \<Rightarrow> int \<times> 'd"
  device_bind_driver :: "nat \<Rightarrow> string \<Rightarrow> 'd \<Rightarrow> int \<times> 'd"
  malloc_ok :: "nat \<Rightarrow> 'd \<Rightarrow> bool \<times> 'd"

text \<open>
  The state: the platform data of the children of each bus, the speed of each bus, the current bus
  of \<^verbatim>\<open>i2c_utils.c\<close>, the buffer of the EEPROM test that outlives a run, and everything behind the
  drivers.
\<close>

record 'd i2c_sys =
  children :: "nat \<Rightarrow> dm_i2c_chip list"
  speed_hz :: "nat \<Rightarrow> u32"
  i2c_cur_bus :: "nat option"
  i2c_eeprom_testbuf2 :: "u8 list"
  rest :: 'd

definition on_rest :: "('d \<Rightarrow> 'r \<times> 'd) \<Rightarrow> 'd i2c_sys \<Rightarrow> 'r \<times> 'd i2c_sys" where
  "on_rest f sys = (let (r, d) = f (rest sys) in (r, sys\<lparr>rest := d\<rparr>))"

definition parent_platdata :: "nat \<times> nat \<Rightarrow> 'd i2c_sys \<Rightarrow> dm_i2c_chip" where
  "parent_platdata dev sys = children sys (fst dev) ! snd dev"

definition update_chip :: "nat \<times> nat \<Rightarrow> (dm_i2c_chip \<Rightarrow> dm_i2c_chip) \<Rightarrow> 'd i2c_sys \<Rightarrow> 'd i2c_sys" where
  "update_chip dev f sys =
     sys\<lparr>children := (children sys)(fst dev := (children sys (fst dev))[snd dev := f (parent_platdata dev sys)])\<rparr>"

subsection \<open>Transfers\<close>

definition offset_bytes :: "nat \<Rightarrow> u32 \<Rightarrow> u8 list" where
  "offset_bytes n offset = map (\<lambda>k. ucast (drop_bit (8 * k) offset)) (rev [0..<n])"

text \<open>The flag of the result is set when there is an offset.\<close>

definition i2c_setup_offset :: "dm_i2c_chip \<Rightarrow> u32 \<Rightarrow> (bool \<times> i2c_msg) option" where
  "i2c_setup_offset chip offset =
     (let n = unat (offset_len chip) in
      if n > I2C_MAX_OFFSET_LEN \<or> chip_addr_offset_mask chip \<noteq> 0 \<and> n = 4 then None
      else Some (n \<noteq> 0,
        \<lparr>msg_addr =
           (if chip_addr_offset_mask chip \<noteq> 0 then
              chip_addr chip OR (drop_bit (8 * n) offset AND chip_addr_offset_mask chip)
            else chip_addr chip),
         msg_flags = (if chip_flags chip AND DM_I2C_CHIP_10BIT \<noteq> 0 then I2C_M_TEN else 0),
         msg_len = offset_len chip,
         msg_buf = offset_bytes n offset\<rparr>))"

text \<open>What a transfer leaves in the buffer of the caller.\<close>

definition store_bytes :: "u8 list \<Rightarrow> u8 list \<Rightarrow> u8 list" where
  "store_bytes bytes buffer = take (length buffer) bytes @ drop (length bytes) buffer"

definition call_xfer ::
  "(nat \<Rightarrow> i2c_msg list \<Rightarrow> 'd \<Rightarrow> int \<times> u8 list \<times> 'd) \<Rightarrow> nat \<Rightarrow> i2c_msg list \<Rightarrow> 'd i2c_sys \<Rightarrow>
   int \<times> u8 list \<times> 'd i2c_sys" where
  "call_xfer f bus msgs sys =
     (let (ret, bytes, d) = f bus msgs (rest sys) in (ret, bytes, sys\<lparr>rest := d\<rparr>))"

text \<open>The loops over the bytes of a buffer; \<open>done_bytes\<close> are those already read.\<close>

fun i2c_read_bytewise ::
  "(nat \<Rightarrow> i2c_msg list \<Rightarrow> 'd \<Rightarrow> int \<times> u8 list \<times> 'd) \<Rightarrow> nat \<times> nat \<Rightarrow> u32 \<Rightarrow> u8 list \<Rightarrow> 'd i2c_sys \<Rightarrow>
   (int \<times> u8 list \<times> 'd i2c_sys) option" where
  "i2c_read_bytewise f dev offset [] sys = Some (0, [], sys)"
| "i2c_read_bytewise f dev offset (b # buffer) sys =
     (case i2c_setup_offset (parent_platdata dev sys) offset of
        None \<Rightarrow> None
      | Some (False, _) \<Rightarrow> Some (- E_INVAL, b # buffer, sys)
      | Some (True, msg) \<Rightarrow>
          let (ret, bytes, sys) = call_xfer f (fst dev)
                [msg, \<lparr>msg_addr = msg_addr msg, msg_flags = msg_flags msg OR I2C_M_RD, msg_len = 1, msg_buf = []\<rparr>] sys;
              b = hd (store_bytes bytes [b])
          in if ret \<noteq> 0 then Some (ret, b # buffer, sys)
             else map_option (\<lambda>(r, bs, s). (r, b # bs, s)) (i2c_read_bytewise f dev (offset + 1) buffer sys))"

fun i2c_write_bytewise ::
  "(nat \<Rightarrow> i2c_msg list \<Rightarrow> 'd \<Rightarrow> int \<times> u8 list \<times> 'd) \<Rightarrow> nat \<times> nat \<Rightarrow> u32 \<Rightarrow> u8 list \<Rightarrow> 'd i2c_sys \<Rightarrow>
   (int \<times> 'd i2c_sys) option" where
  "i2c_write_bytewise f dev offset [] sys = Some (0, sys)"
| "i2c_write_bytewise f dev offset (b # buffer) sys =
     (case i2c_setup_offset (parent_platdata dev sys) offset of
        None \<Rightarrow> None
      | Some (False, _) \<Rightarrow> Some (- E_INVAL, sys)
      | Some (True, msg) \<Rightarrow>
          let (ret, _, sys) = call_xfer f (fst dev)
                [msg\<lparr>msg_len := msg_len msg + 1, msg_buf := msg_buf msg @ [b]\<rparr>] sys
          in if ret \<noteq> 0 then Some (ret, sys)
             else i2c_write_bytewise f dev (offset + 1) buffer sys)"

definition dm_i2c_read ::
  "'d dm_core \<Rightarrow> nat \<times> nat \<Rightarrow> u32 \<Rightarrow> u8 list \<Rightarrow> 'd i2c_sys \<Rightarrow> (int \<times> u8 list \<times> 'd i2c_sys) option" where
  "dm_i2c_read dm dev offset buffer sys =
     (let chip = parent_platdata dev sys in
      case xfer (i2c_get_ops dm (fst dev)) of
        None \<Rightarrow> Some (- E_NOSYS, buffer, sys)
      | Some f \<Rightarrow>
          if chip_flags chip AND DM_I2C_CHIP_RD_ADDRESS \<noteq> 0 then i2c_read_bytewise f dev offset buffer sys
          else case i2c_setup_offset chip offset of
            None \<Rightarrow> None
          | Some (has_offset, msg) \<Rightarrow>
              let rd = \<lparr>msg_addr = msg_addr msg,
                        msg_flags = (if chip_flags chip AND DM_I2C_CHIP_10BIT \<noteq> 0 then I2C_M_TEN else 0) OR I2C_M_RD,
                        msg_len = of_nat (length buffer), msg_buf = []\<rparr>;
                  msgs = (if has_offset then [msg] else []) @ (if buffer \<noteq> [] then [rd] else []);
                  (ret, bytes, sys) = call_xfer f (fst dev) msgs sys
              in Some (ret, store_bytes bytes buffer, sys))"

text \<open>A message of less than 64 bytes is built on the stack, a longer one on the heap.\<close>

definition dm_i2c_write ::
  "'d dm_core \<Rightarrow> nat \<times> nat \<Rightarrow> u32 \<Rightarrow> u8 list \<Rightarrow> 'd i2c_sys \<Rightarrow> (int \<times> 'd i2c_sys) option" where
  "dm_i2c_write dm dev offset buffer sys =
     (let chip = parent_platdata dev sys; len = length buffer in
      case xfer (i2c_get_ops dm (fst dev)) of
        None \<Rightarrow> Some (- E_NOSYS, sys)
      | Some f \<Rightarrow>
          if chip_flags chip AND DM_I2C_CHIP_WR_ADDRESS \<noteq> 0 then i2c_write_bytewise f dev offset buffer sys
          else
            let (ok, sys) = (if len < 64 then (True, sys)
                             else on_rest (malloc_ok dm (I2C_MAX_OFFSET_LEN + len)) sys)
            in if \<not> ok then Some (- E_NOMEM, sys)
               else case i2c_setup_offset chip offset of
                 None \<Rightarrow> None
               | Some (_, msg) \<Rightarrow>
                   let (ret, _, sys) = call_xfer f (fst dev)
                         [msg\<lparr>msg_len := msg_len msg + of_nat len, msg_buf := msg_buf msg @ buffer\<rparr>] sys
                   in Some (ret, sys))"

definition dm_i2c_xfer ::
  "'d dm_core \<Rightarrow> nat \<times> nat \<Rightarrow> i2c_msg list \<Rightarrow> 'd i2c_sys \<Rightarrow> int \<times> u8 list \<times> 'd i2c_sys" where
  "dm_i2c_xfer dm dev msgs sys =
     (case xfer (i2c_get_ops dm (fst dev)) of
        None \<Rightarrow> (- E_NOSYS, [], sys)
      | Some f \<Rightarrow> call_xfer f (fst dev) msgs sys)"

text \<open>The variable \<open>val\<close> is not initialised; \<open>junk\<close> is what it holds.\<close>

definition dm_i2c_reg_read :: "'d dm_core \<Rightarrow> u8 \<Rightarrow> nat \<times> nat \<Rightarrow> u32 \<Rightarrow> 'd i2c_sys \<Rightarrow> (int \<times> 'd i2c_sys) option" where
  "dm_i2c_reg_read dm junk dev offset sys =
     map_option (\<lambda>(ret, buffer, sys). (if ret < 0 then ret else uint (hd buffer), sys))
       (dm_i2c_read dm dev offset [junk] sys)"

definition dm_i2c_reg_write :: "'d dm_core \<Rightarrow> nat \<times> nat \<Rightarrow> u32 \<Rightarrow> u32 \<Rightarrow> 'd i2c_sys \<Rightarrow> (int \<times> 'd i2c_sys) option" where
  "dm_i2c_reg_write dm dev offset v sys = dm_i2c_write dm dev offset [ucast v] sys"


subsection \<open>Chips on a bus\<close>

definition i2c_probe_chip :: "'d dm_core \<Rightarrow> nat \<Rightarrow> u32 \<Rightarrow> u32 \<Rightarrow> 'd i2c_sys \<Rightarrow> int \<times> 'd i2c_sys" where
  "i2c_probe_chip dm bus caddr cflags sys =
     (let by_xfer = (\<lambda>sys.
            case xfer (i2c_get_ops dm bus) of
              None \<Rightarrow> (- E_NOSYS, sys)
            | Some f \<Rightarrow>
                let (ret, _, sys) = call_xfer f bus
                      [\<lparr>msg_addr = caddr, msg_flags = (if cflags AND DM_I2C_CHIP_10BIT \<noteq> 0 then I2C_M_TEN else 0),
                        msg_len = 0, msg_buf = []\<rparr>] sys
                in (ret, sys))
      in case probe_chip (i2c_get_ops dm bus) of
           None \<Rightarrow> by_xfer sys
         | Some p \<Rightarrow>
             let (ret, sys) = on_rest (p bus caddr cflags) sys
             in if ret = 0 \<or> ret \<noteq> - E_NOSYS then (ret, sys) else by_xfer sys)"

text \<open>
  A new generic chip. Platform data of a new device are zero; a device without a device tree node is
  not configured further when it is bound. \<open>None\<close> is the pointer that is not set.
\<close>

definition new_chip :: dm_i2c_chip where
  "new_chip = \<lparr>chip_addr = 0, offset_len = 0, chip_flags = 0, chip_addr_offset_mask = 0\<rparr>"

definition i2c_bind_driver ::
  "'d dm_core \<Rightarrow> nat \<Rightarrow> u32 \<Rightarrow> u32 \<Rightarrow> 'd i2c_sys \<Rightarrow> int \<times> (nat \<times> nat) option \<times> 'd i2c_sys" where
  "i2c_bind_driver dm bus caddr olen sys =
     (let nm = cstr (snd (the (snprintf 0 (replicate 30 NUL) 30 ''generic_%x'' [VInt caddr])));
          (ok, sys) = on_rest (malloc_ok dm (length nm + 1)) sys
      in if \<not> ok then (- E_NOMEM, None, sys)
         else
           let (ret, sys) = on_rest (device_bind_driver dm bus nm) sys in
           if ret \<noteq> 0 then (ret, None, sys)
           else
             let chip = new_chip\<lparr>chip_addr := caddr, offset_len := olen\<rparr>;
                 dev = (bus, length (children sys bus));
                 bound = sys\<lparr>children := (children sys)(bus := children sys bus @ [chip])\<rparr>;
                 (ret, probed) = on_rest (device_probe dm dev) bound
             in if ret \<noteq> 0 then (ret, None, probed\<lparr>children := children sys\<rparr>)
                else (0, Some dev, probed))"

text \<open>The loop over the children of the bus; the result is the first that matches.\<close>

fun find_chip :: "u32 \<Rightarrow> dm_i2c_chip list \<Rightarrow> nat \<Rightarrow> nat option" where
  "find_chip caddr [] i = None"
| "find_chip caddr (c # cs) i =
     (if chip_addr c = (caddr AND NOT (chip_addr_offset_mask c)) then Some i else find_chip caddr cs (Suc i))"

definition i2c_get_chip ::
  "'d dm_core \<Rightarrow> nat \<Rightarrow> u32 \<Rightarrow> u32 \<Rightarrow> 'd i2c_sys \<Rightarrow> int \<times> (nat \<times> nat) option \<times> 'd i2c_sys" where
  "i2c_get_chip dm bus caddr olen sys =
     (case find_chip caddr (children sys bus) 0 of
        Some i \<Rightarrow>
          let (ret, sys) = on_rest (device_probe dm (bus, i)) sys
          in if ret \<noteq> 0 then (ret, None, sys) else (0, Some (bus, i), sys)
      | None \<Rightarrow> i2c_bind_driver dm bus caddr olen sys)"

definition i2c_get_chip_for_busnum ::
  "'d dm_core \<Rightarrow> int \<Rightarrow> u32 \<Rightarrow> u32 \<Rightarrow> 'd i2c_sys \<Rightarrow> int \<times> (nat \<times> nat) option \<times> 'd i2c_sys" where
  "i2c_get_chip_for_busnum dm busnum caddr olen sys =
     (let ((ret, bus), sys) = on_rest (\<lambda>d. let (r, b, d) = uclass_get_device_by_seq dm busnum d in ((r, b), d)) sys in
      if ret \<noteq> 0 then (ret, None, sys)
      else
        let (ret, sys) = i2c_probe_chip dm bus caddr 0 sys in
        if ret \<noteq> 0 then (ret, None, sys) else i2c_get_chip dm bus caddr olen sys)"

definition dm_i2c_probe ::
  "'d dm_core \<Rightarrow> nat \<Rightarrow> u32 \<Rightarrow> u32 \<Rightarrow> 'd i2c_sys \<Rightarrow> int \<times> (nat \<times> nat) option \<times> 'd i2c_sys" where
  "dm_i2c_probe dm bus caddr cflags sys =
     (let (ret, sys) = i2c_probe_chip dm bus caddr cflags sys in
      if ret \<noteq> 0 then (ret, None, sys) else i2c_get_chip dm bus caddr 1 sys)"

subsection \<open>Settings\<close>

definition dm_i2c_set_bus_speed :: "'d dm_core \<Rightarrow> nat \<Rightarrow> u32 \<Rightarrow> 'd i2c_sys \<Rightarrow> int \<times> 'd i2c_sys" where
  "dm_i2c_set_bus_speed dm bus speed sys =
     (let (ret, sys) =
        (case set_bus_speed (i2c_get_ops dm bus) of None \<Rightarrow> (0, sys) | Some f \<Rightarrow> on_rest (f bus speed) sys)
      in if ret \<noteq> 0 then (ret, sys) else (0, sys\<lparr>speed_hz := (speed_hz sys)(bus := speed)\<rparr>))"

definition dm_i2c_get_bus_speed :: "'d dm_core \<Rightarrow> nat \<Rightarrow> 'd i2c_sys \<Rightarrow> int \<times> 'd i2c_sys" where
  "dm_i2c_get_bus_speed dm bus sys =
     (case get_bus_speed (i2c_get_ops dm bus) of
        None \<Rightarrow> (sint (speed_hz sys bus), sys)
      | Some f \<Rightarrow> on_rest (f bus) sys)"

definition i2c_set_chip_flags :: "'d dm_core \<Rightarrow> nat \<times> nat \<Rightarrow> u32 \<Rightarrow> 'd i2c_sys \<Rightarrow> int \<times> 'd i2c_sys" where
  "i2c_set_chip_flags dm dev fl sys =
     (let (ret, sys) =
        (case set_flags (i2c_get_ops dm (fst dev)) of None \<Rightarrow> (0, sys) | Some f \<Rightarrow> on_rest (f dev fl) sys)
      in if ret \<noteq> 0 then (ret, sys) else (0, update_chip dev (\<lambda>c. c\<lparr>chip_flags := fl\<rparr>) sys))"

definition i2c_get_chip_flags :: "nat \<times> nat \<Rightarrow> 'd i2c_sys \<Rightarrow> int \<times> u32" where
  "i2c_get_chip_flags dev sys = (0, chip_flags (parent_platdata dev sys))"

definition i2c_set_chip_offset_len :: "nat \<times> nat \<Rightarrow> u32 \<Rightarrow> 'd i2c_sys \<Rightarrow> int \<times> 'd i2c_sys" where
  "i2c_set_chip_offset_len dev olen sys =
     (if unat olen > I2C_MAX_OFFSET_LEN then (- E_INVAL, sys)
      else (0, update_chip dev (\<lambda>c. c\<lparr>offset_len := olen\<rparr>) sys))"

definition i2c_get_chip_offset_len :: "nat \<times> nat \<Rightarrow> 'd i2c_sys \<Rightarrow> int" where
  "i2c_get_chip_offset_len dev sys = sint (offset_len (parent_platdata dev sys))"

definition i2c_set_chip_addr_offset_mask :: "nat \<times> nat \<Rightarrow> u32 \<Rightarrow> 'd i2c_sys \<Rightarrow> int \<times> 'd i2c_sys" where
  "i2c_set_chip_addr_offset_mask dev m sys = (0, update_chip dev (\<lambda>c. c\<lparr>chip_addr_offset_mask := m\<rparr>) sys)"

definition i2c_get_chip_addr_offset_mask :: "nat \<times> nat \<Rightarrow> 'd i2c_sys \<Rightarrow> u32" where
  "i2c_get_chip_addr_offset_mask dev sys = chip_addr_offset_mask (parent_platdata dev sys)"

end
