(* ===== verification/I2cUtils.thy ===== *)
theory I2cUtils
  imports I2cUclass
begin

text \<open>
  The I2C helpers of the tests: \<^verbatim>\<open>test-framework/utils/i2c_utils.c\<close>, with \<open>CONFIG_DM_I2C\<close> set and no
  default bus, as the board is configured, and the conversions of \<^verbatim>\<open>u-boot/include/bcd.h\<close>.
\<close>

text \<open>An \<open>int\<close> stored in an \<open>int8_t\<close>.\<close>

definition int8 :: "int \<Rightarrow> int" where
  "int8 r = signed_take_bit 7 r"

definition eBBTF_utils_set_i2c_bus :: "'d dm_core \<Rightarrow> u32 \<Rightarrow> 'd i2c_sys io \<Rightarrow> int \<times> 'd i2c_sys io" where
  "eBBTF_utils_set_i2c_bus dm busnum s =
     (let ((ret, bus), s) = on_hw (on_rest (\<lambda>d.
            let (r, b, d) = uclass_get_device_by_seq dm (sint busnum) d in ((r, b), d))) s
      in if ret \<noteq> 0 then (ret, s) else (0, s\<lparr>hw := (hw s)\<lparr>i2c_cur_bus := Some bus\<rparr>\<rparr>))"

definition eBBTF_utils_get_i2c_bus :: "'d i2c_sys io \<Rightarrow> int \<times> nat option \<times> 'd i2c_sys io" where
  "eBBTF_utils_get_i2c_bus s =
     (case i2c_cur_bus (hw s) of
        None \<Rightarrow> (- E_NODEV, None, printf_io ''No I2C bus selected\<newline>'' [] s)
      | Some bus \<Rightarrow> (0, Some bus, s))"

definition eBBTF_utils_i2c_bus_speed :: "'d dm_core \<Rightarrow> u32 \<Rightarrow> 'd i2c_sys io \<Rightarrow> int \<times> 'd i2c_sys io" where
  "eBBTF_utils_i2c_bus_speed dm bus_speed s =
     (case eBBTF_utils_get_i2c_bus s of
        (_, None, s) \<Rightarrow> (1, s)
      | (_, Some bus, s) \<Rightarrow>
          let (cur_speed, s) = on_hw (dm_i2c_get_bus_speed dm bus) s;
              s = printf_io ''Current bus speed=%d\<newline>'' [VInt (of_int cur_speed)] s;
              s = printf_io ''Setting bus speed to %d Hz\<newline>'' [VInt bus_speed] s;
              (ret, s) = on_hw (dm_i2c_set_bus_speed dm bus bus_speed) s;
              s = (if ret \<noteq> 0 then printf_io ''Failure changing bus speed (%d)\<newline>'' [VInt (of_int ret)] s else s)
          in (ret, s))"

definition eBBTF_utils_i2c_bus_init :: "'d dm_core \<Rightarrow> u32 \<Rightarrow> u8 \<Rightarrow> 'd i2c_sys io \<Rightarrow> TestResultTypes_e \<times> 'd i2c_sys io" where
  "eBBTF_utils_i2c_bus_init dm i2c_speed i2c_bus s =
     (let (ret, s) = eBBTF_utils_set_i2c_bus dm (ucast i2c_bus) s
      in (if int8 ret < 0 then DIAG_TEST_RESULT_FAIL else DIAG_TEST_RESULT_PASS, s))"

text \<open>
  When \<open>i2c_get_chip\<close> fails, \<open>dev\<close> is not initialised, and the write goes on with it; the read does
  not touch it.
\<close>

definition eBBTF_utils_i2c_write ::
  "'d dm_core \<Rightarrow> u8 \<Rightarrow> u32 \<Rightarrow> u8 \<Rightarrow> u32 \<Rightarrow> u8 list \<Rightarrow> 'd i2c_sys io \<Rightarrow> TestResultTypes_e \<times> 'd i2c_sys io" where
  "eBBTF_utils_i2c_write dm bus_num chip_address reg addr_offset_len write_value s =
     (let (ret, s) = eBBTF_utils_set_i2c_bus dm (ucast bus_num) s in
      if int8 ret \<noteq> 0 then
        (DIAG_TEST_RESULT_FAIL,
         ReportEvent (fill_event DIAG_BUS_NOT_FOUND_ERR_EVENT [ucast bus_num] (Event_Init 0 s)) s)
      else
        case eBBTF_utils_get_i2c_bus s of
          (_, None, s) \<Rightarrow> (DIAG_TEST_RESULT_FAIL, s)
        | (_, Some bus, s) \<Rightarrow>
            let (ret, dev, s) = (let (r, dv, h) = i2c_get_chip dm bus chip_address addr_offset_len (hw s)
                                 in (r, dv, s\<lparr>hw := h\<rparr>)) in
            case dev of
              None \<Rightarrow> (DIAG_TEST_RESULT_FAIL, set_ub s)
            | Some dev \<Rightarrow>
                let (ret, s) = on_hw (i2c_set_chip_offset_len dev addr_offset_len) s;
                    s = s\<lparr>hw := update_chip dev
                          (\<lambda>c. c\<lparr>chip_flags := chip_flags c OR DM_I2C_CHIP_WR_ADDRESS\<rparr>) (hw s)\<rparr>
                in case dm_i2c_write dm dev (ucast reg) write_value (hw s) of
                     None \<Rightarrow> (DIAG_TEST_RESULT_FAIL, set_ub s)
                   | Some (ret, h) \<Rightarrow>
                       let s = s\<lparr>hw := h\<rparr> in
                       if ret \<noteq> 0 then
                         (DIAG_TEST_RESULT_FAIL,
                          ReportEvent (fill_event DIAG_DEV_WRITE_ERR_EVENT [ucast bus_num] (Event_Init 0 s)) s)
                       else (DIAG_TEST_RESULT_PASS, s))"

definition eBBTF_utils_i2c_read ::
  "'d dm_core \<Rightarrow> u8 \<Rightarrow> u32 \<Rightarrow> u8 \<Rightarrow> u32 \<Rightarrow> u8 list \<Rightarrow> 'd i2c_sys io \<Rightarrow>
   TestResultTypes_e \<times> u8 list \<times> 'd i2c_sys io" where
  "eBBTF_utils_i2c_read dm bus_num chip_address reg addr_offset_len read_value s =
     (let (ret, s) = eBBTF_utils_set_i2c_bus dm (ucast bus_num) s in
      if int8 ret \<noteq> 0 then
        (DIAG_TEST_RESULT_FAIL, read_value,
         ReportEvent (fill_event DIAG_BUS_NOT_FOUND_ERR_EVENT [ucast bus_num] (Event_Init 0 s)) s)
      else
        case eBBTF_utils_get_i2c_bus s of
          (_, None, s) \<Rightarrow> (DIAG_TEST_RESULT_FAIL, read_value, s)
        | (_, Some bus, s) \<Rightarrow>
            let failed = (\<lambda>buf s.
                  (DIAG_TEST_RESULT_FAIL, buf,
                   ReportEvent (fill_event DIAG_DEV_READ_ERR_EVENT [ucast bus_num, chip_address, ucast reg]
                     (Event_Init 0 s)) s));
                (ret, dev, s) = (let (r, dv, h) = i2c_get_chip dm bus chip_address addr_offset_len (hw s)
                                 in (r, dv, s\<lparr>hw := h\<rparr>))
            in case dev of
                 None \<Rightarrow> failed read_value s
               | Some dev \<Rightarrow>
                   let (ret, s) = on_hw (i2c_set_chip_offset_len dev addr_offset_len) s in
                   if ret \<noteq> 0 then failed read_value s
                   else case dm_i2c_read dm dev (ucast reg) read_value (hw s) of
                     None \<Rightarrow> (DIAG_TEST_RESULT_FAIL, read_value, set_ub s)
                   | Some (ret, buf, h) \<Rightarrow>
                       if ret \<noteq> 0 then failed buf (s\<lparr>hw := h\<rparr>)
                       else (DIAG_TEST_RESULT_PASS, buf, s\<lparr>hw := h\<rparr>))"

subsection \<open>Binary-coded decimals\<close>

definition bcd2bin :: "u32 \<Rightarrow> u32" where
  "bcd2bin v = (v AND 0x0f) + drop_bit 4 (v AND 0xff) * 10"

definition bin2bcd :: "u32 \<Rightarrow> u32" where
  "bin2bcd v = push_bit 4 (v div 10) OR (v mod 10)"

end
