(* ===== verification/I2cTests.thy ===== *)
theory I2cTests
  imports I2cUtils Cstring
begin

text \<open>
  The tests of I2C devices: \<^verbatim>\<open>test_i2cprobe.c\<close>, \<^verbatim>\<open>test_at24c_eeprom.c\<close>, \<^verbatim>\<open>test_ds2321_rtc.c\<close> and
  \<^verbatim>\<open>test_tps65217_powerrail.c\<close> of \<^verbatim>\<open>test-framework/testsuite\<close>.
\<close>

definition lift_bus :: "'d bus \<Rightarrow> 'd i2c_sys bus" where
  "lift_bus b =
     \<lparr>bus_read = (\<lambda>a. on_rest (bus_read b a)),
      bus_write = (\<lambda>a v sys. sys\<lparr>rest := bus_write b a v (rest sys)\<rparr>),
      bus_flush = (\<lambda>sys. sys\<lparr>rest := bus_flush b (rest sys)\<rparr>)\<rparr>"

subsection \<open>Probing a bus\<close>

definition MAX_I2C_DEVICE :: nat where "MAX_I2C_DEVICE = 128"

record A_I2C_interface_test =
  bus_no :: u8
  dev_address_list :: "u8 list"
  dev_name_list :: "string option list"
  no_of_device :: u8

text \<open>
  The inner loop: the position of the address, or the position behind the devices. The bus number
  and the number of devices are \<open>int8_t\<close>.
\<close>

fun find_device :: "u8 \<Rightarrow> u8 list \<Rightarrow> nat \<Rightarrow> nat option" where
  "find_device dev_id [] chip = None"
| "find_device dev_id (a # as) chip = (if dev_id = a then Some chip else find_device dev_id as (Suc chip))"

definition expected_at :: "A_I2C_interface_test \<Rightarrow> u8 \<Rightarrow> nat option" where
  "expected_at a dev_id = find_device dev_id (take (nat (sint (no_of_device a))) (dev_address_list a)) 0"

definition probe_device ::
  "'d dm_core \<Rightarrow> u32 \<Rightarrow> A_I2C_interface_test \<Rightarrow> nat \<Rightarrow> u8 \<Rightarrow> 'd i2c_sys io \<Rightarrow> bool \<times> 'd i2c_sys io" where
  "probe_device dm tid a bus dev_id s =
     (let (probe_status, _, h) = dm_i2c_probe dm bus (ucast dev_id) 0 (hw s);
          s = s\<lparr>hw := h\<rparr>
      in case expected_at a dev_id of
           None \<Rightarrow>
             if probe_status = 0 then
               (False, ReportEvent (fill_event DIAG_DEV_UNEXPECTED_DEVICE_ERR_EVENT
                  [scast (bus_no a), ucast dev_id] (Event_Init tid s)) s)
             else (True, s)
         | Some chip \<Rightarrow>
             if probe_status \<noteq> 0 then
               let ev = fill_event DIAG_DEV_NOT_PRESENT_ERR_EVENT [scast (bus_no a), ucast dev_id] (Event_Init tid s) in
               (case sprintf 0 (string_ev ev) ''%s'' [VStr (dev_name_list a ! chip)] of
                  None \<Rightarrow> (False, set_ub s)
                | Some (_, str) \<Rightarrow> (False, ReportEvent (ev\<lparr>string_ev := str\<rparr>) s))
             else (True, s))"

text \<open>
  The loop over all addresses. The early return gives the command result \<open>CMD_RET_FAILURE\<close>, 1, as
  a test result.
\<close>

fun probe_loop ::
  "'d dm_core \<Rightarrow> u32 \<Rightarrow> A_I2C_interface_test \<Rightarrow> u8 list \<Rightarrow> TestResultTypes_e \<Rightarrow> 'd i2c_sys io \<Rightarrow>
   TestResultTypes_e \<times> 'd i2c_sys io" where
  "probe_loop dm tid a [] status s = (status, s)"
| "probe_loop dm tid a (dev_id # ids) status s =
     (case eBBTF_utils_get_i2c_bus s of
        (_, None, s) \<Rightarrow> (DIAG_TEST_RESULT_IN_PROGRESS, s)
      | (_, Some bus, s) \<Rightarrow>
          let (ok, s) = probe_device dm tid a bus dev_id s
          in probe_loop dm tid a ids (if ok then status else DIAG_TEST_RESULT_FAIL) s)"

definition I2C_interface_test ::
  "'d dm_core \<Rightarrow> u32 \<Rightarrow> A_I2C_interface_test option \<Rightarrow> 'd i2c_sys io \<Rightarrow> TestResultTypes_e \<times> 'd i2c_sys io" where
  "I2C_interface_test dm tid arg s =
     (case arg of
        None \<Rightarrow> (DIAG_TEST_RESULT_ABORTED, DEBUG_ASSERT ''test_i2cprobe.c'' 37 s)
      | Some a \<Rightarrow>
          let (bus_status, s) = eBBTF_utils_set_i2c_bus dm (scast (bus_no a)) s in
          if bus_status < 0 then
            (DIAG_TEST_RESULT_FAIL,
             ReportEvent (fill_event DIAG_BUS_INIT_ERR_EVENT [scast (bus_no a)] (Event_Init tid s)) s)
          else probe_loop dm tid a (map of_nat [0..<MAX_I2C_DEVICE]) DIAG_TEST_RESULT_PASS s)"

subsection \<open>EEPROM\<close>

definition I2C1_SCL_OFFSET :: u32 where "I2C1_SCL_OFFSET = 0x44e10980"
definition I2C1_SDA_OFFSET :: u32 where "I2C1_SDA_OFFSET = 0x44e10984"
definition I2C1_SCL_MODE3 :: u32 where "I2C1_SCL_MODE3 = 0x7B"
definition I2C1_SDA_MODE3 :: u32 where "I2C1_SDA_MODE3 = 0x7B"

definition TEST_BUFFER_LEN :: nat where "TEST_BUFFER_LEN = 128"
definition EEPROM_PAGE_LEN :: nat where "EEPROM_PAGE_LEN = 32"
definition EEPROM_OFFSET_LEN :: u32 where "EEPROM_OFFSET_LEN = 2"
definition EEPROM_TEST_PATTERN :: u8 where "EEPROM_TEST_PATTERN = 0xEA"

record A_EEPROM_Read_Write_test =
  i2c_bus_num :: u8
  eeprom_dev_addr :: u8
  eeprom_offset :: u8
  test_len :: u8

definition cfg_exp_i2c1_pin_mux :: "'d bus \<Rightarrow> 'd i2c_sys io \<Rightarrow> 'd i2c_sys io" where
  "cfg_exp_i2c1_pin_mux b s =
     writel (lift_bus b) I2C1_SDA_OFFSET I2C1_SDA_MODE3 (writel (lift_bus b) I2C1_SCL_OFFSET I2C1_SCL_MODE3 s)"

definition page_offsets :: "nat list" where
  "page_offsets = map (\<lambda>i. i * EEPROM_PAGE_LEN) [0..<TEST_BUFFER_LEN div EEPROM_PAGE_LEN]"

fun write_pages ::
  "'d dm_core \<Rightarrow> A_EEPROM_Read_Write_test \<Rightarrow> u8 list \<Rightarrow> nat list \<Rightarrow> 'd i2c_sys io \<Rightarrow> TestResultTypes_e \<times> 'd i2c_sys io" where
  "write_pages dm a buf [] s = (DIAG_TEST_RESULT_PASS, s)"
| "write_pages dm a buf (offset # offs) s =
     (let (status, s) = eBBTF_utils_i2c_write dm (i2c_bus_num a) (ucast (eeprom_dev_addr a))
            (eeprom_offset a + of_nat offset) EEPROM_OFFSET_LEN (take EEPROM_PAGE_LEN (drop offset buf)) s
      in if status \<noteq> DIAG_TEST_RESULT_PASS then (status, s) else write_pages dm a buf offs s)"

fun read_pages ::
  "'d dm_core \<Rightarrow> A_EEPROM_Read_Write_test \<Rightarrow> nat list \<Rightarrow> 'd i2c_sys io \<Rightarrow> TestResultTypes_e \<times> 'd i2c_sys io" where
  "read_pages dm a [] s = (DIAG_TEST_RESULT_PASS, s)"
| "read_pages dm a (offset # offs) s =
     (let buf = i2c_eeprom_testbuf2 (hw s);
          (status, page, s) = eBBTF_utils_i2c_read dm (i2c_bus_num a) (ucast (eeprom_dev_addr a))
            (eeprom_offset a + of_nat offset) EEPROM_OFFSET_LEN (take EEPROM_PAGE_LEN (drop offset buf)) s;
          s = s\<lparr>hw := (hw s)\<lparr>i2c_eeprom_testbuf2 := take offset buf @ page @ drop (offset + EEPROM_PAGE_LEN) buf\<rparr>\<rparr>
      in if status \<noteq> DIAG_TEST_RESULT_PASS then (status, s) else read_pages dm a offs s)"

definition EEPROM_Read_Write_test ::
  "'d bus \<Rightarrow> 'd dm_core \<Rightarrow> u32 \<Rightarrow> A_EEPROM_Read_Write_test option \<Rightarrow> 'd i2c_sys io \<Rightarrow>
   TestResultTypes_e \<times> 'd i2c_sys io" where
  "EEPROM_Read_Write_test b dm tid arg s =
     (case arg of
        None \<Rightarrow> (DIAG_TEST_RESULT_ABORTED, DEBUG_ASSERT ''test_at24c_eeprom.c'' 55 s)
      | Some a \<Rightarrow>
          let failed = (\<lambda>e s. (DIAG_TEST_RESULT_FAIL,
                ReportEvent (fill_event e [ucast (i2c_bus_num a), ucast (eeprom_dev_addr a), ucast (eeprom_offset a)]
                  (Event_Init tid s)) s));
              s = cfg_exp_i2c1_pin_mux b s;
              testbuf1 = replicate TEST_BUFFER_LEN EEPROM_TEST_PATTERN;
              (status, s) = write_pages dm a testbuf1 page_offsets s
          in if status \<noteq> DIAG_TEST_RESULT_PASS then failed DIAG_DEV_WRITE_ERR_EVENT s
             else
               let (status, s) = read_pages dm a page_offsets s in
               if status \<noteq> DIAG_TEST_RESULT_PASS then failed DIAG_DEV_READ_ERR_EVENT s
               else if i2c_eeprom_testbuf2 (hw s) \<noteq> testbuf1 then failed DIAG_BUS_DATA_MISMATCH_ERR_EVENT s
               else (DIAG_TEST_RESULT_PASS, s))"

subsection \<open>Real-time clock\<close>

definition DS2321_RTC_SEC_REG_ADDR :: u8 where "DS2321_RTC_SEC_REG_ADDR = 0x00"
definition DS2321_RTC_MIN_REG_ADDR :: u8 where "DS2321_RTC_MIN_REG_ADDR = 0x01"
definition DS2321_RTC_HR_REG_ADDR :: u8 where "DS2321_RTC_HR_REG_ADDR = 0x02"
definition DS2321_RTC_CTL_STATUS_REG_ADDR :: u8 where "DS2321_RTC_CTL_STATUS_REG_ADDR = 0x0F"
definition DS2321_SELECT_EXT_CLK :: u8 where "DS2321_SELECT_EXT_CLK = 0x04"
definition DS2321_SELECT_EXT_32KHZ :: u8 where "DS2321_SELECT_EXT_32KHZ = 0x18"

record A_ds2321_rtc_get_time_test =
  i2c_bus :: u8
  i2c_speed :: u32
  i2c_dev_addr :: u8

record A_ds2321_rtc_set_time_test = A_ds2321_rtc_get_time_test +
  sec_value :: u8
  min_value :: u8
  hour_value :: u8

text \<open>
  A failed write of the status register fills an event and does not report it.
\<close>

definition ds2321_rtc_init ::
  "'d bus \<Rightarrow> 'd dm_core \<Rightarrow> u32 \<Rightarrow> u8 \<Rightarrow> u8 \<Rightarrow> u32 \<Rightarrow> 'd i2c_sys io \<Rightarrow> TestResultTypes_e \<times> 'd i2c_sys io" where
  "ds2321_rtc_init b dm tid chip_address bus speed s =
     (let s = cfg_exp_i2c1_pin_mux b s;
          (setbus_status, s) = eBBTF_utils_set_i2c_bus dm (ucast bus) s
      in if int8 setbus_status \<noteq> 0 then
           (DIAG_TEST_RESULT_FAIL,
            ReportEvent (fill_event DIAG_BUS_NOT_FOUND_ERR_EVENT [ucast bus] (Event_Init tid s)) s)
         else
           let (setbus_status, s) = eBBTF_utils_i2c_bus_speed dm speed s in
           if int8 setbus_status < 0 then
             (DIAG_TEST_RESULT_FAIL,
              ReportEvent (fill_event DIAG_BUS_INIT_ERR_EVENT [ucast bus] (Event_Init tid s)) s)
           else
             let (status, val, s) = eBBTF_utils_i2c_read dm bus (ucast chip_address)
                   DS2321_RTC_CTL_STATUS_REG_ADDR 1 [0] s
             in if status \<noteq> DIAG_TEST_RESULT_PASS then
                  (DIAG_TEST_RESULT_FAIL,
                   ReportEvent (fill_event DIAG_DEV_READ_ERR_EVENT
                     [ucast bus, ucast chip_address, ucast DS2321_RTC_CTL_STATUS_REG_ADDR] (Event_Init tid s)) s)
                else
                  let val = hd val OR DS2321_SELECT_EXT_CLK;
                      val = val OR DS2321_SELECT_EXT_32KHZ;
                      (status, s) = eBBTF_utils_i2c_write dm bus (ucast chip_address)
                        DS2321_RTC_CTL_STATUS_REG_ADDR 1 [val] s
                  in if status \<noteq> DIAG_TEST_RESULT_PASS then (DIAG_TEST_RESULT_FAIL, s)
                     else (status, s))"

text \<open>One register of the time: \<open>None\<close> is the early return behind a reported error.\<close>

definition rtc_read_reg ::
  "'d dm_core \<Rightarrow> u32 \<Rightarrow> ('a) A_ds2321_rtc_get_time_test_scheme \<Rightarrow> u8 \<Rightarrow> 'd i2c_sys io \<Rightarrow> u8 option \<times> 'd i2c_sys io" where
  "rtc_read_reg dm tid a reg s =
     (let (status, get_value, s) = eBBTF_utils_i2c_read dm (i2c_bus a) (ucast (i2c_dev_addr a)) reg 1 [0] s
      in if status \<noteq> DIAG_TEST_RESULT_PASS then
           (None, ReportEvent (fill_event DIAG_DEV_READ_ERR_EVENT
              [ucast (i2c_bus a), ucast (i2c_dev_addr a), ucast reg] (Event_Init tid s)) s)
         else (Some (ucast (bcd2bin (ucast (hd get_value AND 0x7f)))), s))"

definition print_time :: "u8 \<Rightarrow> u8 \<Rightarrow> u8 \<Rightarrow> 'hw io \<Rightarrow> 'hw io" where
  "print_time hour mins sec s =
     (case sprintf 0 (replicate 256 NUL) ''RTC_Get_Time [HH:MM:SS] = %d:%d:%d''
             [VInt (ucast hour), VInt (ucast mins), VInt (ucast sec)] of
        None \<Rightarrow> set_ub s
      | Some (_, buff) \<Rightarrow> printf_io ''  %s\<newline>'' [VStr (Some (cstr buff))] s)"

definition ds2321_rtc_get_time_test ::
  "'d bus \<Rightarrow> 'd dm_core \<Rightarrow> u32 \<Rightarrow> ('a) A_ds2321_rtc_get_time_test_scheme option \<Rightarrow> 'd i2c_sys io \<Rightarrow>
   TestResultTypes_e \<times> 'd i2c_sys io" where
  "ds2321_rtc_get_time_test b dm tid arg s =
     (case arg of
        None \<Rightarrow> (DIAG_TEST_RESULT_ABORTED, DEBUG_ASSERT ''test_ds2321_rtc.c'' 155 s)
      | Some a \<Rightarrow>
          let (status, s) = ds2321_rtc_init b dm tid (i2c_dev_addr a) (i2c_bus a) (i2c_speed a) s in
          if status \<noteq> DIAG_TEST_RESULT_PASS then (DIAG_TEST_RESULT_FAIL, s)
          else case rtc_read_reg dm tid a DS2321_RTC_SEC_REG_ADDR s of
            (None, s) \<Rightarrow> (DIAG_TEST_RESULT_FAIL, s)
          | (Some sec, s) \<Rightarrow>
              (case rtc_read_reg dm tid a DS2321_RTC_MIN_REG_ADDR s of
                 (None, s) \<Rightarrow> (DIAG_TEST_RESULT_FAIL, s)
               | (Some mins, s) \<Rightarrow>
                   (case rtc_read_reg dm tid a DS2321_RTC_HR_REG_ADDR s of
                      (None, s) \<Rightarrow> (DIAG_TEST_RESULT_FAIL, s)
                    | (Some hour, s) \<Rightarrow> (DIAG_TEST_RESULT_PASS, print_time hour mins sec s))))"

definition rtc_write_reg ::
  "'d dm_core \<Rightarrow> u32 \<Rightarrow> ('a) A_ds2321_rtc_get_time_test_scheme \<Rightarrow> u8 \<Rightarrow> u8 \<Rightarrow> 'd i2c_sys io \<Rightarrow> bool \<times> 'd i2c_sys io" where
  "rtc_write_reg dm tid a reg v s =
     (let set_value = ucast (bin2bcd (ucast v));
          (status, s) = eBBTF_utils_i2c_write dm (i2c_bus a) (ucast (i2c_dev_addr a)) reg 1 [set_value] s
      in if status \<noteq> DIAG_TEST_RESULT_PASS then
           (False, ReportEvent (fill_event DIAG_DEV_WRITE_ERR_EVENT
              [ucast (i2c_bus a), ucast (i2c_dev_addr a), ucast reg] (Event_Init tid s)) s)
         else (True, s))"

definition ds2321_rtc_set_time_test ::
  "'d bus \<Rightarrow> 'd dm_core \<Rightarrow> u32 \<Rightarrow> A_ds2321_rtc_set_time_test option \<Rightarrow> 'd i2c_sys io \<Rightarrow>
   TestResultTypes_e \<times> 'd i2c_sys io" where
  "ds2321_rtc_set_time_test b dm tid arg s =
     (case arg of
        None \<Rightarrow> (DIAG_TEST_RESULT_ABORTED, DEBUG_ASSERT ''test_ds2321_rtc.c'' 230 s)
      | Some a \<Rightarrow>
          if 59 < sec_value a \<or> 59 < min_value a \<or> 23 < hour_value a then
            (DIAG_TEST_RESULT_ABORTED, DEBUG_ASSERT ''test_ds2321_rtc.c'' 236 s)
          else
            let (status, s) = ds2321_rtc_init b dm tid (i2c_dev_addr a) (i2c_bus a) (i2c_speed a) s in
            if status \<noteq> DIAG_TEST_RESULT_PASS then (DIAG_TEST_RESULT_FAIL, s)
            else
              let (ok, s) = rtc_write_reg dm tid a DS2321_RTC_SEC_REG_ADDR (sec_value a) s in
              if \<not> ok then (DIAG_TEST_RESULT_FAIL, s)
              else
                let (ok, s) = rtc_write_reg dm tid a DS2321_RTC_MIN_REG_ADDR (min_value a) s in
                if \<not> ok then (DIAG_TEST_RESULT_FAIL, s)
                else
                  let (ok, s) = rtc_write_reg dm tid a DS2321_RTC_HR_REG_ADDR (hour_value a) s in
                  if \<not> ok then (DIAG_TEST_RESULT_FAIL, s)
                  else (DIAG_TEST_RESULT_PASS, print_time (hour_value a) (min_value a) (sec_value a) s))"

subsection \<open>Power rails\<close>

definition PMIC_DCDC1_DDR :: u8 where "PMIC_DCDC1_DDR = 0x0E"
definition PMIC_DCDC2_MPU :: u8 where "PMIC_DCDC2_MPU = 0x0F"
definition PMIC_DCDC3_CORE :: u8 where "PMIC_DCDC3_CORE = 0x10"
definition PMIC_LD01 :: u8 where "PMIC_LD01 = 0x12"
definition PMIC_LD02 :: u8 where "PMIC_LD02 = 0x13"
definition PMIC_LD03 :: u8 where "PMIC_LD03 = 0x14"
definition PMIC_LD04 :: u8 where "PMIC_LD04 = 0x15"
definition PMIC_STATUS_FLAGS :: u8 where "PMIC_STATUS_FLAGS = 0x0C"

definition pmic_regulation_regs :: "u8 list" where
  "pmic_regulation_regs =
     [PMIC_DCDC1_DDR, PMIC_DCDC2_MPU, PMIC_DCDC3_CORE, PMIC_LD01, PMIC_LD02, PMIC_LD03, PMIC_LD04]"

record A_PWR_railings_test =
  i2c_bus_no :: u8
  pmic_dev_addr :: u8
  dev_name :: string

text \<open>The value in millivolts of a code of six bits, and the digits that are printed for it.\<close>

definition vdd_millivolts :: "u8 \<Rightarrow> u32" where
  "vdd_millivolts resp =
     (let c = ucast (resp AND 0x3f) in
      if c \<le> 0x17 then 900 + c * 25
      else if c \<le> 0x34 then 1500 + (c - 0x18) * 50
      else 3000 + (c - 0x35) * 100)"

definition vdd_string :: "u32 \<Rightarrow> string option" where
  "vdd_string vdd_val =
     map_option (\<lambda>(_, b). cstr b)
       (if vdd_val \<ge> 1000 then
          sprintf 0 (replicate 100 NUL) ''%d.%3d'' [VInt (vdd_val div 1000), VInt (vdd_val mod 1000)]
        else sprintf 0 (replicate 100 NUL) ''0.3%d'' [VInt vdd_val])"

definition LDO1_Voltage :: "string list" where
  "LDO1_Voltage = [''1.0'', ''1.1'', ''1.2'', ''1.25'', ''1.3'', ''1.35'', ''1.4'', ''1.5'',
     ''1.6'', ''1.8'', ''2.5'', ''2.75'', ''2.8'', ''3.0'', ''3.1'', ''3.3'']"

definition LD0_3_4_val :: "string list" where
  "LD0_3_4_val = [''1.5V'', ''1.55V'', ''1.6V'', ''1.65V'', ''1.7V'', ''1.75V'', ''1.8V'', ''1.85V'',
     ''1.90V'', ''2V'', ''2.1V'', ''2.2V'', ''2.3V'', ''2.4V'', ''2.45V'', ''2.5V'',
     ''2.55V'', ''2.6V'', ''2.65V'', ''2.7V'', ''2.75V'', ''2.8V'', ''2.85V'', ''2.9V'',
     ''2.95V'', ''3V'', ''3.05V'', ''3.1V'', ''3.15V'', ''3.2V'', ''3.25V'', ''3.3V'']"

definition show_rail :: "string \<Rightarrow> string \<Rightarrow> string \<Rightarrow> bool \<Rightarrow> 'hw io \<Rightarrow> 'hw io" where
  "show_rail fmt volts regfmt ok s =
     printf_io regfmt [VStr (Some (if ok then ''OK'' else ''NOT OK !!''))] (printf_io fmt [VStr (Some volts)] s)"

definition is_vdd :: "u8 \<Rightarrow> bool" where
  "is_vdd reg \<longleftrightarrow> reg \<in> {PMIC_DCDC1_DDR, PMIC_DCDC2_MPU, PMIC_DCDC3_CORE, PMIC_LD02}"

definition display_rail :: "u8 \<Rightarrow> u8 \<Rightarrow> u8 \<Rightarrow> 'hw io \<Rightarrow> 'hw io" where
  "display_rail reg resp pwr_ok s =
     (if is_vdd reg then
        case vdd_string (vdd_millivolts resp) of
          None \<Rightarrow> set_ub s
        | Some vdd_arr \<Rightarrow>
            if reg = PMIC_DCDC1_DDR then
              show_rail ''           VDD DDR   - %sV'' vdd_arr '' Power Regulation - %s \<newline>'' (pwr_ok AND 0x10 \<noteq> 0) s
            else if reg = PMIC_DCDC2_MPU then
              show_rail ''           VDD MPU   - %sV'' vdd_arr '' Power Regulation - %s \<newline>'' (pwr_ok AND 0x08 \<noteq> 0) s
            else if reg = PMIC_DCDC3_CORE then
              show_rail ''           VDD CORE  - %sV'' vdd_arr '' Power Regulation - %s \<newline>'' (pwr_ok AND 0x04 \<noteq> 0) s
            else
              show_rail ''           LDO2      - %sV'' vdd_arr '' Power Regulation - %s \<newline>'' (pwr_ok AND 0x01 \<noteq> 0) s
      else if reg = PMIC_LD01 then
        show_rail ''           LD01      - %sV'' (LDO1_Voltage ! unat (resp AND 0x0f))
          ''   Power Regulation - %s \<newline>'' (pwr_ok AND 0x02 \<noteq> 0) s
      else if reg = PMIC_LD03 then
        show_rail ''           LDO3      - %s'' (LD0_3_4_val ! unat (resp AND 0x1f))
          ''   Power Regulation - %s \<newline>'' (pwr_ok AND 0x40 \<noteq> 0) s
      else
        show_rail ''           LDO4      - %s '' (LD0_3_4_val ! unat (resp AND 0x1f))
          ''  Power Regulation - %s \<newline>'' (pwr_ok AND 0x20 \<noteq> 0) s)"

text \<open>
  The loop over the seven registers; its \<open>default\<close> case is never taken. The response and the status
  flags are variables that live across the rounds.
\<close>

fun rail_loop ::
  "'d dm_core \<Rightarrow> A_PWR_railings_test \<Rightarrow> u8 list \<Rightarrow> u8 \<Rightarrow> u8 \<Rightarrow> 'd i2c_sys io \<Rightarrow>
   TestResultTypes_e \<times> 'd i2c_sys io" where
  "rail_loop dm a [] resp pwr_ok s = (DIAG_TEST_RESULT_PASS, printf_io ''\<newline>'' [] s)"
| "rail_loop dm a (reg # regs) resp pwr_ok s =
     (let (status, buf, s) = eBBTF_utils_i2c_read dm (i2c_bus_no a) (ucast (pmic_dev_addr a)) reg 1 [resp] s in
      if status = DIAG_TEST_RESULT_FAIL then (status, s)
      else
        let (status, pbuf, s) = eBBTF_utils_i2c_read dm (i2c_bus_no a) (ucast (pmic_dev_addr a))
              PMIC_STATUS_FLAGS 1 [pwr_ok] s
        in if status = DIAG_TEST_RESULT_FAIL then (status, s)
           else rail_loop dm a regs (if is_vdd reg then hd buf AND 0x3f else hd buf) (hd pbuf)
                  (display_rail reg (hd buf) (hd pbuf) s))"

definition PWR_railings_test ::
  "'d dm_core \<Rightarrow> u32 \<Rightarrow> A_PWR_railings_test option \<Rightarrow> 'd i2c_sys io \<Rightarrow> TestResultTypes_e \<times> 'd i2c_sys io" where
  "PWR_railings_test dm tid arg s =
     (case arg of
        None \<Rightarrow> (DIAG_TEST_RESULT_ABORTED, DEBUG_ASSERT ''test_tps65217_powerrail.c'' 45 s)
      | Some a \<Rightarrow>
          if strcmp (dev_name a) ''TPS65217C'' \<noteq> 0 then (DIAG_TEST_RESULT_ABORTED, s)
          else rail_loop dm a pmic_regulation_regs 0 0 s)"

end
