(* ===== verification/Decimal.thy ===== *)
theory Decimal
  imports Vsprintf
begin

text \<open>
  What \<open>printf\<close> makes of the conversions \<open>%d\<close> of a small number and \<open>%s\<close>, as equations on the digits.
\<close>

definition decimal :: "nat \<Rightarrow> string" where
  "decimal n = rev (dec_rev n)"

lemma scast_small: "unat (w :: u32) < 2 ^ 31 \<Longrightarrow> scast w = (ucast w :: u64)"
proof -
  assume "unat w < 2 ^ 31"
  then have b: "bit w n \<Longrightarrow> n < 31" for n by (rule bit_less_power)
  then show ?thesis by (intro bit_word_eqI) (auto simp: bit_simps min_def dest: b)
qed

lemma number_d: "unat (w :: u32) < 2 ^ 31 \<Longrightarrow> number (ucast w) 10 (-1) (-1) SIGN = decimal (unat w)"
proof -
  assume "unat w < 2 ^ 31"
  then have "\<not> (ucast w :: u64) <s 0"
  proof -
    have "\<not> bit (ucast w :: u64) 63" using bit_imp_le_length [of w 63] by (auto simp: bit_simps)
    then have "0 \<le> sint (ucast w :: u64)" by (simp add: sint_uint not_le signed_take_bit_nonnegative_iff bit_simps)
    then show ?thesis by (simp add: word_sless_alt)
  qed
  then show ?thesis
    by (cases "w = 0") (simp_all add: number_def put_dec_dec_rev pad_def after_pad_def dec_rev_0 decimal_def)
qed

lemma directive_d:
  "unat w < 2 ^ 31 \<Longrightarrow> directive (CHR ''d'' # fmt) (VInt w # args) = Some (decimal (unat w), fmt, args)"
  by (simp add: directive_simps scast_small number_d)

lemma directive_s: "directive (CHR ''s'' # fmt) (VStr (Some s) # args) = Some (s, fmt, args)"
  by (simp add: directive_simps string_conv_def pad_def)


lemma length_decimal: "n < 1000 \<Longrightarrow> length (decimal n) \<le> 3"
  by (simp add: decimal_def dec_rev.simps [of n] dec_rev.simps [of "n div 10"] dec_rev.simps [of "n div 10 div 10"])

lemma no_nul_decimal: "no_nul (decimal n)"
proof -
  have "\<not> isdigit NUL" by code_simp
  then show ?thesis using isdigit_dec_rev [of NUL n] by (auto simp: no_nul_def decimal_def)
qed

end
