(* ===== verification/I2cChip.thy ===== *)
theory I2cChip
  imports I2cTests Decimal
begin

text \<open>
  The I2C tests on a chip that behaves: what the transfers of the driver do to a chip with
  registers is a hypothesis, everything above, from the messages to the verdict of the test, is
  proved.
\<close>

subsection \<open>A chip with registers\<close>

text \<open>
  \<open>register_chip\<close>: the driver of the bus has a transfer routine; a message with \<open>n\<close> bytes of offset and
  one byte of data stores the byte in the register at the offset, a message with an offset and one that
  reads returns the registers from the offset on.
\<close>

definition register_chip :: "'d dm_core \<Rightarrow> nat \<Rightarrow> u32 \<Rightarrow> nat \<Rightarrow> ('d \<Rightarrow> u32 \<Rightarrow> u8) \<Rightarrow> bool" where
  "register_chip dm bus caddr n regs \<longleftrightarrow>
     (\<exists>f. xfer (i2c_get_ops dm bus) = Some f \<and>
       (\<forall>off v d. unat off < 2 ^ (8 * n) \<longrightarrow>
          (\<exists>bs d'. f bus [\<lparr>msg_addr = caddr, msg_flags = 0, msg_len = of_nat n + 1,
                       msg_buf = offset_bytes n off @ [v]\<rparr>] d = (0, bs, d') \<and>
                 regs d' = (regs d)(off := v))) \<and>
       (\<forall>off k d. unat off + unat k \<le> 2 ^ (8 * n) \<longrightarrow>
          (\<exists>d'. f bus [\<lparr>msg_addr = caddr, msg_flags = 0, msg_len = of_nat n, msg_buf = offset_bytes n off\<rparr>,
                      \<lparr>msg_addr = caddr, msg_flags = I2C_M_RD, msg_len = k, msg_buf = []\<rparr>] d =
                  (0, map (\<lambda>i. regs d (off + of_nat i)) [0..<unat k], d') \<and> regs d' = regs d)))"

text \<open>
  \<open>bus_ready\<close>: the bus with this number is there, no chip and no allocation fails, and the core leaves
  the registers alone.
\<close>

definition bus_ready :: "'d dm_core \<Rightarrow> u8 \<Rightarrow> nat \<Rightarrow> ('d \<Rightarrow> u32 \<Rightarrow> u8) \<Rightarrow> bool" where
  "bus_ready dm num bus regs \<longleftrightarrow>
     (\<forall>d. \<exists>d'. uclass_get_device_by_seq dm (uint num) d = (0, bus, d') \<and> regs d' = regs d) \<and>
     (\<forall>dev d. \<exists>d'. device_probe dm dev d = (0, d') \<and> regs d' = regs d) \<and>
     (\<forall>nm d. \<exists>d'. device_bind_driver dm bus nm d = (0, d') \<and> regs d' = regs d) \<and>
     (\<forall>k d. \<exists>d'. malloc_ok dm k d = (True, d') \<and> regs d' = regs d)"

text \<open>The chips known on the bus use no address bits for the offset and no 10-bit addresses.\<close>

definition plain_chip :: "dm_i2c_chip \<Rightarrow> bool" where
  "plain_chip c \<longleftrightarrow> chip_addr_offset_mask c = 0 \<and> chip_flags c \<in> {0, DM_I2C_CHIP_WR_ADDRESS}"

definition plain_bus :: "nat \<Rightarrow> 'd i2c_sys \<Rightarrow> bool" where
  "plain_bus bus sys \<longleftrightarrow> list_all plain_chip (children sys bus)"

lemma on_rest_eq: "f (rest sys) = (r, d) \<Longrightarrow> on_rest f sys = (r, sys\<lparr>rest := d\<rparr>)"
  by (simp add: on_rest_def)

lemma find_chip_Some:
  "find_chip caddr cs i = Some j \<Longrightarrow>
     i \<le> j \<and> j - i < length cs \<and> chip_addr (cs ! (j - i)) = (caddr AND NOT (chip_addr_offset_mask (cs ! (j - i))))"
proof (induction cs arbitrary: i)
  case (Cons c cs)
  show ?case
  proof (cases "chip_addr c = (caddr AND NOT (chip_addr_offset_mask c))")
    case True
    then show ?thesis using Cons.prems by simp
  next
    case False
    then have "find_chip caddr cs (Suc i) = Some j" using Cons.prems by simp
    note IH = Cons.IH [OF this]
    then have "(c # cs) ! (j - i) = cs ! (j - Suc i)" by (simp add: nth_Cons')
    then show ?thesis using IH by auto
  qed
qed simp

text \<open>Finding or binding a chip on a ready bus.\<close>

lemma i2c_get_chip_ready:
  assumes "bus_ready dm num bus regs" "plain_bus bus sys"
  obtains i sys' where "i2c_get_chip dm bus caddr olen sys = (0, Some (bus, i), sys')"
    "i < length (children sys' bus)" "chip_addr (children sys' bus ! i) = caddr" "plain_bus bus sys'"
    "regs (rest sys') = regs (rest sys)" "i2c_eeprom_testbuf2 sys' = i2c_eeprom_testbuf2 sys"
    "i2c_cur_bus sys' = i2c_cur_bus sys"
proof (cases "find_chip caddr (children sys bus) 0")
  case (Some i)
  note f = find_chip_Some [OF Some]
  then have i: "i < length (children sys bus)" by simp
  have "plain_chip (children sys bus ! i)" using assms(2) i by (simp add: plain_bus_def list_all_length)
  then have c: "chip_addr (children sys bus ! i) = caddr" using f by (simp add: plain_chip_def)
  obtain d' where p: "device_probe dm (bus, i) (rest sys) = (0, d')" "regs d' = regs (rest sys)"
    using assms(1) unfolding bus_ready_def by blast
  show ?thesis
    by (rule that [of i "sys\<lparr>rest := d'\<rparr>"])
      (use Some i c p assms(2) in \<open>simp_all add: i2c_get_chip_def on_rest_eq plain_bus_def\<close>)
next
  case None
  define nm where "nm = cstr (snd (the (snprintf 0 (replicate 30 NUL) 30 ''generic_%x'' [VInt caddr])))"
  obtain d1 where m: "malloc_ok dm (Suc (length nm)) (rest sys) = (True, d1)" "regs d1 = regs (rest sys)"
    using assms(1) unfolding bus_ready_def by blast
  obtain d2 where b: "device_bind_driver dm bus nm d1 = (0, d2)" "regs d2 = regs d1"
    using assms(1) unfolding bus_ready_def by blast
  let ?i = "length (children sys bus)"
  obtain d3 where p: "device_probe dm (bus, ?i) d2 = (0, d3)" "regs d3 = regs d2"
    using assms(1) unfolding bus_ready_def by blast
  let ?c = "new_chip\<lparr>chip_addr := caddr, offset_len := olen\<rparr>"
  let ?sys = "sys\<lparr>rest := d3, children := (children sys)(bus := children sys bus @ [?c])\<rparr>"
  have "i2c_bind_driver dm bus caddr olen sys = (0, Some (bus, ?i), ?sys)"
    unfolding i2c_bind_driver_def nm_def [symmetric] Let_def by (simp add: on_rest_def m b p)
  then have e: "i2c_get_chip dm bus caddr olen sys = (0, Some (bus, ?i), ?sys)"
    using None by (simp add: i2c_get_chip_def)
  show ?thesis
    by (rule that [OF e])
      (use m b p assms(2) in \<open>simp_all add: plain_bus_def plain_chip_def new_chip_def\<close>)
qed


text \<open>One message to a plain chip.\<close>

lemma setup_offset_plain:
  assumes "plain_chip c" "offset_len c = of_nat n" "n = 1 \<or> n = 2"
  shows "i2c_setup_offset c off =
    Some (True, \<lparr>msg_addr = chip_addr c, msg_flags = 0, msg_len = of_nat n, msg_buf = offset_bytes n off\<rparr>)"
  using assms by (auto simp: i2c_setup_offset_def plain_chip_def I2C_MAX_OFFSET_LEN_def
    DM_I2C_CHIP_10BIT_def DM_I2C_CHIP_WR_ADDRESS_def Let_def)

definition stored :: "(u32 \<Rightarrow> u8) \<Rightarrow> u32 \<Rightarrow> u8 list \<Rightarrow> u32 \<Rightarrow> u8" where
  "stored r off bytes = fold (\<lambda>i m. m(off + of_nat i := bytes ! i)) [0..<length bytes] r"

lemma stored_Nil [simp]: "stored r off [] = r"
  by (simp add: stored_def)

lemma stored_Cons: "stored r off (b # bytes) = stored (r(off := b)) (off + 1) bytes"
proof -
  have "[0..<length (b # bytes)] = 0 # map Suc [0..<length bytes]"
    by (simp add: map_Suc_upt upt_conv_Cons del: upt_Suc)
  then show ?thesis by (simp add: stored_def fold_map comp_def add.assoc)
qed

lemma write_bytewise_ready:
  assumes "register_chip dm bus caddr n regs" "n = 1 \<or> n = 2" "xfer (i2c_get_ops dm bus) = Some f"
    and "plain_chip (parent_platdata (bus, i) sys)" "chip_addr (parent_platdata (bus, i) sys) = caddr"
      "offset_len (parent_platdata (bus, i) sys) = of_nat n"
    and "unat off + length bytes \<le> 2 ^ (8 * n)"
  shows "\<exists>d. i2c_write_bytewise f (bus, i) off bytes sys = Some (0, sys\<lparr>rest := d\<rparr>) \<and>
    regs d = stored (regs (rest sys)) off bytes"
  using assms(4-)
proof (induction bytes arbitrary: off sys)
  case Nil
  show ?case by (rule exI [of _ "rest sys"]) simp
next
  case (Cons b bytes)
  have "unat off < 2 ^ (8 * n)" using Cons.prems(4) by simp
  then obtain bs d where x: "f bus [\<lparr>msg_addr = caddr, msg_flags = 0, msg_len = of_nat n + 1,
      msg_buf = offset_bytes n off @ [b]\<rparr>] (rest sys) = (0, bs, d)" "regs d = (regs (rest sys))(off := b)"
    using assms(1,3) unfolding register_chip_def by force
  let ?sys = "sys\<lparr>rest := d\<rparr>"
  have p: "parent_platdata (bus, i) ?sys = parent_platdata (bus, i) sys" by (simp add: parent_platdata_def)
  have u: "unat (off + 1) + length bytes \<le> 2 ^ (8 * n)"
  proof -
    have "unat (off + 1) \<le> unat off + 1" by (simp add: unat_word_ariths mod_less_eq_dividend)
    then show ?thesis using Cons.prems(4) by simp
  qed
  obtain d2 where r: "i2c_write_bytewise f (bus, i) (off + 1) bytes ?sys = Some (0, ?sys\<lparr>rest := d2\<rparr>)"
      "regs d2 = stored (regs (rest ?sys)) (off + 1) bytes"
    using Cons.IH [of ?sys "off + 1"] Cons.prems u p by auto
  have "i2c_write_bytewise f (bus, i) off (b # bytes) sys = Some (0, sys\<lparr>rest := d2\<rparr>)"
    using setup_offset_plain [OF Cons.prems(1,3) assms(2), of off] x(1) r(1) Cons.prems(2)
    by (simp add: call_xfer_def)
  then show ?case using r(2) x(2) by (auto simp: stored_Cons)
qed


lemma dm_i2c_read_ready:
  assumes "register_chip dm bus caddr n regs" "n = 1 \<or> n = 2"
    and "plain_chip (parent_platdata (bus, i) sys)" "chip_addr (parent_platdata (bus, i) sys) = caddr"
      "offset_len (parent_platdata (bus, i) sys) = of_nat n"
    and "unat off + length buf \<le> 2 ^ (8 * n)" "buf \<noteq> []"
  shows "\<exists>d. dm_i2c_read dm (bus, i) off buf sys =
      Some (0, map (\<lambda>k. regs (rest sys) (off + of_nat k)) [0..<length buf], sys\<lparr>rest := d\<rparr>) \<and>
    regs d = regs (rest sys)"
proof -
  obtain f where f: "xfer (i2c_get_ops dm bus) = Some f" and
    rd: "\<And>off k d. unat off + unat k \<le> 2 ^ (8 * n) \<Longrightarrow>
          \<exists>d'. f bus [\<lparr>msg_addr = caddr, msg_flags = 0, msg_len = of_nat n, msg_buf = offset_bytes n off\<rparr>,
                      \<lparr>msg_addr = caddr, msg_flags = I2C_M_RD, msg_len = k, msg_buf = []\<rparr>] d =
                  (0, map (\<lambda>i. regs d (off + of_nat i)) [0..<unat k], d') \<and> regs d' = regs d"
    using assms(1) unfolding register_chip_def by blast
  have "length buf < 2 ^ 32"
    using assms(2,6) by (auto simp: algebra_simps)
  then have l: "unat (of_nat (length buf) :: u32) = length buf" by (simp add: unat_of_nat)
  obtain d where d: "f bus [\<lparr>msg_addr = caddr, msg_flags = 0, msg_len = of_nat n, msg_buf = offset_bytes n off\<rparr>,
        \<lparr>msg_addr = caddr, msg_flags = I2C_M_RD, msg_len = of_nat (length buf), msg_buf = []\<rparr>] (rest sys) =
      (0, map (\<lambda>i. regs (rest sys) (off + of_nat i)) [0..<length buf], d)" "regs d = regs (rest sys)"
    using rd [of off "of_nat (length buf)" "rest sys"] assms(6) unfolding l by blast
  have fl: "chip_flags (parent_platdata (bus, i) sys) AND DM_I2C_CHIP_RD_ADDRESS = 0"
    "chip_flags (parent_platdata (bus, i) sys) AND DM_I2C_CHIP_10BIT = 0"
    using assms(3) by (auto simp: plain_chip_def DM_I2C_CHIP_RD_ADDRESS_def DM_I2C_CHIP_10BIT_def DM_I2C_CHIP_WR_ADDRESS_def)
  have "dm_i2c_read dm (bus, i) off buf sys =
      Some (0, map (\<lambda>k. regs (rest sys) (off + of_nat k)) [0..<length buf], sys\<lparr>rest := d\<rparr>)"
    unfolding dm_i2c_read_def Let_def setup_offset_plain [OF assms(3,5,2)]
    using assms(4,7) by (simp add: f fl call_xfer_def d(1) store_bytes_def)
  then show ?thesis using d(2) by blast
qed

subsection \<open>The helpers on a ready bus\<close>

lemma set_i2c_bus_ready:
  assumes "bus_ready dm num bus regs"
  obtains d where "eBBTF_utils_set_i2c_bus dm (ucast num) s = (0, s\<lparr>hw := (hw s)\<lparr>rest := d, i2c_cur_bus := Some bus\<rparr>\<rparr>)"
    "regs d = regs (rest (hw s))"
proof -
  have "sint (ucast num :: u32) = uint num"
  proof -
    have "uint num < 256" using unsigned_less [of num] by simp
    then show ?thesis by (simp add: sint_uint unsigned_ucast_eq take_bit_eq_mod signed_take_bit_eq_take_bit_minus bit_iff_odd)
  qed
  moreover obtain d where "uclass_get_device_by_seq dm (uint num) (rest (hw s)) = (0, bus, d)" "regs d = regs (rest (hw s))"
    using assms unfolding bus_ready_def by blast
  ultimately show ?thesis
    by (intro that [of d]) (simp_all add: eBBTF_utils_set_i2c_bus_def on_hw_def on_rest_def)
qed


lemma update_chip_simps [simp]:
  "rest (update_chip dev g sys) = rest sys" "i2c_eeprom_testbuf2 (update_chip dev g sys) = i2c_eeprom_testbuf2 sys"
  "i2c_cur_bus (update_chip dev g sys) = i2c_cur_bus sys"
  by (simp_all add: update_chip_def)

lemma platdata_update_chip:
  "i < length (children sys bus) \<Longrightarrow> parent_platdata (bus, i) (update_chip (bus, i) g sys) = g (parent_platdata (bus, i) sys)"
  "length (children (update_chip (bus, i) g sys) bus) = length (children sys bus)"
  by (simp_all add: update_chip_def parent_platdata_def)

lemma plain_bus_update_chip:
  assumes "plain_bus bus sys" "i < length (children sys bus)" "plain_chip (g (parent_platdata (bus, i) sys))"
  shows "plain_bus bus (update_chip (bus, i) g sys)"
  using assms by (auto simp: plain_bus_def update_chip_def list_all_length nth_list_update)

lemma plain_bus_nth: "plain_bus bus sys \<Longrightarrow> i < length (children sys bus) \<Longrightarrow> plain_chip (parent_platdata (bus, i) sys)"
  by (simp add: plain_bus_def parent_platdata_def list_all_length)

lemma set_offset_len_ready:
  assumes "plain_bus bus sys" "i < length (children sys bus)" "n = 1 \<or> n = 2"
  defines "sys' \<equiv> update_chip (bus, i) (\<lambda>c. c\<lparr>offset_len := of_nat n\<rparr>) sys"
  shows "i2c_set_chip_offset_len (bus, i) (of_nat n) sys = (0, sys')" "plain_bus bus sys'"
    "length (children sys' bus) = length (children sys bus)" "offset_len (parent_platdata (bus, i) sys') = of_nat n"
    "chip_addr (parent_platdata (bus, i) sys') = chip_addr (parent_platdata (bus, i) sys)"
proof -
  have "plain_chip (parent_platdata (bus, i) sys)" using assms(1,2) by (rule plain_bus_nth)
  then show "plain_bus bus sys'"
    unfolding sys'_def by (intro plain_bus_update_chip assms(1,2)) (simp add: plain_chip_def)
  show "i2c_set_chip_offset_len (bus, i) (of_nat n) sys = (0, sys')"
    using assms(3) by (auto simp: i2c_set_chip_offset_len_def I2C_MAX_OFFSET_LEN_def sys'_def)
qed (simp_all add: sys'_def platdata_update_chip assms(2))

lemma int8_0 [simp]: "int8 0 = 0"
  by (simp add: int8_def)

lemma unat_ucast_u8: "unat (ucast (r :: u8) :: u32) = unat r"
proof -
  have "unat r < 2 ^ 8" using unsigned_less [of r] by simp
  then have "take_bit 32 (unat r) = unat r" by (simp add: take_bit_nat_eq_self)
  then show ?thesis by (simp add: unsigned_ucast_eq)
qed

lemma i2c_write_ready:
  assumes ready: "bus_ready dm num bus regs" and chip: "register_chip dm bus caddr n regs" and n: "n = 1 \<or> n = 2"
    and plain: "plain_bus bus (hw s)" and len: "unat reg + length bytes \<le> 2 ^ (8 * n)"
  obtains h where "eBBTF_utils_i2c_write dm num caddr reg (of_nat n) bytes s = (DIAG_TEST_RESULT_PASS, s\<lparr>hw := h\<rparr>)"
    "regs (rest h) = stored (regs (rest (hw s))) (ucast reg) bytes" "plain_bus bus h"
    "i2c_eeprom_testbuf2 h = i2c_eeprom_testbuf2 (hw s)"
proof -
  obtain d where s1: "eBBTF_utils_set_i2c_bus dm (ucast num) s = (0, s\<lparr>hw := (hw s)\<lparr>rest := d, i2c_cur_bus := Some bus\<rparr>\<rparr>)"
    and d: "regs d = regs (rest (hw s))"
    by (rule set_i2c_bus_ready [OF ready])
  let ?h1 = "(hw s)\<lparr>rest := d, i2c_cur_bus := Some bus\<rparr>"
  have p1: "plain_bus bus ?h1" using plain by (simp add: plain_bus_def)
  obtain i h2 where g: "i2c_get_chip dm bus caddr (of_nat n) ?h1 = (0, Some (bus, i), h2)"
    and i: "i < length (children h2 bus)" and a: "chip_addr (children h2 bus ! i) = caddr" and p2: "plain_bus bus h2"
    and r2: "regs (rest h2) = regs (rest ?h1)" and t2: "i2c_eeprom_testbuf2 h2 = i2c_eeprom_testbuf2 ?h1"
    by (rule i2c_get_chip_ready [OF ready p1])
  define h3 where "h3 = update_chip (bus, i) (\<lambda>c. c\<lparr>offset_len := of_nat n\<rparr>) h2"
  note o = set_offset_len_ready [OF p2 i n, folded h3_def]
  define h4 where "h4 = update_chip (bus, i) (\<lambda>c. c\<lparr>chip_flags := chip_flags c OR DM_I2C_CHIP_WR_ADDRESS\<rparr>) h3"
  have i3: "i < length (children h3 bus)" using i o(3) by simp
  have pc3: "plain_chip (parent_platdata (bus, i) h3)" by (rule plain_bus_nth [OF o(2) i3])
  have pd: "parent_platdata (bus, i) h4 = (parent_platdata (bus, i) h3)
      \<lparr>chip_flags := chip_flags (parent_platdata (bus, i) h3) OR DM_I2C_CHIP_WR_ADDRESS\<rparr>"
    unfolding h4_def by (rule platdata_update_chip(1) [OF i3])
  have pc4: "plain_chip (parent_platdata (bus, i) h4)"
    using pc3 unfolding pd plain_chip_def by (auto simp: DM_I2C_CHIP_WR_ADDRESS_def)
  have p4: "plain_bus bus h4"
    unfolding h4_def by (rule plain_bus_update_chip [OF o(2) i3]) (use pc4 in \<open>simp add: pd\<close>)
  have wr: "chip_flags (parent_platdata (bus, i) h4) AND DM_I2C_CHIP_WR_ADDRESS \<noteq> 0"
    using pc3 unfolding pd plain_chip_def by (auto simp: DM_I2C_CHIP_WR_ADDRESS_def)
  have al: "chip_addr (parent_platdata (bus, i) h4) = caddr" "offset_len (parent_platdata (bus, i) h4) = of_nat n"
    unfolding pd using o(4,5) a by (simp_all add: parent_platdata_def)
  obtain f where f: "xfer (i2c_get_ops dm bus) = Some f" using chip unfolding register_chip_def by blast
  have u: "unat (ucast reg :: u32) + length bytes \<le> 2 ^ (8 * n)" using len by (simp add: unat_ucast_u8)
  obtain d5 where w: "i2c_write_bytewise f (bus, i) (ucast reg) bytes h4 = Some (0, h4\<lparr>rest := d5\<rparr>)"
      "regs d5 = stored (regs (rest h4)) (ucast reg) bytes"
    using write_bytewise_ready [OF chip n f pc4 al u] by blast
  have "dm_i2c_write dm (bus, i) (ucast reg) bytes h4 = Some (0, h4\<lparr>rest := d5\<rparr>)"
    unfolding dm_i2c_write_def Let_def by (simp add: f wr w(1))
  then have "eBBTF_utils_i2c_write dm num caddr reg (of_nat n) bytes s = (DIAG_TEST_RESULT_PASS, s\<lparr>hw := h4\<lparr>rest := d5\<rparr>\<rparr>)"
    unfolding eBBTF_utils_i2c_write_def Let_def
    by (simp add: s1 eBBTF_utils_get_i2c_bus_def g on_hw_def o(1) h4_def [symmetric])
  then show ?thesis
    by (rule that) (use w(2) p4 r2 t2 d in \<open>simp_all add: h4_def h3_def plain_bus_def\<close>)
qed


lemma i2c_read_ready:
  assumes ready: "bus_ready dm num bus regs" and chip: "register_chip dm bus caddr n regs" and n: "n = 1 \<or> n = 2"
    and plain: "plain_bus bus (hw s)" and len: "unat reg + length buf \<le> 2 ^ (8 * n)" and ne: "buf \<noteq> []"
  obtains h where "eBBTF_utils_i2c_read dm num caddr reg (of_nat n) buf s =
      (DIAG_TEST_RESULT_PASS, map (\<lambda>k. regs (rest (hw s)) (ucast reg + of_nat k)) [0..<length buf], s\<lparr>hw := h\<rparr>)"
    "regs (rest h) = regs (rest (hw s))" "plain_bus bus h"
    "i2c_eeprom_testbuf2 h = i2c_eeprom_testbuf2 (hw s)"
proof -
  obtain d where s1: "eBBTF_utils_set_i2c_bus dm (ucast num) s = (0, s\<lparr>hw := (hw s)\<lparr>rest := d, i2c_cur_bus := Some bus\<rparr>\<rparr>)"
    and d: "regs d = regs (rest (hw s))"
    by (rule set_i2c_bus_ready [OF ready])
  let ?h1 = "(hw s)\<lparr>rest := d, i2c_cur_bus := Some bus\<rparr>"
  have p1: "plain_bus bus ?h1" using plain by (simp add: plain_bus_def)
  obtain i h2 where g: "i2c_get_chip dm bus caddr (of_nat n) ?h1 = (0, Some (bus, i), h2)"
    and i: "i < length (children h2 bus)" and a: "chip_addr (children h2 bus ! i) = caddr" and p2: "plain_bus bus h2"
    and r2: "regs (rest h2) = regs (rest ?h1)" and t2: "i2c_eeprom_testbuf2 h2 = i2c_eeprom_testbuf2 ?h1"
    by (rule i2c_get_chip_ready [OF ready p1])
  define h3 where "h3 = update_chip (bus, i) (\<lambda>c. c\<lparr>offset_len := of_nat n\<rparr>) h2"
  note o = set_offset_len_ready [OF p2 i n, folded h3_def]
  have i3: "i < length (children h3 bus)" using i o(3) by simp
  have pc3: "plain_chip (parent_platdata (bus, i) h3)" by (rule plain_bus_nth [OF o(2) i3])
  have al: "chip_addr (parent_platdata (bus, i) h3) = caddr"
    unfolding o(5) using a by (simp add: parent_platdata_def)
  have u: "unat (ucast reg :: u32) + length buf \<le> 2 ^ (8 * n)" using len by (simp add: unat_ucast_u8)
  obtain d5 where w: "dm_i2c_read dm (bus, i) (ucast reg) buf h3 =
      Some (0, map (\<lambda>k. regs (rest h3) (ucast reg + of_nat k)) [0..<length buf], h3\<lparr>rest := d5\<rparr>)"
      "regs d5 = regs (rest h3)"
    using dm_i2c_read_ready [OF chip n pc3 al o(4) u ne] by blast
  have r3: "regs (rest h3) = regs (rest (hw s))" using r2 d by (simp add: h3_def)
  have "eBBTF_utils_i2c_read dm num caddr reg (of_nat n) buf s =
      (DIAG_TEST_RESULT_PASS, map (\<lambda>k. regs (rest (hw s)) (ucast reg + of_nat k)) [0..<length buf], s\<lparr>hw := h3\<lparr>rest := d5\<rparr>\<rparr>)"
    unfolding eBBTF_utils_i2c_read_def Let_def
    by (simp add: s1 eBBTF_utils_get_i2c_bus_def g on_hw_def o(1) w(1) r3)
  then show ?thesis
    by (rule that) (use w(2) o(2) r3 t2 in \<open>simp_all add: h3_def plain_bus_def\<close>)
qed


lemma stored_apply:
  assumes "length bytes < 2 ^ 32"
  shows "stored r off bytes x = (if unat (x - off) < length bytes then bytes ! unat (x - off) else r x)"
  using assms
proof (induction bytes arbitrary: r off)
  case (Cons b bytes)
  show ?case
  proof (cases "x = off")
    case True
    have "unat (x - (off + 1)) = 2 ^ 32 - 1" unfolding True by (simp add: unsigned_minus_1_eq_mask mask_eq_exp_minus_1)
    then show ?thesis using Cons.IH [of "r(off := b)" "off + 1"] Cons.prems True
      by (simp add: stored_Cons fun_upd_def)
  next
    case False
    define y where "y = x - (off + 1)"
    have xy: "x - off = y + 1" by (simp add: y_def)
    have "y + 1 \<noteq> 0" using False xy by (metis eq_iff_diff_eq_0)
    then have "unat (y + 1) \<noteq> 0" by (simp add: unat_eq_0)
    moreover have "unat (y + 1) = (unat y + 1) mod 4294967296" by (simp add: unat_word_ariths)
    moreover have "unat y < 4294967296" using unsigned_less [of y] by simp
    ultimately have "unat (y + 1) = Suc (unat y)" by (cases "unat y + 1 = 4294967296") auto
    then show ?thesis using Cons.IH [of "r(off := b)" "off + 1"] Cons.prems False
      by (simp add: stored_Cons fun_upd_def xy y_def [symmetric])
  qed
qed simp

subsection \<open>The EEPROM test\<close>

lemma page_reg:
  fixes e :: u8
  assumes "e \<le> 128" "k < 128"
  shows "ucast (e + of_nat k) = (ucast e + of_nat k :: u32)" "unat (e + of_nat k) = unat e + k"
proof -
  have "unat e \<le> 128" using assms(1) by (simp add: word_le_nat_alt)
  then show u: "unat (e + of_nat k) = unat e + k" using assms(2) by (simp add: unat_word_ariths unat_of_nat)
  have "unat (ucast e + of_nat k :: u32) = unat e + k"
    using assms(2) \<open>unat e \<le> 128\<close> by (simp add: unat_word_ariths unat_of_nat unat_ucast_u8)
  then show "ucast (e + of_nat k) = (ucast e + of_nat k :: u32)"
    by (simp add: word_unat_eq_iff u unat_ucast_u8)
qed


lemma write_pages_ready:
  assumes ready: "bus_ready dm (i2c_bus_num a) bus regs" and chip: "register_chip dm bus (ucast (eeprom_dev_addr a)) 2 regs"
    and e: "eeprom_offset a \<le> 128"
    and plain: "plain_bus bus (hw s)" and offs: "\<forall>x\<in>set offs. x \<le> 96"
  shows "\<exists>h. write_pages dm a (replicate TEST_BUFFER_LEN v) offs s = (DIAG_TEST_RESULT_PASS, s\<lparr>hw := h\<rparr>) \<and>
    plain_bus bus h \<and> i2c_eeprom_testbuf2 h = i2c_eeprom_testbuf2 (hw s) \<and>
    (\<forall>x. regs (rest h) x = (if \<exists>p\<in>set offs. unat (x - (ucast (eeprom_offset a) + of_nat p)) < 32 then v
      else regs (rest (hw s)) x))"
  using plain offs
proof (induction offs arbitrary: s)
  case Nil
  show ?case by (rule exI [of _ "hw s"]) (use Nil in simp)
next
  case (Cons p offs)
  have p: "p \<le> 96" using Cons.prems by simp
  let ?e = "eeprom_offset a + of_nat p" and ?b = "take EEPROM_PAGE_LEN (drop p (replicate TEST_BUFFER_LEN v))"
  have b: "?b = replicate 32 v" using p by (simp add: EEPROM_PAGE_LEN_def TEST_BUFFER_LEN_def)
  have pg: "ucast ?e = (ucast (eeprom_offset a) + of_nat p :: u32)" "unat ?e = unat (eeprom_offset a) + p"
    using page_reg [OF e, of p] p by simp_all
  have "unat (eeprom_offset a) \<le> 128" using e by (simp add: word_le_nat_alt)
  then have len: "unat ?e + length ?b \<le> 2 ^ (8 * 2)" using pg(2) p b by simp
  obtain h1 where w: "eBBTF_utils_i2c_write dm (i2c_bus_num a) (ucast (eeprom_dev_addr a)) ?e (of_nat 2) ?b s =
      (DIAG_TEST_RESULT_PASS, s\<lparr>hw := h1\<rparr>)" "regs (rest h1) = stored (regs (rest (hw s))) (ucast ?e) ?b" "plain_bus bus h1"
      "i2c_eeprom_testbuf2 h1 = i2c_eeprom_testbuf2 (hw s)"
    by (rule i2c_write_ready [OF ready chip _ Cons.prems(1) len]) simp
  have r: "regs (rest h1) x = (if unat (x - (ucast (eeprom_offset a) + of_nat p)) < 32 then v else regs (rest (hw s)) x)" for x
    unfolding w(2) b pg(1) by (simp add: stored_apply)
  obtain h where h: "write_pages dm a (replicate TEST_BUFFER_LEN v) offs (s\<lparr>hw := h1\<rparr>) = (DIAG_TEST_RESULT_PASS, s\<lparr>hw := h1\<rparr>\<lparr>hw := h\<rparr>)"
      "plain_bus bus h" "i2c_eeprom_testbuf2 h = i2c_eeprom_testbuf2 (hw (s\<lparr>hw := h1\<rparr>))"
      "\<forall>x. regs (rest h) x = (if \<exists>p\<in>set offs. unat (x - (ucast (eeprom_offset a) + of_nat p)) < 32 then v
        else regs (rest (hw (s\<lparr>hw := h1\<rparr>))) x)"
    using Cons.IH [of "s\<lparr>hw := h1\<rparr>"] w(3) Cons.prems by auto
  have "write_pages dm a (replicate TEST_BUFFER_LEN v) (p # offs) s = (DIAG_TEST_RESULT_PASS, s\<lparr>hw := h\<rparr>)"
    using w(1) h(1) by (simp add: EEPROM_OFFSET_LEN_def)
  then show ?case using h(2,3,4) w(4) r by (intro exI [of _ h]) auto
qed

lemma read_pages_ready:
  assumes ready: "bus_ready dm (i2c_bus_num a) bus regs" and chip: "register_chip dm bus (ucast (eeprom_dev_addr a)) 2 regs"
    and e: "eeprom_offset a \<le> 128"
    and plain: "plain_bus bus (hw s)" and offs: "\<forall>x\<in>set offs. x \<le> 96"
    and buf: "length (i2c_eeprom_testbuf2 (hw s)) = 128"
  shows "\<exists>h. read_pages dm a offs s = (DIAG_TEST_RESULT_PASS, s\<lparr>hw := h\<rparr>) \<and> regs (rest h) = regs (rest (hw s)) \<and>
    length (i2c_eeprom_testbuf2 h) = 128 \<and>
    (\<forall>k<128. i2c_eeprom_testbuf2 h ! k = (if \<exists>p\<in>set offs. p \<le> k \<and> k < p + 32
       then regs (rest (hw s)) (ucast (eeprom_offset a) + of_nat k) else i2c_eeprom_testbuf2 (hw s) ! k))"
  using plain offs buf
proof (induction offs arbitrary: s)
  case Nil
  show ?case by (rule exI [of _ "hw s"]) (use Nil in simp)
next
  case (Cons p offs)
  have p: "p \<le> 96" using Cons.prems by simp
  let ?t = "i2c_eeprom_testbuf2 (hw s)"
  let ?e = "eeprom_offset a + of_nat p" and ?b = "take EEPROM_PAGE_LEN (drop p ?t)"
  have b: "length ?b = 32" using p Cons.prems(3) by (simp add: EEPROM_PAGE_LEN_def)
  have pg: "ucast ?e = (ucast (eeprom_offset a) + of_nat p :: u32)" "unat ?e = unat (eeprom_offset a) + p"
    using page_reg [OF e, of p] p by simp_all
  have "unat (eeprom_offset a) \<le> 128" using e by (simp add: word_le_nat_alt)
  then have len: "unat ?e + length ?b \<le> 2 ^ (8 * 2)" using pg(2) p b by simp
  have ne: "?b \<noteq> []" using b by auto
  let ?m = "map (\<lambda>k. regs (rest (hw s)) (ucast ?e + of_nat k)) [0..<32]"
  obtain h1 where w: "eBBTF_utils_i2c_read dm (i2c_bus_num a) (ucast (eeprom_dev_addr a)) ?e (of_nat 2) ?b s =
      (DIAG_TEST_RESULT_PASS, ?m, s\<lparr>hw := h1\<rparr>)" "regs (rest h1) = regs (rest (hw s))" "plain_bus bus h1"
      "i2c_eeprom_testbuf2 h1 = ?t"
    using i2c_read_ready [OF ready chip _ Cons.prems(1) len ne] b by auto
  let ?t1 = "take p ?t @ ?m @ drop (p + EEPROM_PAGE_LEN) ?t"
  let ?s1 = "s\<lparr>hw := h1\<lparr>i2c_eeprom_testbuf2 := ?t1\<rparr>\<rparr>"
  have l1: "length ?t1 = 128" using Cons.prems(3) p by (simp add: EEPROM_PAGE_LEN_def)
  have t1: "?t1 ! k = (if p \<le> k \<and> k < p + 32 then regs (rest (hw s)) (ucast (eeprom_offset a) + of_nat k) else ?t ! k)"
    if "k < 128" for k
  proof (cases "p \<le> k \<and> k < p + 32")
    case True
    then obtain j where j: "k = p + j" "j < 32" by (metis le_add_diff_inverse nat_add_left_cancel_less)
    then show ?thesis using Cons.prems(3) p by (simp add: nth_append pg(1) add.assoc)
  next
    case False
    then show ?thesis using Cons.prems(3) p that by (auto simp: nth_append EEPROM_PAGE_LEN_def min_def)
  qed
  have pl: "plain_bus bus (hw ?s1)" using w(3) by (simp add: plain_bus_def)
  obtain h where h: "read_pages dm a offs ?s1 = (DIAG_TEST_RESULT_PASS, ?s1\<lparr>hw := h\<rparr>)"
      "regs (rest h) = regs (rest (hw ?s1))" "length (i2c_eeprom_testbuf2 h) = 128"
      "\<forall>k<128. i2c_eeprom_testbuf2 h ! k = (if \<exists>p\<in>set offs. p \<le> k \<and> k < p + 32
         then regs (rest (hw ?s1)) (ucast (eeprom_offset a) + of_nat k) else i2c_eeprom_testbuf2 (hw ?s1) ! k)"
    using Cons.IH [of ?s1] pl Cons.prems(2) l1 by auto
  have "read_pages dm a (p # offs) s = (DIAG_TEST_RESULT_PASS, s\<lparr>hw := h\<rparr>)"
    using w(1) h(1) by (simp add: EEPROM_OFFSET_LEN_def)
  then show ?case using h(2,3,4) w(2) t1 by (intro exI [of _ h]) auto
qed


text \<open>
  (C29) On a chip that stores what is written to it, the EEPROM test passes and prints nothing;
  afterwards the 128 bytes from the given offset hold the pattern and every other byte is as it
  was. The offset may be at most 128: offset and page are added in 8 bits.
\<close>

theorem eeprom_test_passes:
  assumes "bus_ready dm (i2c_bus_num a) bus regs" "register_chip dm bus (ucast (eeprom_dev_addr a)) 2 regs"
    and "eeprom_offset a \<le> 128" "plain_bus bus (hw s)" "length (i2c_eeprom_testbuf2 (hw s)) = 128"
    and "\<And>x v d. regs (bus_write b x v d) = regs d"
  shows "\<exists>h. EEPROM_Read_Write_test b dm tid (Some a) s = (DIAG_TEST_RESULT_PASS, s\<lparr>hw := h\<rparr>) \<and>
    (\<forall>x. regs (rest h) x =
       (if unat (x - ucast (eeprom_offset a)) < 128 then 0xEA else regs (rest (hw s)) x))"
proof -
  let ?e = "ucast (eeprom_offset a) :: u32"
  have po: "page_offsets = [0, 32, 64, 96]"
    by (simp add: page_offsets_def TEST_BUFFER_LEN_def EEPROM_PAGE_LEN_def upt_rec)
  define s0 where "s0 = cfg_exp_i2c1_pin_mux b s"
  obtain h0 where s0: "s0 = s\<lparr>hw := h0\<rparr>" "regs (rest h0) = regs (rest (hw s))" "plain_bus bus h0"
      "i2c_eeprom_testbuf2 h0 = i2c_eeprom_testbuf2 (hw s)"
    using assms(4,6) by (intro that [of "hw s0"]) (simp_all add: s0_def cfg_exp_i2c1_pin_mux_def writel_def lift_bus_def plain_bus_def)
  have offs: "\<forall>x\<in>set page_offsets. x \<le> 96" by (simp add: po)
  obtain h1 where w: "write_pages dm a (replicate TEST_BUFFER_LEN EEPROM_TEST_PATTERN) page_offsets s0 =
        (DIAG_TEST_RESULT_PASS, s0\<lparr>hw := h1\<rparr>)" "plain_bus bus h1" "i2c_eeprom_testbuf2 h1 = i2c_eeprom_testbuf2 (hw s0)"
      "\<forall>x. regs (rest h1) x = (if \<exists>p\<in>set page_offsets. unat (x - (?e + of_nat p)) < 32 then EEPROM_TEST_PATTERN
        else regs (rest (hw s0)) x)"
    using write_pages_ready [OF assms(1-3) _ offs, of s0 EEPROM_TEST_PATTERN] s0 by auto
  have in_page: "(\<exists>p\<in>set page_offsets. unat (x - (?e + of_nat p)) < 32) \<longleftrightarrow> unat (x - ?e) < 128" for x
  proof -
    define y where "y = x - ?e"
    have "x - (?e + of_nat p) = y - of_nat p" for p by (simp add: y_def)
    moreover have "unat (y - of_nat p) < 32 \<longleftrightarrow> p \<le> unat y \<and> unat y < p + 32" if "p \<le> 96" for p
    proof -
      have "unat (of_nat p :: u32) = p" using that by (simp add: unat_of_nat)
      moreover have "unat y < 4294967296" using unsigned_less [of y] by simp
      ultimately show ?thesis using that by (simp add: unat_sub_if_size word_size) linarith
    qed
    ultimately have "(\<exists>p\<in>set page_offsets. unat (x - (?e + of_nat p)) < 32) \<longleftrightarrow>
        (\<exists>p\<in>set page_offsets. p \<le> unat y \<and> unat y < p + 32)" using offs by (metis (no_types, lifting))
    also have "\<dots> \<longleftrightarrow> unat y < 128" by (simp add: po) linarith
    finally show ?thesis by (simp only: y_def)
  qed
  have p1: "plain_bus bus (hw (s0\<lparr>hw := h1\<rparr>))" using w(2) by simp
  have l1: "length (i2c_eeprom_testbuf2 (hw (s0\<lparr>hw := h1\<rparr>))) = 128" using w(3) s0 assms(5) by simp
  have sel: "hw (s0\<lparr>hw := h1\<rparr>) = h1" by simp
  obtain h2 where r: "read_pages dm a page_offsets (s0\<lparr>hw := h1\<rparr>) = (DIAG_TEST_RESULT_PASS, s0\<lparr>hw := h1\<rparr>\<lparr>hw := h2\<rparr>)"
      "regs (rest h2) = regs (rest h1)" "length (i2c_eeprom_testbuf2 h2) = 128"
      "\<forall>k<128. i2c_eeprom_testbuf2 h2 ! k = (if \<exists>p\<in>set page_offsets. p \<le> k \<and> k < p + 32
         then regs (rest h1) (?e + of_nat k) else i2c_eeprom_testbuf2 h1 ! k)"
    using read_pages_ready [OF assms(1-3) p1 offs l1] unfolding sel by blast
  have "i2c_eeprom_testbuf2 h2 = replicate TEST_BUFFER_LEN EEPROM_TEST_PATTERN"
  proof (rule nth_equalityI)
    fix k assume "k < length (i2c_eeprom_testbuf2 h2)"
    then have k: "k < 128" using r(3) by simp
    then have "\<exists>p\<in>set page_offsets. p \<le> k \<and> k < p + 32" by (simp add: po) linarith
    moreover have "unat (?e + of_nat k - ?e) < 128" using k by (simp add: unat_of_nat)
    ultimately have "i2c_eeprom_testbuf2 h2 ! k = EEPROM_TEST_PATTERN" using r(4) w(4) in_page k by simp
    then show "i2c_eeprom_testbuf2 h2 ! k = replicate TEST_BUFFER_LEN EEPROM_TEST_PATTERN ! k"
      using k by (simp add: TEST_BUFFER_LEN_def)
  qed (simp add: r(3) TEST_BUFFER_LEN_def)
  then have "EEPROM_Read_Write_test b dm tid (Some a) s = (DIAG_TEST_RESULT_PASS, s\<lparr>hw := h2\<rparr>)"
    unfolding EEPROM_Read_Write_test_def Let_def s0_def [symmetric] using w(1) r(1) by (simp add: s0)
  moreover have "\<forall>x. regs (rest h2) x = (if unat (x - ?e) < 128 then 0xEA else regs (rest (hw s)) x)"
    unfolding r(2) using w(4) s0 by (simp add: in_page EEPROM_TEST_PATTERN_def)
  ultimately show ?thesis by blast
qed


text \<open>A register file behind a driver, as an instance of the hypotheses.\<close>

definition decode_offset :: "u8 list \<Rightarrow> u32" where
  "decode_offset bytes = foldl (\<lambda>acc b. push_bit 8 acc OR ucast b) 0 bytes"

definition file_xfer :: "nat \<Rightarrow> i2c_msg list \<Rightarrow> (u32 \<Rightarrow> u8) \<Rightarrow> int \<times> u8 list \<times> (u32 \<Rightarrow> u8)" where
  "file_xfer bus msgs r =
     (case msgs of
        [m] \<Rightarrow> (0, [], r(decode_offset (butlast (msg_buf m)) := last (msg_buf m)))
      | [m, rd] \<Rightarrow> (0, map (\<lambda>i. r (decode_offset (msg_buf m) + of_nat i)) [0..<unat (msg_len rd)], r)
      | _ \<Rightarrow> (- E_INVAL, [], r))"

definition file_core :: "(u32 \<Rightarrow> u8) dm_core" where
  "file_core =
     \<lparr>i2c_get_ops = (\<lambda>_. \<lparr>xfer = Some file_xfer, probe_chip = None, set_bus_speed = None, get_bus_speed = None, set_flags = None\<rparr>),
      uclass_get_device_by_seq = (\<lambda>n d. (0, nat n, d)), device_probe = (\<lambda>_ d. (0, d)),
      device_bind_driver = (\<lambda>_ _ d. (0, d)), malloc_ok = (\<lambda>_ d. (True, d))\<rparr>"

lemma decode_offset_bytes:
  assumes "n = 1 \<or> n = 2" "unat off < 2 ^ (8 * n)"
  shows "decode_offset (offset_bytes n off) = off"
proof -
  have b: "bit off k \<Longrightarrow> k < 8 * n" for k using bit_less_power [OF assms(2)] .
  from assms(1) show ?thesis
  proof
    assume n: "n = 1"
    show ?thesis unfolding n
      by (rule bit_word_eqI) (use b n in \<open>auto simp: decode_offset_def offset_bytes_def bit_simps\<close>)
  next
    assume n: "n = 2"
    have "offset_bytes 2 off = [ucast (drop_bit 8 off), ucast off]"
      by (simp add: offset_bytes_def upt_rec)
    then show ?thesis unfolding n
      by (intro bit_word_eqI) (use b n in \<open>auto simp: decode_offset_def bit_simps not_less dest: b\<close>)
  qed
qed

lemma register_file: "n = 1 \<or> n = 2 \<Longrightarrow> register_chip file_core bus caddr n (\<lambda>d. d)"
  unfolding register_chip_def
  by (rule exI [of _ file_xfer]) (auto simp: file_core_def file_xfer_def decode_offset_bytes butlast_append)

lemma bus_ready_file: "bus_ready file_core num (nat (uint num)) (\<lambda>d. d)"
  by (simp add: bus_ready_def file_core_def)


definition idle_bus :: "'d bus" where
  "idle_bus = \<lparr>bus_read = (\<lambda>_ d. (0, d)), bus_write = (\<lambda>_ _ d. d), bus_flush = (\<lambda>d. d)\<rparr>"

definition file_io :: "(u32 \<Rightarrow> u8) i2c_sys io" where
  "file_io = \<lparr>console = [], s_logMode = CONSOLE_LOG_MODE, s_logMask = LOG_MASK_ALL, curTestId = 0,
     hw = \<lparr>children = (\<lambda>_. []), speed_hz = (\<lambda>_. 0), i2c_cur_bus = None,
           i2c_eeprom_testbuf2 = replicate 128 0, rest = (\<lambda>_. 0)\<rparr>, ub = False\<rparr>"

theorem eeprom_test_passes_witness:
  "\<exists>h. EEPROM_Read_Write_test idle_bus file_core 1
      (Some \<lparr>i2c_bus_num = 1, eeprom_dev_addr = 0x50, eeprom_offset = 128, test_len = 128\<rparr>) file_io =
    (DIAG_TEST_RESULT_PASS, file_io\<lparr>hw := h\<rparr>) \<and> rest h 200 = 0xEA \<and> rest h 300 = 0"
proof -
  let ?a = "\<lparr>i2c_bus_num = 1, eeprom_dev_addr = 0x50, eeprom_offset = 128, test_len = 128\<rparr> :: A_EEPROM_Read_Write_test"
  have r: "bus_ready file_core (i2c_bus_num ?a) (nat (uint (i2c_bus_num ?a))) (\<lambda>d. d)" by (rule bus_ready_file)
  have c: "register_chip file_core (nat (uint (i2c_bus_num ?a))) (ucast (eeprom_dev_addr ?a)) 2 (\<lambda>d. d)"
    by (rule register_file) simp
  have "plain_bus (nat (uint (i2c_bus_num ?a))) (hw file_io)" "length (i2c_eeprom_testbuf2 (hw file_io)) = 128"
    "eeprom_offset ?a \<le> 128" by (simp_all add: plain_bus_def file_io_def)
  then obtain h where h: "EEPROM_Read_Write_test idle_bus file_core 1 (Some ?a) file_io =
      (DIAG_TEST_RESULT_PASS, file_io\<lparr>hw := h\<rparr>)"
    "\<forall>x. rest h x = (if unat (x - ucast (eeprom_offset ?a)) < 128 then 0xEA else rest (hw file_io) x)"
    using eeprom_test_passes [OF r c, where b = idle_bus and tid = 1 and s = file_io] by (auto simp: idle_bus_def)
  moreover have "rest h 200 = 0xEA" "rest h 300 = 0" using h(2) by (simp_all add: file_io_def)
  ultimately show ?thesis by blast
qed

subsection \<open>The clock\<close>

lemma bcd_roundtrip:
  fixes v :: u8
  assumes "v \<le> 59"
  shows "ucast (bcd2bin (ucast ((ucast (bin2bcd (ucast v)) :: u8) AND 0x7f))) = v"
proof -
  have "list_all (\<lambda>k. ucast (bcd2bin (ucast ((ucast (bin2bcd (ucast (of_nat k :: u8))) :: u8) AND 0x7f))) = (of_nat k :: u8))
    [0..<60]" by code_simp
  then have "\<forall>k<60. ucast (bcd2bin (ucast ((ucast (bin2bcd (ucast (of_nat k :: u8))) :: u8) AND 0x7f))) = (of_nat k :: u8)"
    by (simp only: list_all_iff) simp
  moreover have "unat v < 60" using assms by (simp add: word_le_nat_alt)
  ultimately have "ucast (bcd2bin (ucast ((ucast (bin2bcd (ucast (of_nat (unat v) :: u8))) :: u8) AND 0x7f))) =
    (of_nat (unat v) :: u8)" by blast
  then show ?thesis by simp
qed


text \<open>\<open>speed_ready\<close>: the driver accepts every speed.\<close>

definition speed_ready :: "'d dm_core \<Rightarrow> nat \<Rightarrow> ('d \<Rightarrow> u32 \<Rightarrow> u8) \<Rightarrow> bool" where
  "speed_ready dm bus regs \<longleftrightarrow>
     (\<forall>f. get_bus_speed (i2c_get_ops dm bus) = Some f \<longrightarrow> (\<forall>d. regs (snd (f bus d)) = regs d)) \<and>
     (\<forall>f. set_bus_speed (i2c_get_ops dm bus) = Some f \<longrightarrow> (\<forall>v d. \<exists>d'. f bus v d = (0, d') \<and> regs d' = regs d))"

lemma printf_io_console:
  assumes "emit fmt (map skel args) \<noteq> None"
  obtains t where "printf_io fmt args s = s\<lparr>console := console s @ t\<rparr>"
  using printf_matches [OF assms] by (auto simp: printf_io_def split: option.splits)

lemma speed_formats:
  "emit ''Current bus speed=%d\<newline>'' [VInt 0] \<noteq> None"
  "emit ''Setting bus speed to %d Hz\<newline>'' [VInt 0] \<noteq> None"
  by code_simp+

lemma bus_speed_ready:
  assumes "speed_ready dm bus regs" "i2c_cur_bus (hw s) = Some bus" "plain_bus bus (hw s)"
  obtains h t where "eBBTF_utils_i2c_bus_speed dm v s = (0, s\<lparr>console := console s @ t, hw := h\<rparr>)"
    "regs (rest h) = regs (rest (hw s))" "plain_bus bus h"
proof -
  obtain c h1 where g: "dm_i2c_get_bus_speed dm bus (hw s) = (c, h1)" "regs (rest h1) = regs (rest (hw s))"
      "plain_bus bus h1"
  proof (cases "get_bus_speed (i2c_get_ops dm bus)")
    case None
    then show ?thesis using assms(3) by (intro that [of _ "hw s"]) (simp_all add: dm_i2c_get_bus_speed_def)
  next
    case (Some f)
    then have "regs (snd (f bus (rest (hw s)))) = regs (rest (hw s))" using assms(1) by (simp add: speed_ready_def)
    then show ?thesis using Some assms(3)
      by (intro that [of "fst (f bus (rest (hw s)))" "(hw s)\<lparr>rest := snd (f bus (rest (hw s)))\<rparr>"])
        (simp_all add: dm_i2c_get_bus_speed_def on_rest_def case_prod_beta plain_bus_def)
  qed
  obtain h2 where w: "dm_i2c_set_bus_speed dm bus v h1 = (0, h2)" "regs (rest h2) = regs (rest h1)" "plain_bus bus h2"
  proof (cases "set_bus_speed (i2c_get_ops dm bus)")
    case None
    then show ?thesis using g(3)
      by (intro that [of "h1\<lparr>speed_hz := (speed_hz h1)(bus := v)\<rparr>"]) (simp_all add: dm_i2c_set_bus_speed_def plain_bus_def)
  next
    case (Some f)
    obtain d where "f bus v (rest h1) = (0, d)" "regs d = regs (rest h1)"
      using assms(1) Some unfolding speed_ready_def by blast
    then show ?thesis using Some g(3)
      by (intro that [of "h1\<lparr>rest := d, speed_hz := (speed_hz h1)(bus := v)\<rparr>"])
        (simp_all add: dm_i2c_set_bus_speed_def on_rest_def plain_bus_def)
  qed
  have e: "emit ''Current bus speed=%d\<newline>'' (map skel [VInt (of_int c)]) \<noteq> None" "emit ''Setting bus speed to %d Hz\<newline>'' (map skel [VInt v]) \<noteq> None"
    using speed_formats by (simp_all only: list.map skel.simps not_False_eq_True)
  let ?s1 = "s\<lparr>hw := h1\<rparr>"
  obtain t1 where t1: "printf_io ''Current bus speed=%d\<newline>'' [VInt (of_int c)] ?s1 = ?s1\<lparr>console := console ?s1 @ t1\<rparr>"
    by (rule printf_io_console [OF e(1)])
  let ?s2 = "?s1\<lparr>console := console ?s1 @ t1\<rparr>"
  obtain t2 where t2: "printf_io ''Setting bus speed to %d Hz\<newline>'' [VInt v] ?s2 = ?s2\<lparr>console := console ?s2 @ t2\<rparr>"
    by (rule printf_io_console [OF e(2)])
  have "eBBTF_utils_i2c_bus_speed dm v s = (0, s\<lparr>console := console s @ (t1 @ t2), hw := h2\<rparr>)"
    unfolding eBBTF_utils_i2c_bus_speed_def eBBTF_utils_get_i2c_bus_def assms(2) option.case prod.case on_hw_def g(1) Let_def t1 t2
    by (simp add: w(1))
  then show ?thesis by (rule that) (use w g in simp_all)
qed


text \<open>
  The steps of the clock tests only print and use the bus; \<open>clock_step\<close> is what they leave behind.
\<close>

definition clock_step :: "nat \<Rightarrow> ('d \<Rightarrow> u32 \<Rightarrow> u8) \<Rightarrow> 'd i2c_sys io \<Rightarrow> 'd i2c_sys io \<Rightarrow> bool" where
  "clock_step bus regs s s' \<longleftrightarrow> plain_bus bus (hw s') \<and> (\<exists>t. console s' = console s @ t) \<and> ub s' = ub s \<and>
     s_logMask s' = s_logMask s \<and> s_logMode s' = s_logMode s"

lemma clock_step_trans: "clock_step bus regs s s' \<Longrightarrow> clock_step bus regs s' s'' \<Longrightarrow> clock_step bus regs s s''"
  by (auto simp: clock_step_def)

lemma clock_step_hw: "plain_bus bus h \<Longrightarrow> clock_step bus regs s (s\<lparr>hw := h\<rparr>)"
  by (simp add: clock_step_def)

lemma rtc_init_ready:
  assumes ready: "bus_ready dm num bus regs" and chip: "register_chip dm bus (ucast ca) 1 regs"
    and speed: "speed_ready dm bus regs" and mux: "\<And>x v d. regs (bus_write b x v d) = regs d"
    and plain: "plain_bus bus (hw s)"
  obtains s' where "ds2321_rtc_init b dm tid ca num v s = (DIAG_TEST_RESULT_PASS, s')" "clock_step bus regs s s'"
    "\<forall>x. x \<noteq> 15 \<longrightarrow> regs (rest (hw s')) x = regs (rest (hw s)) x"
proof -
  define s0 where "s0 = cfg_exp_i2c1_pin_mux b s"
  have s0: "s0 = s\<lparr>hw := hw s0\<rparr>" "regs (rest (hw s0)) = regs (rest (hw s))" "plain_bus bus (hw s0)"
    using plain mux by (simp_all add: s0_def cfg_exp_i2c1_pin_mux_def writel_def lift_bus_def plain_bus_def)
  obtain d where s1: "eBBTF_utils_set_i2c_bus dm (ucast num) s0 = (0, s0\<lparr>hw := (hw s0)\<lparr>rest := d, i2c_cur_bus := Some bus\<rparr>\<rparr>)"
    and d: "regs d = regs (rest (hw s0))"
    by (rule set_i2c_bus_ready [OF ready])
  define s1 where "s1 = s0\<lparr>hw := (hw s0)\<lparr>rest := d, i2c_cur_bus := Some bus\<rparr>\<rparr>"
  have p1: "i2c_cur_bus (hw s1) = Some bus" "plain_bus bus (hw s1)" "regs (rest (hw s1)) = regs (rest (hw s))"
    using s0(2,3) d by (simp_all add: s1_def plain_bus_def)
  obtain h2 t where sp: "eBBTF_utils_i2c_bus_speed dm v s1 = (0, s1\<lparr>console := console s1 @ t, hw := h2\<rparr>)"
      "regs (rest h2) = regs (rest (hw s1))" "plain_bus bus h2"
    by (rule bus_speed_ready [OF speed p1(1,2)])
  define s2 where "s2 = s1\<lparr>console := console s1 @ t, hw := h2\<rparr>"
  have p2: "plain_bus bus (hw s2)" using sp(3) by (simp add: s2_def)
  have l: "unat DS2321_RTC_CTL_STATUS_REG_ADDR + length [0 :: u8] \<le> 2 ^ (8 * 1)" by (simp add: DS2321_RTC_CTL_STATUS_REG_ADDR_def)
  obtain h3 where r: "eBBTF_utils_i2c_read dm num (ucast ca) DS2321_RTC_CTL_STATUS_REG_ADDR (of_nat 1) [0] s2 =
      (DIAG_TEST_RESULT_PASS, map (\<lambda>k. regs (rest (hw s2)) (ucast DS2321_RTC_CTL_STATUS_REG_ADDR + of_nat k)) [0..<length [0 :: u8]], s2\<lparr>hw := h3\<rparr>)"
      "regs (rest h3) = regs (rest (hw s2))" "plain_bus bus h3"
    by (rule i2c_read_ready [OF ready chip _ p2 l]) simp_all
  let ?v = "(regs (rest (hw s2)) 15 OR DS2321_SELECT_EXT_CLK) OR DS2321_SELECT_EXT_32KHZ"
  have p3: "plain_bus bus (hw (s2\<lparr>hw := h3\<rparr>))" using r(3) by simp
  have l3: "unat DS2321_RTC_CTL_STATUS_REG_ADDR + length [?v] \<le> 2 ^ (8 * 1)" by (simp add: DS2321_RTC_CTL_STATUS_REG_ADDR_def)
  obtain h4 where w: "eBBTF_utils_i2c_write dm num (ucast ca) DS2321_RTC_CTL_STATUS_REG_ADDR (of_nat 1) [?v] (s2\<lparr>hw := h3\<rparr>) =
      (DIAG_TEST_RESULT_PASS, s2\<lparr>hw := h3\<rparr>\<lparr>hw := h4\<rparr>)"
      "regs (rest h4) = stored (regs (rest (hw (s2\<lparr>hw := h3\<rparr>)))) (ucast DS2321_RTC_CTL_STATUS_REG_ADDR) [?v]" "plain_bus bus h4"
    by (rule i2c_write_ready [OF ready chip _ p3 l3]) simp_all
  have c: "ucast DS2321_RTC_CTL_STATUS_REG_ADDR = (15 :: u32)" by (simp add: DS2321_RTC_CTL_STATUS_REG_ADDR_def)
  have "ds2321_rtc_init b dm tid ca num v s = (DIAG_TEST_RESULT_PASS, s2\<lparr>hw := h4\<rparr>)"
    unfolding ds2321_rtc_init_def Let_def s0_def [symmetric] s1 prod.case s1_def [symmetric] sp(1) s2_def [symmetric] int8_0
    using r(1) w(1) by (simp add: c)
  moreover have "clock_step bus regs s (s2\<lparr>hw := h4\<rparr>)"
  proof -
    have "clock_step bus regs s s0" by (subst s0(1)) (rule clock_step_hw [OF s0(3)])
    moreover have "clock_step bus regs s0 (s2\<lparr>hw := h4\<rparr>)"
      using w(3) by (auto simp: clock_step_def s2_def s1_def)
    ultimately show ?thesis by (rule clock_step_trans)
  qed
  moreover have "\<forall>x. x \<noteq> 15 \<longrightarrow> regs (rest (hw (s2\<lparr>hw := h4\<rparr>))) x = regs (rest (hw s)) x"
    using w(2) r(2) sp(2) p1(3) by (simp add: c s2_def stored_Cons)
  ultimately show ?thesis by (rule that)
qed


lemma rtc_read_reg_ready:
  assumes "bus_ready dm (i2c_bus a) bus regs" "register_chip dm bus (ucast (i2c_dev_addr a)) 1 regs" "plain_bus bus (hw s)"
  obtains h where "rtc_read_reg dm tid a reg s =
      (Some (ucast (bcd2bin (ucast (regs (rest (hw s)) (ucast reg) AND 0x7f)))), s\<lparr>hw := h\<rparr>)"
    "regs (rest h) = regs (rest (hw s))" "plain_bus bus h"
proof -
  have "unat reg < 2 ^ 8" using unsigned_less [of reg] by simp
  then have l: "unat reg + length [0 :: u8] \<le> 2 ^ (8 * 1)" by simp
  obtain h where r: "eBBTF_utils_i2c_read dm (i2c_bus a) (ucast (i2c_dev_addr a)) reg (of_nat 1) [0] s =
      (DIAG_TEST_RESULT_PASS, map (\<lambda>k. regs (rest (hw s)) (ucast reg + of_nat k)) [0..<length [0 :: u8]], s\<lparr>hw := h\<rparr>)"
      "regs (rest h) = regs (rest (hw s))" "plain_bus bus h"
    by (rule i2c_read_ready [OF assms(1,2) _ assms(3) l]) simp_all
  then show ?thesis by (intro that [of h]) (simp_all add: rtc_read_reg_def)
qed

lemma rtc_write_reg_ready:
  assumes "bus_ready dm (i2c_bus a) bus regs" "register_chip dm bus (ucast (i2c_dev_addr a)) 1 regs" "plain_bus bus (hw s)"
  obtains h where "rtc_write_reg dm tid a reg v s = (True, s\<lparr>hw := h\<rparr>)"
    "regs (rest h) = (regs (rest (hw s)))(ucast reg := ucast (bin2bcd (ucast v)))" "plain_bus bus h"
proof -
  let ?b = "[ucast (bin2bcd (ucast v)) :: u8]"
  have "unat reg < 2 ^ 8" using unsigned_less [of reg] by simp
  then have l: "unat reg + length ?b \<le> 2 ^ (8 * 1)" by simp
  obtain h where r: "eBBTF_utils_i2c_write dm (i2c_bus a) (ucast (i2c_dev_addr a)) reg (of_nat 1) ?b s =
      (DIAG_TEST_RESULT_PASS, s\<lparr>hw := h\<rparr>)"
      "regs (rest h) = stored (regs (rest (hw s))) (ucast reg) ?b" "plain_bus bus h"
    by (rule i2c_write_ready [OF assms(1,2) _ assms(3) l]) simp_all
  then show ?thesis by (intro that [of h]) (simp_all add: rtc_write_reg_def stored_Cons)
qed

lemma rtc_set_ready:
  assumes "bus_ready dm (i2c_bus a) bus regs" "register_chip dm bus (ucast (i2c_dev_addr a)) 1 regs"
    "speed_ready dm bus regs" "\<And>x v d. regs (bus_write b x v d) = regs d" "plain_bus bus (hw s)"
    and "sec_value a \<le> 59" "min_value a \<le> 59" "hour_value a \<le> 23"
  obtains s' where "ds2321_rtc_set_time_test b dm tid (Some a) s =
      (DIAG_TEST_RESULT_PASS, print_time (hour_value a) (min_value a) (sec_value a) s')"
    "clock_step bus regs s s'" "regs (rest (hw s')) 0 = ucast (bin2bcd (ucast (sec_value a)))"
    "regs (rest (hw s')) 1 = ucast (bin2bcd (ucast (min_value a)))"
    "regs (rest (hw s')) 2 = ucast (bin2bcd (ucast (hour_value a)))"
proof -
  obtain s0 where s0: "ds2321_rtc_init b dm tid (i2c_dev_addr a) (i2c_bus a) (i2c_speed a) s = (DIAG_TEST_RESULT_PASS, s0)"
      "clock_step bus regs s s0"
    by (rule rtc_init_ready [OF assms(1-5)])
  have p0: "plain_bus bus (hw s0)" using s0(2) by (simp add: clock_step_def)
  obtain h1 where w1: "rtc_write_reg dm tid a DS2321_RTC_SEC_REG_ADDR (sec_value a) s0 = (True, s0\<lparr>hw := h1\<rparr>)"
      "regs (rest h1) = (regs (rest (hw s0)))(ucast DS2321_RTC_SEC_REG_ADDR := ucast (bin2bcd (ucast (sec_value a))))" "plain_bus bus h1"
    by (rule rtc_write_reg_ready [OF assms(1,2) p0])
  let ?s1 = "s0\<lparr>hw := h1\<rparr>"
  have p1: "plain_bus bus (hw ?s1)" using w1(3) by simp
  obtain h2 where w2: "rtc_write_reg dm tid a DS2321_RTC_MIN_REG_ADDR (min_value a) ?s1 = (True, ?s1\<lparr>hw := h2\<rparr>)"
      "regs (rest h2) = (regs (rest (hw ?s1)))(ucast DS2321_RTC_MIN_REG_ADDR := ucast (bin2bcd (ucast (min_value a))))" "plain_bus bus h2"
    by (rule rtc_write_reg_ready [OF assms(1,2) p1])
  let ?s2 = "?s1\<lparr>hw := h2\<rparr>"
  have p2: "plain_bus bus (hw ?s2)" using w2(3) by simp
  obtain h3 where w3: "rtc_write_reg dm tid a DS2321_RTC_HR_REG_ADDR (hour_value a) ?s2 = (True, ?s2\<lparr>hw := h3\<rparr>)"
      "regs (rest h3) = (regs (rest (hw ?s2)))(ucast DS2321_RTC_HR_REG_ADDR := ucast (bin2bcd (ucast (hour_value a))))" "plain_bus bus h3"
    by (rule rtc_write_reg_ready [OF assms(1,2) p2])
  have n: "\<not> (59 < sec_value a \<or> 59 < min_value a \<or> 23 < hour_value a)" using assms(6-8) by (simp add: not_less)
  have "ds2321_rtc_set_time_test b dm tid (Some a) s =
      (DIAG_TEST_RESULT_PASS, print_time (hour_value a) (min_value a) (sec_value a) (s0\<lparr>hw := h3\<rparr>))"
    unfolding ds2321_rtc_set_time_test_def option.case Let_def using n w1(1) w2(1) w3(1) by (simp add: s0(1))
  moreover have "clock_step bus regs s (s0\<lparr>hw := h3\<rparr>)"
    by (rule clock_step_trans [OF s0(2) clock_step_hw [OF w3(3)]])
  moreover have "regs (rest (hw (s0\<lparr>hw := h3\<rparr>))) 0 = ucast (bin2bcd (ucast (sec_value a)))"
    "regs (rest (hw (s0\<lparr>hw := h3\<rparr>))) 1 = ucast (bin2bcd (ucast (min_value a)))"
    "regs (rest (hw (s0\<lparr>hw := h3\<rparr>))) 2 = ucast (bin2bcd (ucast (hour_value a)))"
    using w1(2) w2(2) w3(2)
    by (simp_all add: DS2321_RTC_SEC_REG_ADDR_def DS2321_RTC_MIN_REG_ADDR_def DS2321_RTC_HR_REG_ADDR_def)
  ultimately show ?thesis by (rule that)
qed

lemma rtc_get_ready:
  assumes "bus_ready dm (i2c_bus a) bus regs" "register_chip dm bus (ucast (i2c_dev_addr a)) 1 regs"
    "speed_ready dm bus regs" "\<And>x v d. regs (bus_write b x v d) = regs d" "plain_bus bus (hw s)"
  obtains s' where "ds2321_rtc_get_time_test b dm tid (Some a) s =
      (DIAG_TEST_RESULT_PASS, print_time (ucast (bcd2bin (ucast (regs (rest (hw s)) 2 AND 0x7f))))
         (ucast (bcd2bin (ucast (regs (rest (hw s)) 1 AND 0x7f)))) (ucast (bcd2bin (ucast (regs (rest (hw s)) 0 AND 0x7f)))) s')"
    "clock_step bus regs s s'"
proof -
  obtain s0 where s0: "ds2321_rtc_init b dm tid (i2c_dev_addr a) (i2c_bus a) (i2c_speed a) s = (DIAG_TEST_RESULT_PASS, s0)"
      "clock_step bus regs s s0" "\<forall>x. x \<noteq> 15 \<longrightarrow> regs (rest (hw s0)) x = regs (rest (hw s)) x"
    by (rule rtc_init_ready [OF assms(1-5)])
  have p0: "plain_bus bus (hw s0)" using s0(2) by (simp add: clock_step_def)
  let ?t = "\<lambda>s reg. ucast (bcd2bin (ucast (regs (rest (hw s)) (ucast (reg :: u8)) AND 0x7f))) :: u8"
  obtain h1 where r1: "rtc_read_reg dm tid a DS2321_RTC_SEC_REG_ADDR s0 = (Some (?t s0 DS2321_RTC_SEC_REG_ADDR), s0\<lparr>hw := h1\<rparr>)"
      "regs (rest h1) = regs (rest (hw s0))" "plain_bus bus h1"
    by (rule rtc_read_reg_ready [OF assms(1,2) p0])
  let ?s1 = "s0\<lparr>hw := h1\<rparr>"
  have p1: "plain_bus bus (hw ?s1)" using r1(3) by simp
  obtain h2 where r2: "rtc_read_reg dm tid a DS2321_RTC_MIN_REG_ADDR ?s1 = (Some (?t ?s1 DS2321_RTC_MIN_REG_ADDR), ?s1\<lparr>hw := h2\<rparr>)"
      "regs (rest h2) = regs (rest (hw ?s1))" "plain_bus bus h2"
    by (rule rtc_read_reg_ready [OF assms(1,2) p1])
  let ?s2 = "?s1\<lparr>hw := h2\<rparr>"
  have p2: "plain_bus bus (hw ?s2)" using r2(3) by simp
  obtain h3 where r3: "rtc_read_reg dm tid a DS2321_RTC_HR_REG_ADDR ?s2 = (Some (?t ?s2 DS2321_RTC_HR_REG_ADDR), ?s2\<lparr>hw := h3\<rparr>)"
      "plain_bus bus h3"
    by (rule rtc_read_reg_ready [OF assms(1,2) p2])
  have "ds2321_rtc_get_time_test b dm tid (Some a) s =
      (DIAG_TEST_RESULT_PASS, print_time (?t s DS2321_RTC_HR_REG_ADDR) (?t s DS2321_RTC_MIN_REG_ADDR)
         (?t s DS2321_RTC_SEC_REG_ADDR) (s0\<lparr>hw := h3\<rparr>))"
    unfolding ds2321_rtc_get_time_test_def option.case Let_def using r1(1) r2(1) r3(1) r1(2) r2(2) s0(3)
    by (simp add: s0(1) DS2321_RTC_SEC_REG_ADDR_def DS2321_RTC_MIN_REG_ADDR_def DS2321_RTC_HR_REG_ADDR_def)
  moreover have "clock_step bus regs s (s0\<lparr>hw := h3\<rparr>)"
    by (rule clock_step_trans [OF s0(2) clock_step_hw [OF r3(2)]])
  ultimately show ?thesis
    by (intro that) (simp_all add: DS2321_RTC_SEC_REG_ADDR_def DS2321_RTC_MIN_REG_ADDR_def DS2321_RTC_HR_REG_ADDR_def)
qed


lemma print_time_console:
  "print_time hour mins sec s = s\<lparr>console := console s @ ''  RTC_Get_Time [HH:MM:SS] = '' @ decimal (unat hour) @
     '':'' @ decimal (unat mins) @ '':'' @ decimal (unat sec) @ ''\<newline>''\<rparr>"
proof -
  have u: "unat (ucast (x :: u8) :: u32) = unat x" "unat x < 256" for x
  proof -
    show x: "unat x < 256" using unsigned_less [of x] by simp
    then have "take_bit 32 (unat x) = unat x" by (simp add: take_bit_nat_eq_self)
    then show "unat (ucast x :: u32) = unat x" by (simp add: unsigned_ucast_eq)
  qed
  let ?out = "''RTC_Get_Time [HH:MM:SS] = '' @ decimal (unat hour) @ '':'' @ decimal (unat mins) @ '':'' @ decimal (unat sec)"
  have d: "directive (CHR ''d'' # fmt) (VInt (ucast x) # args) = Some (decimal (unat x), fmt, args)" for fmt args and x :: u8
    using directive_d [of "ucast x" fmt args] u [of x] by simp
  have e: "emit ''RTC_Get_Time [HH:MM:SS] = %d:%d:%d'' [VInt (ucast hour), VInt (ucast mins), VInt (ucast sec)] = Some ?out"
    by (simp add: d)
  have l: "length (decimal (unat x)) \<le> 3" for x :: u8 using u(2) [of x] by (intro length_decimal) simp
  have lo: "length ?out < 40" using l [of hour] l [of mins] l [of sec] by simp
  have n: "no_nul ?out" by (simp add: no_nul_decimal)
  have "sprintf 0 (replicate 256 NUL) ''RTC_Get_Time [HH:MM:SS] = %d:%d:%d''
      [VInt (ucast hour), VInt (ucast mins), VInt (ucast sec)] =
    Some (of_nat (length ?out), ?out @ NUL # drop (Suc (length ?out)) (replicate 256 NUL))"
    unfolding sprintf_def by (rule vsprintf_fits [OF e]) (use lo in simp_all)
  moreover have c: "cstr (?out @ NUL # ys) = ?out" for ys
    unfolding cstr_NUL by (rule cstr_no_nul [OF n])
  moreover have "emit ''  %s\<newline>'' [VStr (Some ?out)] = Some (''  '' @ ?out @ ''\<newline>'')"
    by (simp add: directive_s)
  then have "printf ''  %s\<newline>'' [VStr (Some ?out)] =
      Some (of_nat (min 1043 (length (''  '' @ ?out @ ''\<newline>''))), cstr (take 1043 (''  '' @ ?out @ ''\<newline>'')))"
    by (rule printf_emit) (use lo in simp)
  moreover have "take 1043 (''  '' @ ?out @ ''\<newline>'') = ''  '' @ ?out @ ''\<newline>''" using lo by (intro take_all) simp
  moreover have "cstr (''  '' @ ?out @ ''\<newline>'') = ''  '' @ ?out @ ''\<newline>''"
    by (rule cstr_no_nul) (use n in \<open>simp only: no_nul_append no_nul_Cons no_nul_Nil, simp\<close>)
  ultimately show ?thesis unfolding print_time_def by (simp only: option.case prod.case c printf_io_def) simp
qed


text \<open>
  (C28) The clock keeps the time it is set to: on a chip that stores what is written to it, setting
  a valid time passes, and reading it back passes and prints exactly the hours, minutes and
  seconds that were set, converted to binary-coded decimals and back.
\<close>

theorem rtc_set_then_get:
  assumes "bus_ready dm (i2c_bus a) bus regs" "register_chip dm bus (ucast (i2c_dev_addr a)) 1 regs"
    and "speed_ready dm bus regs" "\<And>x v d. regs (bus_write b x v d) = regs d" "plain_bus bus (hw s)"
    and "sec_value a \<le> 59" "min_value a \<le> 59" "hour_value a \<le> 23"
    and "i2c_bus g = i2c_bus a" "i2c_dev_addr g = i2c_dev_addr a"
    and "(r1, s1) = ds2321_rtc_set_time_test b dm tid (Some a) s"
    and "(r2, s2) = ds2321_rtc_get_time_test b dm tid (Some g) s1"
  shows "r1 = DIAG_TEST_RESULT_PASS \<and> r2 = DIAG_TEST_RESULT_PASS \<and> ub s2 = ub s \<and>
    (\<exists>t. console s2 = console s1 @ t @ ''  RTC_Get_Time [HH:MM:SS] = '' @ decimal (unat (hour_value a)) @ '':'' @
       decimal (unat (min_value a)) @ '':'' @ decimal (unat (sec_value a)) @ ''\<newline>'')"
proof -
  obtain s' where s': "ds2321_rtc_set_time_test b dm tid (Some a) s =
      (DIAG_TEST_RESULT_PASS, print_time (hour_value a) (min_value a) (sec_value a) s')"
    "clock_step bus regs s s'" "regs (rest (hw s')) 0 = ucast (bin2bcd (ucast (sec_value a)))"
    "regs (rest (hw s')) 1 = ucast (bin2bcd (ucast (min_value a)))"
    "regs (rest (hw s')) 2 = ucast (bin2bcd (ucast (hour_value a)))"
    by (rule rtc_set_ready [OF assms(1-8)])
  have s1: "r1 = DIAG_TEST_RESULT_PASS" "hw s1 = hw s'" "ub s1 = ub s'"
    using assms(11) s'(1) by (simp_all add: print_time_console)
  have p: "plain_bus bus (hw s1)" using s'(2) s1(2) by (simp add: clock_step_def)
  obtain s3 where s3: "ds2321_rtc_get_time_test b dm tid (Some g) s1 =
      (DIAG_TEST_RESULT_PASS, print_time (ucast (bcd2bin (ucast (regs (rest (hw s1)) 2 AND 0x7f))))
         (ucast (bcd2bin (ucast (regs (rest (hw s1)) 1 AND 0x7f)))) (ucast (bcd2bin (ucast (regs (rest (hw s1)) 0 AND 0x7f)))) s3)"
    "clock_step bus regs s1 s3"
    by (rule rtc_get_ready [OF assms(1-4) [folded assms(9,10)] p])
  have "hour_value a \<le> 59" using assms(8) by (rule order_trans) simp
  then have "ds2321_rtc_get_time_test b dm tid (Some g) s1 =
      (DIAG_TEST_RESULT_PASS, print_time (hour_value a) (min_value a) (sec_value a) s3)"
    using s3(1) assms(6,7) by (simp only: s1(2) s'(3-5) bcd_roundtrip)
  then have "r2 = DIAG_TEST_RESULT_PASS" "s2 = print_time (hour_value a) (min_value a) (sec_value a) s3"
    using assms(12) by simp_all
  moreover have "ub s3 = ub s" "\<exists>t. console s3 = console s1 @ t" using s3(2) s'(2) s1(3) by (auto simp: clock_step_def)
  ultimately show ?thesis using s1(1) by (auto simp: print_time_console)
qed

theorem rtc_set_then_get_witness:
  "\<exists>r2 s2 t. (r2, s2) = ds2321_rtc_get_time_test idle_bus file_core 7
       (Some \<lparr>i2c_bus = 1, i2c_speed = 100000, i2c_dev_addr = 0x68\<rparr>)
       (snd (ds2321_rtc_set_time_test idle_bus file_core 7
         (Some \<lparr>i2c_bus = 1, i2c_speed = 100000, i2c_dev_addr = 0x68, sec_value = 32, min_value = 20, hour_value = 5\<rparr>) file_io)) \<and>
     console s2 = t @ ''  RTC_Get_Time [HH:MM:SS] = 5:20:32\<newline>''"
proof -
  let ?a = "\<lparr>i2c_bus = 1, i2c_speed = 100000, i2c_dev_addr = 0x68, sec_value = 32, min_value = 20, hour_value = 5\<rparr> :: A_ds2321_rtc_set_time_test"
  let ?g = "\<lparr>i2c_bus = 1, i2c_speed = 100000, i2c_dev_addr = 0x68\<rparr> :: A_ds2321_rtc_get_time_test"
  let ?p1 = "ds2321_rtc_set_time_test idle_bus file_core 7 (Some ?a) file_io"
  let ?p2 = "ds2321_rtc_get_time_test idle_bus file_core 7 (Some ?g) (snd ?p1)"
  have r: "bus_ready file_core (i2c_bus ?a) (nat (uint (i2c_bus ?a))) (\<lambda>d. d)" by (rule bus_ready_file)
  have c: "register_chip file_core (nat (uint (i2c_bus ?a))) (ucast (i2c_dev_addr ?a)) 1 (\<lambda>d. d)"
    by (rule register_file) simp
  have sp: "speed_ready file_core (nat (uint (i2c_bus ?a))) (\<lambda>d. d)" by (simp add: speed_ready_def file_core_def)
  have p: "plain_bus (nat (uint (i2c_bus ?a))) (hw file_io)" by (simp add: plain_bus_def file_io_def)
  have "\<exists>t. console (snd ?p2) = console (snd ?p1) @ t @ ''  RTC_Get_Time [HH:MM:SS] = '' @ decimal (unat (hour_value ?a)) @ '':'' @
       decimal (unat (min_value ?a)) @ '':'' @ decimal (unat (sec_value ?a)) @ ''\<newline>''"
    using rtc_set_then_get [OF r c sp _ p, of idle_bus ?g "fst ?p1" "snd ?p1" 7 "fst ?p2" "snd ?p2"]
    by (simp add: idle_bus_def)
  moreover have "decimal 5 = ''5''" "decimal 20 = ''20''" "decimal 32 = ''32''" by code_simp+
  ultimately have "\<exists>t. console (snd ?p2) = t @ ''  RTC_Get_Time [HH:MM:SS] = 5:20:32\<newline>''" by force
  then show ?thesis by (metis prod.collapse)
qed

end
