(* ===== verification/I2cProbe.thy ===== *)
theory I2cProbe
  imports I2cChip
begin

text \<open>
  The verdict of the I2C probe test: which devices answer against which are expected.
\<close>

text \<open>
  \<open>answers dm bus P\<close>: an empty message to an address succeeds exactly when a device of \<open>P\<close> is there.
\<close>

definition answers :: "'d dm_core \<Rightarrow> nat \<Rightarrow> u32 set \<Rightarrow> bool" where
  "answers dm bus P \<longleftrightarrow> probe_chip (i2c_get_ops dm bus) = None \<and>
     (\<exists>f. xfer (i2c_get_ops dm bus) = Some f \<and>
       (\<forall>m d. msg_len m = 0 \<longrightarrow> (fst (f bus [m] d) = 0 \<longleftrightarrow> msg_addr m \<in> P)))"

lemma dm_i2c_probe_answers:
  assumes "answers dm bus P" "bus_ready dm num bus (\<lambda>_ _. 0)" "plain_bus bus sys"
  obtains r dv sys' where "dm_i2c_probe dm bus caddr 0 sys = (r, dv, sys')" "r = 0 \<longleftrightarrow> caddr \<in> P"
    "plain_bus bus sys'" "i2c_cur_bus sys' = i2c_cur_bus sys"
proof -
  obtain f where f: "probe_chip (i2c_get_ops dm bus) = None" "xfer (i2c_get_ops dm bus) = Some f"
    "\<And>m d. msg_len m = 0 \<Longrightarrow> fst (f bus [m] d) = 0 \<longleftrightarrow> msg_addr m \<in> P"
    using assms(1) unfolding answers_def by blast
  let ?m = "\<lparr>msg_addr = caddr, msg_flags = 0, msg_len = 0, msg_buf = []\<rparr> :: i2c_msg"
  obtain r bs d where x: "f bus [?m] (rest sys) = (r, bs, d)" by (metis prod_cases3)
  have r: "r = 0 \<longleftrightarrow> caddr \<in> P" using f(3) [of ?m "rest sys"] x by simp
  let ?sys = "sys\<lparr>rest := d\<rparr>"
  have p: "i2c_probe_chip dm bus caddr 0 sys = (r, ?sys)"
    by (simp add: i2c_probe_chip_def f(1,2) call_xfer_def x)
  have pl: "plain_bus bus ?sys" using assms(3) by (simp add: plain_bus_def)
  show ?thesis
  proof (cases "r = 0")
    case True
    obtain i sys' where "i2c_get_chip dm bus caddr 1 ?sys = (0, Some (bus, i), sys')" "plain_bus bus sys'"
      "i2c_cur_bus sys' = i2c_cur_bus ?sys"
      by (rule i2c_get_chip_ready [OF assms(2) pl])
    then show ?thesis using True r p by (intro that [of 0 "Some (bus, i)" sys']) (simp_all add: dm_i2c_probe_def)
  next
    case False
    then show ?thesis using r p pl by (intro that [of r None ?sys]) (simp_all add: dm_i2c_probe_def)
  qed
qed

lemma find_device_None: "find_device i as n = None \<longleftrightarrow> i \<notin> set as"
  by (induction i as n rule: find_device.induct) auto

lemma hw_ReportEvent [simp]: "hw (ReportEvent ev s) = hw s"
proof -
  have p: "hw (printf_io fmt args s) = hw s" for fmt args s by (simp add: printf_io_def split: option.splits)
  have a: "hw (show_addresses n as s) = hw s" for n as s
    by (induction n as s rule: show_addresses.induct) (auto simp: p set_ub_def)
  show ?thesis by (simp add: ReportEvent_def console_showevent_def p a Let_def)
qed

definition expected_ids :: "A_I2C_interface_test \<Rightarrow> u8 set" where
  "expected_ids a = set (take (nat (sint (no_of_device a))) (dev_address_list a))"

lemma probe_device_answers:
  assumes "answers dm bus P" "bus_ready dm num bus (\<lambda>_ _. 0)" "plain_bus bus (hw s)"
  shows "fst (probe_device dm tid a bus i s) \<longleftrightarrow> (ucast i \<in> P \<longleftrightarrow> i \<in> expected_ids a)"
    "plain_bus bus (hw (snd (probe_device dm tid a bus i s)))"
    "i2c_cur_bus (hw (snd (probe_device dm tid a bus i s))) = i2c_cur_bus (hw s)"
proof -
  obtain r dv h where p: "dm_i2c_probe dm bus (ucast i) 0 (hw s) = (r, dv, h)" "r = 0 \<longleftrightarrow> ucast i \<in> P"
    "plain_bus bus h" "i2c_cur_bus h = i2c_cur_bus (hw s)"
    by (rule dm_i2c_probe_answers [OF assms])
  have e: "expected_at a i = None \<longleftrightarrow> i \<notin> expected_ids a"
    by (simp add: expected_at_def expected_ids_def find_device_None)
  show "fst (probe_device dm tid a bus i s) \<longleftrightarrow> (ucast i \<in> P \<longleftrightarrow> i \<in> expected_ids a)"
    using p(1,2) e by (cases "expected_at a i") (auto simp: probe_device_def Let_def split: option.splits)
  have "hw (snd (probe_device dm tid a bus i s)) = h"
    using p(1) by (auto simp: probe_device_def Let_def set_ub_def split: option.splits)
  then show "plain_bus bus (hw (snd (probe_device dm tid a bus i s)))"
    "i2c_cur_bus (hw (snd (probe_device dm tid a bus i s))) = i2c_cur_bus (hw s)" using p(3,4) by simp_all
qed

lemma probe_loop_answers:
  assumes "answers dm bus P" "bus_ready dm num bus (\<lambda>_ _. 0)" "plain_bus bus (hw s)" "i2c_cur_bus (hw s) = Some bus"
  shows "fst (probe_loop dm tid a ids status s) =
    (if \<forall>i\<in>set ids. ucast i \<in> P \<longleftrightarrow> i \<in> expected_ids a then status else DIAG_TEST_RESULT_FAIL)"
  using assms(3,4)
proof (induction ids arbitrary: status s)
  case (Cons i ids)
  let ?p = "probe_device dm tid a bus i s"
  note d = probe_device_answers [OF assms(1,2) Cons.prems(1), of tid a i]
  have "probe_loop dm tid a (i # ids) status s =
      probe_loop dm tid a ids (if fst ?p then status else DIAG_TEST_RESULT_FAIL) (snd ?p)"
    by (simp add: eBBTF_utils_get_i2c_bus_def Cons.prems(2) case_prod_beta)
  moreover note Cons.IH [of "snd ?p" "if fst ?p then status else DIAG_TEST_RESULT_FAIL"]
  ultimately show ?case using d Cons.prems(2) by auto
qed simp



definition probe_core :: "unit dm_core" where
  "probe_core =
     \<lparr>i2c_get_ops = (\<lambda>_. \<lparr>xfer = Some (\<lambda>_ msgs d. (if msg_addr (hd msgs) \<in> {0x24, 0x34, 0x50} then 0 else - 121, [], d)),
        probe_chip = None, set_bus_speed = None, get_bus_speed = None, set_flags = None\<rparr>),
      uclass_get_device_by_seq = (\<lambda>n d. (0, nat n, d)), device_probe = (\<lambda>_ d. (0, d)),
      device_bind_driver = (\<lambda>_ _ d. (0, d)), malloc_ok = (\<lambda>_ d. (True, d))\<rparr>"

definition probe_io :: "unit i2c_sys io" where
  "probe_io = \<lparr>console = [], s_logMode = CONSOLE_LOG_MODE, s_logMask = LOG_MASK_ALL, curTestId = 0,
     hw = \<lparr>children = (\<lambda>_. []), speed_hz = (\<lambda>_. 0), i2c_cur_bus = None,
           i2c_eeprom_testbuf2 = replicate 128 0, rest = ()\<rparr>, ub = False\<rparr>"


end
