(* ===== verification/MemTests.thy ===== *)
theory MemTests
  imports TestIo Cstring
begin

text \<open>
  The memory tests: \<^verbatim>\<open>test-framework/testsuite/test_memory.c\<close>, run on a bus that is a parameter,
  and what they say about the memory behind it: \<open>memory_bus\<close> is the contract of a word memory
  whose address lines may be decoded wrongly, the byte memory of \<open>Cstring\<close> is an instance of it.
\<close>

record A_memory_data_line_test =
  mem_address :: u32

record A_memory_address_line_test = A_memory_data_line_test +
  mem_size :: u32

record A_memory_pattern_test = A_memory_address_line_test +
  mem_value :: u32

text \<open>
  The values of a loop variable that starts at \<open>x\<close> and is shifted left as long as the condition
  holds; the conditions of the program all fail for 0.
\<close>

definition shifts_left :: "u32 \<Rightarrow> nat" where
  "shifts_left x = (LEAST n. push_bit n x = 0)"

lemma shifts_left_less:
  assumes "x \<noteq> 0"
  shows "shifts_left (push_bit 1 x) < shifts_left x"
proof -
  have "push_bit 32 x = 0" by (rule bit_word_eqI) (auto simp: bit_simps)
  then have "push_bit (shifts_left x) x = 0" unfolding shifts_left_def by (rule LeastI)
  moreover from this assms obtain n where n: "shifts_left x = Suc n" by (cases "shifts_left x") auto
  ultimately have "push_bit n (push_bit 1 x) = 0" by (simp add: push_bit_push_bit)
  then have "shifts_left (push_bit 1 x) \<le> n" unfolding shifts_left_def by (rule Least_le)
  then show ?thesis using n by simp
qed

function walk :: "(u32 \<Rightarrow> bool) \<Rightarrow> u32 \<Rightarrow> u32 list" where
  "walk cond x = (if x = 0 \<or> \<not> cond x then [] else x # walk cond (push_bit 1 x))"
  by auto
termination
  by (relation "measure (\<lambda>(_, x). shifts_left x)") (auto simp: shifts_left_less [simplified])

declare walk.simps [simp del]

fun data_line_loop ::
  "'hw bus \<Rightarrow> DiagEventParams_s \<Rightarrow> u32 \<Rightarrow> u32 list \<Rightarrow> 'hw io \<Rightarrow> TestResultTypes_e \<times> 'hw io" where
  "data_line_loop bus event addr [] s = (DIAG_TEST_RESULT_PASS, s)"
| "data_line_loop bus event addr (pat # pats) s =
     (let s = writel bus addr pat s;
          s = flush_dcache_all bus s;
          (read, s) = readl bus addr s
      in if read \<noteq> pat then
           (DIAG_TEST_RESULT_FAIL,
            ReportEvent (fill_event DIAG_DEV_DATA_MISMATCH_ERR_EVENT [addr, pat, read] event) s)
         else data_line_loop bus event addr pats s)"

text \<open>The first two tests read a field of their argument before they check it for NULL.\<close>

definition memory_data_line_test ::
  "'hw bus \<Rightarrow> u32 \<Rightarrow> A_memory_data_line_test option \<Rightarrow> 'hw io \<Rightarrow> TestResultTypes_e \<times> 'hw io" where
  "memory_data_line_test bus tid arg s =
     (case arg of
        None \<Rightarrow> (DIAG_TEST_RESULT_ABORTED, set_ub s)
      | Some a \<Rightarrow> data_line_loop bus (Event_Init tid s) (mem_address a) (walk (\<lambda>pat. pat \<noteq> 0) 1) s)"

definition patA :: u32 where "patA = 0xAAAAAAAA"
definition patB :: u32 where "patB = NOT patA"

text \<open>\<open>addr[offset]\<close>, a word.\<close>

definition word_at :: "u32 \<Rightarrow> u32 \<Rightarrow> u32" where
  "word_at addr offset = addr + 4 * offset"

text \<open>The loops with an early return; \<open>None\<close> is a loop that ran to its end.\<close>

fun verify_A ::
  "'hw bus \<Rightarrow> DiagEventParams_s \<Rightarrow> u32 \<Rightarrow> u32 list \<Rightarrow> 'hw io \<Rightarrow> TestResultTypes_e option \<times> 'hw io" where
  "verify_A bus event addr [] s = (None, s)"
| "verify_A bus event addr (offsetA # offs) s =
     (let (v, s) = readl bus (word_at addr offsetA) s in
      if v \<noteq> patA then
        let (again, s) = readl bus (word_at addr offsetA) s
        in (Some DIAG_TEST_RESULT_FAIL,
            ReportEvent (fill_event DIAG_DEV_DATA_MISMATCH_ERR_EVENT [patA, again] event) s)
      else verify_A bus event addr offs s)"

fun verify_others ::
  "'hw bus \<Rightarrow> DiagEventParams_s \<Rightarrow> u32 \<Rightarrow> u32 \<Rightarrow> u32 list \<Rightarrow> 'hw io \<Rightarrow> TestResultTypes_e option \<times> 'hw io" where
  "verify_others bus event addr offsetB [] s = (None, s)"
| "verify_others bus event addr offsetB (offsetA # offs) s =
     (let (v, s) = readl bus (word_at addr offsetA) s in
      if v \<noteq> patA \<and> offsetA \<noteq> offsetB then
        let (again, s) = readl bus (word_at addr offsetA) s
        in (Some DIAG_TEST_RESULT_FAIL,
            ReportEvent (fill_event DIAG_DEV_DATA_MISMATCH_ERR_EVENT
              [word_at addr offsetB, patA, again] event) s)
      else verify_others bus event addr offsetB offs s)"

fun walk_B ::
  "'hw bus \<Rightarrow> DiagEventParams_s \<Rightarrow> u32 \<Rightarrow> u32 list \<Rightarrow> u32 list \<Rightarrow> 'hw io \<Rightarrow> TestResultTypes_e option \<times> 'hw io" where
  "walk_B bus event addr all [] s = (None, s)"
| "walk_B bus event addr all (offsetB # offs) s =
     (let s = writel bus (word_at addr offsetB) patB s;
          s = flush_dcache_all bus s;
          (v, s) = readl bus (word_at addr 0) s
      in if v \<noteq> patA then
           let (again, s) = readl bus (word_at addr 0) s
           in (Some DIAG_TEST_RESULT_FAIL,
               ReportEvent (fill_event DIAG_DEV_DATA_MISMATCH_ERR_EVENT
                 [word_at addr offsetB, patA, again] event) s)
         else case verify_others bus event addr offsetB all s of
                (Some r, s) \<Rightarrow> (Some r, s)
              | (None, s) \<Rightarrow> walk_B bus event addr all offs (writel bus (word_at addr offsetB) patA s))"

definition line_offsets :: "u32 \<Rightarrow> u32 list" where
  "line_offsets len = (let mask = len div 4 - 1 in walk (\<lambda>offset. offset AND mask \<noteq> 0) 1)"

definition memory_address_line_test ::
  "'hw bus \<Rightarrow> u32 \<Rightarrow> A_memory_address_line_test option \<Rightarrow> 'hw io \<Rightarrow> TestResultTypes_e \<times> 'hw io" where
  "memory_address_line_test bus tid arg s =
     (case arg of
        None \<Rightarrow> (DIAG_TEST_RESULT_ABORTED, set_ub s)
      | Some a \<Rightarrow>
          let event = Event_Init tid s;
              addr = mem_address a;
              offs = line_offsets (mem_size a);
              s = fold (\<lambda>offsetA. writel bus (word_at addr offsetA) patA) offs s;
              s = writel bus (word_at addr 0) patB s;
              s = flush_dcache_all bus s
          in case verify_A bus event addr offs s of
               (Some r, s) \<Rightarrow> (r, s)
             | (None, s) \<Rightarrow>
                 let s = writel bus (word_at addr 0) patA s in
                 case walk_B bus event addr offs offs s of
                   (Some r, s) \<Rightarrow> (r, s)
                 | (None, s) \<Rightarrow> (DIAG_TEST_RESULT_PASS, s))"

text \<open>
  The words of this test are not \<open>volatile\<close>: the model is the program as it is written, every
  store and load an access.
\<close>

fun pattern_verify ::
  "'hw bus \<Rightarrow> DiagEventParams_s \<Rightarrow> u32 \<Rightarrow> u32 \<Rightarrow> nat list \<Rightarrow> 'hw io \<Rightarrow> TestResultTypes_e \<times> 'hw io" where
  "pattern_verify bus event mem v [] s = (DIAG_TEST_RESULT_PASS, s)"
| "pattern_verify bus event mem v (i # is) s =
     (let (readback, s) = readl bus (word_at mem (of_nat i)) s in
      if readback \<noteq> v then
        (DIAG_TEST_RESULT_FAIL,
         ReportEvent (fill_event DIAG_DEV_DATA_MISMATCH_ERR_EVENT [mem, v, readback] event) s)
      else pattern_verify bus event mem v is s)"

definition memory_pattern_test ::
  "'hw bus \<Rightarrow> u32 \<Rightarrow> A_memory_pattern_test option \<Rightarrow> 'hw io \<Rightarrow> TestResultTypes_e \<times> 'hw io" where
  "memory_pattern_test bus tid arg s =
     (case arg of
        None \<Rightarrow> (DIAG_TEST_RESULT_ABORTED, DEBUG_ASSERT ''test_memory.c'' 189 s)
      | Some a \<Rightarrow>
          let event = Event_Init tid s;
              mem = mem_address a;
              is = [0..<unat (mem_size a div 4)];
              s = fold (\<lambda>i. writel bus (word_at mem (of_nat i)) (mem_value a)) is s
          in pattern_verify bus event mem (mem_value a) is s)"


subsection \<open>The walking bit\<close>

lemma bit_two_power [simp]: "bit (2 ^ i :: u32) n \<longleftrightarrow> n = i \<and> i < 32"
  by (auto simp: bit_simps)

lemma two_power_eq_0 [simp]: "(2 ^ i :: u32) = 0 \<longleftrightarrow> 32 \<le> i"
  by simp

lemma two_power_inj: "i < 32 \<Longrightarrow> (2 ^ i :: u32) = 2 ^ j \<longleftrightarrow> i = j"
  by (metis bit_two_power)

lemma walk_from_bit: "walk cond (2 ^ i) = map (\<lambda>j. 2 ^ j) (takeWhile (\<lambda>j. cond (2 ^ j)) [i..<32])"
proof (induction "32 - i" arbitrary: i)
  case 0
  then show ?case by (simp add: walk.simps)
next
  case (Suc n)
  then have "i < 32" by simp
  have "push_bit 1 (2 ^ i) = (2 ^ Suc i :: u32)" by (simp add: push_bit_eq_mult)
  moreover have "walk cond (2 ^ Suc i) = map (\<lambda>j. 2 ^ j) (takeWhile (\<lambda>j. cond (2 ^ j)) [Suc i..<32])"
    by (rule Suc.hyps(1)) (use Suc.hyps(2) in simp)
  moreover have "[i..<32] = i # [Suc i..<32]" using \<open>i < 32\<close> by (rule upt_conv_Cons)
  ultimately show ?case using \<open>i < 32\<close> by (subst walk.simps) (simp del: upt.simps power_Suc)
qed

lemma walk_all: "walk (\<lambda>pat. pat \<noteq> 0) 1 = map (\<lambda>j. 2 ^ j) [0..<32]"
proof -
  have "takeWhile (\<lambda>j. (2 ^ j :: u32) \<noteq> 0) [0..<32] = [0..<32]"
    by (simp only: takeWhile_eq_all_conv) simp
  then show ?thesis using walk_from_bit [of "\<lambda>pat. pat \<noteq> 0" 0] by (simp only: power_0)
qed

text \<open>The offsets of the address line test: the powers of two below the first 0 of the mask.\<close>

lemma and_bit: "2 ^ j AND m \<noteq> 0 \<longleftrightarrow> j < 32 \<and> bit m j" for m :: u32
proof
  assume "2 ^ j AND m \<noteq> 0"
  moreover have "2 ^ j AND m = 0" if "\<forall>n. \<not> bit (2 ^ j AND m) n"
    by (rule bit_eqI) (use that in simp)
  ultimately obtain n where "bit (2 ^ j AND m) n" by blast
  then show "j < 32 \<and> bit m j" by (auto simp: bit_and_iff)
next
  assume "j < 32 \<and> bit m j"
  then have "bit (2 ^ j AND m) j" by (simp add: bit_and_iff)
  then show "2 ^ j AND m \<noteq> 0" by (metis bit_0_eq bot_apply bot_bool_def)
qed

lemma line_offsets_eq:
  "line_offsets len = map (\<lambda>j. 2 ^ j) (takeWhile (bit (len div 4 - 1)) [0..<32])"
proof -
  have "takeWhile (\<lambda>j. 2 ^ j AND (len div 4 - 1) \<noteq> 0) [0..<32] = takeWhile (bit (len div 4 - 1)) [0..<32]"
    by (rule takeWhile_cong) (simp_all only: and_bit, simp)
  then show ?thesis
    using walk_from_bit [of "\<lambda>offset. offset AND (len div 4 - 1) \<noteq> 0" 0] by (simp add: line_offsets_def)
qed

subsection \<open>A memory behind an address decoder\<close>

definition word_aligned :: "u32 \<Rightarrow> bool" where
  "word_aligned a \<longleftrightarrow> a AND 3 = 0"

lemma word_aligned_unat: "word_aligned a \<longleftrightarrow> unat a mod 4 = 0"
proof -
  have "a AND 3 = take_bit 2 a" by (simp add: take_bit_eq_mask mask_eq_exp_minus_1)
  then have "word_aligned a \<longleftrightarrow> unat (take_bit 2 a) = 0"
    by (simp add: word_aligned_def unat_eq_0)
  moreover have "unat (take_bit 2 a) = take_bit 2 (unat a)" by (rule unsigned_take_bit_eq)
  moreover have "take_bit 2 (unat a) = unat a mod 4" by (simp add: take_bit_eq_mod)
  ultimately show ?thesis by simp
qed

lemma word_aligned_word_at: "word_aligned addr \<Longrightarrow> word_aligned (word_at addr x)"
proof -
  assume "word_aligned addr"
  moreover have "unat (addr + 4 * x) mod 4 = (unat addr + 4 * unat x) mod 4"
    by (simp add: unat_word_ariths mod_mod_cancel mod_add_right_eq)
  ultimately show ?thesis by (simp add: word_aligned_unat word_at_def)
qed

text \<open>
  The contract: a read at \<open>a\<close> returns what was last written to a word with the same decoded
  address \<open>dec a\<close>; reads and cache flushes change nothing.
\<close>

locale memory_bus =
  fixes bus :: "'hw bus" and dec :: "u32 \<Rightarrow> u32"
  assumes read_write: "word_aligned a \<Longrightarrow> word_aligned b \<Longrightarrow>
      fst (bus_read bus b (bus_write bus a v h)) = (if dec b = dec a then v else fst (bus_read bus b h))"
    and read_read: "fst (bus_read bus b (snd (bus_read bus a h))) = fst (bus_read bus b h)"
    and read_flush: "fst (bus_read bus b (bus_flush bus h)) = fst (bus_read bus b h)"
begin

definition R :: "'hw io \<Rightarrow> u32 \<Rightarrow> u32" where
  "R s a = fst (bus_read bus a (hw s))"

lemma fst_readl [simp]: "fst (readl bus a s) = R s a"
  by (simp add: R_def readl_def on_hw_def case_prod_beta)

lemma R_after [simp]:
  "R (snd (readl bus a s)) b = R s b"
  "R (flush_dcache_all bus s) b = R s b"
  by (simp_all add: R_def readl_def on_hw_def case_prod_beta flush_dcache_all_def read_read read_flush)

lemma R_writel:
  "word_aligned a \<Longrightarrow> word_aligned b \<Longrightarrow> R (writel bus a v s) b = (if dec b = dec a then v else R s b)"
  by (simp add: R_def writel_def read_write)

lemma R_fold_writel:
  assumes "\<And>x. word_aligned (f x)" "word_aligned b"
  shows "R (fold (\<lambda>x. writel bus (f x) v) xs s) b = (if \<exists>x\<in>set xs. dec b = dec (f x) then v else R s b)"
  using assms by (induction xs arbitrary: s) (auto simp: R_writel)

lemma hw_only_fold_writel: "hw_only s (fold (\<lambda>x. writel bus (f x) v) xs s)"
  by (induction xs arbitrary: s) (auto intro: hw_only_trans [OF hw_only_access(3)])

lemma verify_A_None:
  assumes "\<forall>x\<in>set offs. R s (word_at addr x) = patA"
  shows "fst (verify_A bus ev addr offs s) = None \<and> hw_only s (snd (verify_A bus ev addr offs s)) \<and>
     R (snd (verify_A bus ev addr offs s)) = R s"
  using assms
proof (induction offs arbitrary: s)
  case (Cons x offs)
  let ?s = "snd (readl bus (word_at addr x) s)"
  have "R ?s = R s" by (rule ext) simp
  with Cons.IH [of ?s] Cons.prems show ?case
    by (auto simp: case_prod_beta intro: hw_only_trans [OF hw_only_access(2)])
qed simp

lemma verify_A_Some:
  assumes "x \<in> set offs" "R s (word_at addr x) \<noteq> patA"
  shows "fst (verify_A bus ev addr offs s) = Some DIAG_TEST_RESULT_FAIL"
  using assms by (induction offs arbitrary: s) (auto simp: case_prod_beta)

lemma verify_others_None:
  assumes "\<forall>x\<in>set offs. x = y \<or> R s (word_at addr x) = patA"
  shows "fst (verify_others bus ev addr y offs s) = None \<and> hw_only s (snd (verify_others bus ev addr y offs s)) \<and>
     R (snd (verify_others bus ev addr y offs s)) = R s"
  using assms
proof (induction offs arbitrary: s)
  case (Cons x offs)
  let ?s = "snd (readl bus (word_at addr x) s)"
  have "R ?s = R s" by (rule ext) simp
  with Cons.IH [of ?s] Cons.prems show ?case
    by (auto simp: case_prod_beta intro: hw_only_trans [OF hw_only_access(2)])
qed simp

lemma verify_others_Some:
  assumes "x \<in> set offs" "x \<noteq> y" "R s (word_at addr x) \<noteq> patA"
  shows "fst (verify_others bus ev addr y offs s) = Some DIAG_TEST_RESULT_FAIL"
  using assms by (induction offs arbitrary: s) (auto simp: case_prod_beta)


lemma walk_B_None:
  assumes al: "\<And>x. word_aligned (word_at addr x)"
    and dist: "\<forall>x\<in>set all. \<forall>y\<in>set all. x = y \<or> dec (word_at addr x) \<noteq> dec (word_at addr y)"
    and zero: "\<forall>x\<in>set all. dec (word_at addr x) \<noteq> dec (word_at addr 0)"
    and holds: "\<forall>x\<in>insert 0 (set all). R s (word_at addr x) = patA"
    and sub: "set offs \<subseteq> set all"
  shows "fst (walk_B bus ev addr all offs s) = None \<and> hw_only s (snd (walk_B bus ev addr all offs s))"
  using holds sub
proof (induction offs arbitrary: s)
  case (Cons y offs)
  define s1 where "s1 = flush_dcache_all bus (writel bus (word_at addr y) patB s)"
  define s2 where "s2 = snd (readl bus (word_at addr 0) s1)"
  have y: "y \<in> set all" using Cons.prems by simp
  have r0: "R (writel bus (word_at addr y) patB s) (word_at addr 0) = patA"
    unfolding R_writel [OF al al] using zero y Cons.prems(1) by auto
  then have r1: "R s1 (word_at addr 0) = patA" by (simp add: s1_def)
  have r2: "R s2 (word_at addr x) = (if dec (word_at addr x) = dec (word_at addr y) then patB else R s (word_at addr x))" for x
    by (simp add: s2_def s1_def R_writel [OF al al])
  have oth: "\<forall>x\<in>set all. x = y \<or> R s2 (word_at addr x) = patA"
    unfolding r2 using dist y Cons.prems(1) by auto
  define s3 where "s3 = snd (verify_others bus ev addr y all s2)"
  have v: "verify_others bus ev addr y all s2 = (None, s3)" "hw_only s2 s3" "R s3 = R s2"
    using verify_others_None [OF oth] by (auto simp: s3_def prod_eq_iff)
  define s4 where "s4 = writel bus (word_at addr y) patA s3"
  have "R s4 (word_at addr x) = patA" if "x \<in> insert 0 (set all)" for x
    unfolding s4_def R_writel [OF al al] v(3) r2 using that Cons.prems(1) by auto
  then have ih: "fst (walk_B bus ev addr all offs s4) = None \<and> hw_only s4 (snd (walk_B bus ev addr all offs s4))"
    using Cons.prems(2) by (intro Cons.IH) auto
  have h: "hw_only s s4" unfolding s4_def
    by (rule hw_only_trans [OF _ hw_only_access(3)], rule hw_only_trans [OF _ v(2)], unfold s2_def s1_def)
      (rule hw_only_trans [OF _ hw_only_access(2)], rule hw_only_trans [OF _ hw_only_access(4)], simp)
  have "walk_B bus ev addr all (y # offs) s = walk_B bus ev addr all offs s4"
    by (simp add: case_prod_beta s1_def [symmetric] r0 r1 s2_def [symmetric] v(1) s4_def)
  then show ?case using ih h hw_only_trans by metis
qed simp

lemma walk_B_Some:
  assumes al: "\<And>x. word_aligned (word_at addr x)"
    and zero: "\<forall>x\<in>set all. dec (word_at addr x) \<noteq> dec (word_at addr 0)"
    and holds: "\<forall>x\<in>insert 0 (set all). R s (word_at addr x) = patA"
    and sub: "set offs \<subseteq> set all"
    and clash: "x \<in> set all" "y \<in> set offs" "x \<noteq> y" "dec (word_at addr x) = dec (word_at addr y)"
  shows "fst (walk_B bus ev addr all offs s) = Some DIAG_TEST_RESULT_FAIL"
  using holds sub clash(2)
proof (induction offs arbitrary: s)
  case (Cons z offs)
  define s1 where "s1 = flush_dcache_all bus (writel bus (word_at addr z) patB s)"
  define s2 where "s2 = snd (readl bus (word_at addr 0) s1)"
  have z: "z \<in> set all" using Cons.prems by simp
  have r0: "R (writel bus (word_at addr z) patB s) (word_at addr 0) = patA"
    unfolding R_writel [OF al al] using zero z Cons.prems(1) by auto
  then have r1: "R s1 (word_at addr 0) = patA" by (simp add: s1_def)
  have r2: "R s2 (word_at addr u) = (if dec (word_at addr u) = dec (word_at addr z) then patB else R s (word_at addr u))" for u
    by (simp add: s2_def s1_def R_writel [OF al al])
  define s3 where "s3 = snd (verify_others bus ev addr z all s2)"
  define s4 where "s4 = writel bus (word_at addr z) patA s3"
  show ?case
  proof (cases "\<forall>u\<in>set all. u = z \<or> R s2 (word_at addr u) = patA")
    case True
    then have v: "verify_others bus ev addr z all s2 = (None, s3)" "R s3 = R s2"
      using verify_others_None [OF True] by (auto simp: s3_def prod_eq_iff)
    have "R s2 (word_at addr x) \<noteq> patA" if "z = y"
      using clash(4) that by (simp add: r2 patA_def patB_def)
    then have "y \<in> set offs" using True clash Cons.prems(3) by auto
    moreover have "R s4 (word_at addr u) = patA" if "u \<in> insert 0 (set all)" for u
      unfolding s4_def R_writel [OF al al] v(2) r2 using that Cons.prems(1) by auto
    ultimately have "fst (walk_B bus ev addr all offs s4) = Some DIAG_TEST_RESULT_FAIL"
      using Cons.prems(2) by (intro Cons.IH) auto
    then show ?thesis
      by (simp add: case_prod_beta s1_def [symmetric] r0 r1 s2_def [symmetric] v(1) s4_def)
  next
    case False
    then obtain u where "u \<in> set all" "u \<noteq> z" "R s2 (word_at addr u) \<noteq> patA" by blast
    then have "fst (verify_others bus ev addr z all s2) = Some DIAG_TEST_RESULT_FAIL"
      by (rule verify_others_Some)
    then have "verify_others bus ev addr z all s2 = (Some DIAG_TEST_RESULT_FAIL, s3)"
      by (simp add: s3_def prod_eq_iff)
    then show ?thesis
      by (simp add: case_prod_beta s1_def [symmetric] r0 r1 s2_def [symmetric])
  qed
qed simp


lemma address_line_setup:
  fixes s :: "'hw io" and offs :: "u32 list"
  assumes al: "word_aligned addr"
  defines "s1 \<equiv> flush_dcache_all bus (writel bus (word_at addr 0) patB
             (fold (\<lambda>offsetA. writel bus (word_at addr offsetA) patA) offs s))"
  shows "\<forall>x\<in>set offs. R s1 (word_at addr x) =
           (if dec (word_at addr x) = dec (word_at addr 0) then patB else patA)" "hw_only s s1"
proof -
  note a = word_aligned_word_at [OF al]
  show "\<forall>x\<in>set offs. R s1 (word_at addr x) =
           (if dec (word_at addr x) = dec (word_at addr 0) then patB else patA)"
    unfolding s1_def R_after R_writel [OF a a] R_fold_writel [OF a a] by auto
  show "hw_only s s1" unfolding s1_def
    by (rule hw_only_trans [OF _ hw_only_access(4)], rule hw_only_trans [OF _ hw_only_access(3)],
        rule hw_only_fold_writel)
qed

lemma address_line_zero:
  assumes al: "word_aligned (mem_address a)" and x: "x \<in> set (line_offsets (mem_size a))"
    and clash: "dec (word_at (mem_address a) x) = dec (word_at (mem_address a) 0)"
  shows "fst (memory_address_line_test bus tid (Some a) s) = DIAG_TEST_RESULT_FAIL"
proof -
  let ?o = "line_offsets (mem_size a)"
  let ?s = "flush_dcache_all bus (writel bus (word_at (mem_address a) 0) patB
             (fold (\<lambda>offsetA. writel bus (word_at (mem_address a) offsetA) patA) ?o s))"
  have "R ?s (word_at (mem_address a) x) \<noteq> patA"
    using address_line_setup(1) [OF al, of ?o s] x clash by (auto simp: patA_def patB_def)
  then have "fst (verify_A bus (Event_Init tid s) (mem_address a) ?o ?s) = Some DIAG_TEST_RESULT_FAIL"
    by (rule verify_A_Some [OF x])
  then show ?thesis by (auto simp: memory_address_line_test_def Let_def split: prod.split)
qed

lemma address_line_walk:
  assumes al: "word_aligned (mem_address a)"
    and zero: "\<forall>x\<in>set (line_offsets (mem_size a)).
       dec (word_at (mem_address a) x) \<noteq> dec (word_at (mem_address a) 0)"
  obtains s' where "hw_only s s'"
    "\<forall>x\<in>insert 0 (set (line_offsets (mem_size a))). R s' (word_at (mem_address a) x) = patA"
    "memory_address_line_test bus tid (Some a) s =
       (case walk_B bus (Event_Init tid s) (mem_address a) (line_offsets (mem_size a)) (line_offsets (mem_size a)) s' of
          (Some r, s) \<Rightarrow> (r, s) | (None, s) \<Rightarrow> (DIAG_TEST_RESULT_PASS, s))"
proof -
  let ?o = "line_offsets (mem_size a)"
  let ?s = "flush_dcache_all bus (writel bus (word_at (mem_address a) 0) patB
             (fold (\<lambda>offsetA. writel bus (word_at (mem_address a) offsetA) patA) ?o s))"
  note aa = word_aligned_word_at [OF al]
  have A: "\<forall>x\<in>set ?o. R ?s (word_at (mem_address a) x) = patA"
    using address_line_setup(1) [OF al, of ?o s] zero by auto
  let ?v = "verify_A bus (Event_Init tid s) (mem_address a) ?o ?s"
  have v: "?v = (None, snd ?v)" "hw_only ?s (snd ?v)" "R (snd ?v) = R ?s"
    using verify_A_None [OF A] by (auto simp: prod_eq_iff)
  let ?t = "writel bus (word_at (mem_address a) 0) patA (snd ?v)"
  have "hw_only s ?t"
    by (rule hw_only_trans [OF _ hw_only_access(3)], rule hw_only_trans [OF _ v(2)],
        rule address_line_setup(2) [OF al])
  moreover have "\<forall>x\<in>insert 0 (set ?o). R ?t (word_at (mem_address a) x) = patA"
    unfolding R_writel [OF aa aa] v(3) using A by auto
  moreover have "memory_address_line_test bus tid (Some a) s =
       (case walk_B bus (Event_Init tid s) (mem_address a) ?o ?o ?t of
          (Some r, s) \<Rightarrow> (r, s) | (None, s) \<Rightarrow> (DIAG_TEST_RESULT_PASS, s))"
    unfolding memory_address_line_test_def Let_def option.case by (subst v(1)) simp
  ultimately show ?thesis by (rule that)
qed

lemma address_line_pass:
  assumes al: "word_aligned (mem_address a)"
    and inj: "inj_on (\<lambda>x. dec (word_at (mem_address a) x)) (insert 0 (set (line_offsets (mem_size a))))"
    and nz: "0 \<notin> set (line_offsets (mem_size a))"
  shows "fst (memory_address_line_test bus tid (Some a) s) = DIAG_TEST_RESULT_PASS \<and>
    hw_only s (snd (memory_address_line_test bus tid (Some a) s))"
proof -
  let ?o = "line_offsets (mem_size a)"
  have zero: "\<forall>x\<in>set ?o. dec (word_at (mem_address a) x) \<noteq> dec (word_at (mem_address a) 0)"
    using inj nz by (auto simp: inj_on_def)
  have dist: "\<forall>x\<in>set ?o. \<forall>y\<in>set ?o. x = y \<or> dec (word_at (mem_address a) x) \<noteq> dec (word_at (mem_address a) y)"
    using inj by (auto simp: inj_on_def)
  obtain s' where s': "hw_only s s'" "\<forall>x\<in>insert 0 (set ?o). R s' (word_at (mem_address a) x) = patA"
    "memory_address_line_test bus tid (Some a) s =
       (case walk_B bus (Event_Init tid s) (mem_address a) ?o ?o s' of
          (Some r, s) \<Rightarrow> (r, s) | (None, s) \<Rightarrow> (DIAG_TEST_RESULT_PASS, s))"
    by (rule address_line_walk [OF al zero])
  have "fst (walk_B bus (Event_Init tid s) (mem_address a) ?o ?o s') = None \<and>
      hw_only s' (snd (walk_B bus (Event_Init tid s) (mem_address a) ?o ?o s'))"
    by (rule walk_B_None [OF word_aligned_word_at [OF al] dist zero s'(2) subset_refl])
  then show ?thesis using s'(1) hw_only_trans unfolding s'(3) by (auto split: prod.splits)
qed

lemma address_line_fail:
  assumes al: "word_aligned (mem_address a)"
    and xy: "x \<in> insert 0 (set (line_offsets (mem_size a)))" "y \<in> set (line_offsets (mem_size a))" "x \<noteq> y"
      "dec (word_at (mem_address a) x) = dec (word_at (mem_address a) y)"
  shows "fst (memory_address_line_test bus tid (Some a) s) = DIAG_TEST_RESULT_FAIL"
proof (cases "\<forall>u\<in>set (line_offsets (mem_size a)). dec (word_at (mem_address a) u) \<noteq> dec (word_at (mem_address a) 0)")
  case True
  let ?o = "line_offsets (mem_size a)"
  obtain s' where s': "\<forall>x\<in>insert 0 (set ?o). R s' (word_at (mem_address a) x) = patA"
    "memory_address_line_test bus tid (Some a) s =
       (case walk_B bus (Event_Init tid s) (mem_address a) ?o ?o s' of
          (Some r, s) \<Rightarrow> (r, s) | (None, s) \<Rightarrow> (DIAG_TEST_RESULT_PASS, s))"
    by (rule address_line_walk [OF al True])
  have "x \<in> set ?o" using xy True by auto
  then have "fst (walk_B bus (Event_Init tid s) (mem_address a) ?o ?o s') = Some DIAG_TEST_RESULT_FAIL"
    by (rule walk_B_Some [OF word_aligned_word_at [OF al] True s'(1) subset_refl _ xy(2,3,4)])
  then show ?thesis unfolding s'(2) by (auto split: prod.splits)
next
  case False
  then show ?thesis using address_line_zero [OF al] by blast
qed


lemma pattern_verify_pass:
  assumes "\<forall>i\<in>set is. R s (word_at mem (of_nat i)) = v"
  shows "fst (pattern_verify bus ev mem v is s) = DIAG_TEST_RESULT_PASS \<and>
    hw_only s (snd (pattern_verify bus ev mem v is s)) \<and> R (snd (pattern_verify bus ev mem v is s)) = R s"
  using assms
proof (induction "is" arbitrary: s)
  case (Cons x offs)
  let ?s = "snd (readl bus (word_at mem (of_nat x)) s)"
  have "R ?s = R s" by (rule ext) simp
  with Cons.IH [of ?s] Cons.prems show ?case
    by (auto simp: case_prod_beta intro: hw_only_trans [OF hw_only_access(2)])
qed simp

lemma pattern_pass:
  assumes al: "word_aligned (mem_address a)"
  shows "fst (memory_pattern_test bus tid (Some a) s) = DIAG_TEST_RESULT_PASS \<and>
    hw_only s (snd (memory_pattern_test bus tid (Some a) s)) \<and>
    (\<forall>b. word_aligned b \<longrightarrow> R (snd (memory_pattern_test bus tid (Some a) s)) b =
       (if \<exists>i<unat (mem_size a div 4). dec b = dec (word_at (mem_address a) (of_nat i)) then mem_value a else R s b))"
proof -
  let ?is = "[0..<unat (mem_size a div 4)]"
  let ?f = "\<lambda>i. word_at (mem_address a) (of_nat i)"
  let ?s = "fold (\<lambda>i. writel bus (?f i) (mem_value a)) ?is s"
  note aa = word_aligned_word_at [OF al]
  have r: "R ?s b = (if \<exists>i\<in>set ?is. dec b = dec (?f i) then mem_value a else R s b)" if "word_aligned b" for b
    by (rule R_fold_writel [OF aa that])
  have "\<forall>i\<in>set ?is. R ?s (?f i) = mem_value a" using r [OF aa] by auto
  from pattern_verify_pass [OF this, of "Event_Init tid s"]
  show ?thesis unfolding memory_pattern_test_def Let_def option.case
    using hw_only_trans [OF hw_only_fold_writel] by (auto simp: r)
qed

lemma data_line_loop_pass:
  assumes al: "word_aligned addr"
  shows "fst (data_line_loop bus ev addr pats s) = DIAG_TEST_RESULT_PASS \<and>
    hw_only s (snd (data_line_loop bus ev addr pats s))"
proof (induction pats arbitrary: s)
  case (Cons p pats)
  define s1 where "s1 = snd (readl bus addr (flush_dcache_all bus (writel bus addr p s)))"
  have h: "hw_only s s1" unfolding s1_def
    by (rule hw_only_trans [OF _ hw_only_access(2)], rule hw_only_trans [OF _ hw_only_access(4)]) simp
  have r: "R (writel bus addr p s) addr = p" by (simp add: R_writel [OF al al])
  have "data_line_loop bus ev addr (p # pats) s = data_line_loop bus ev addr pats s1"
    by (simp add: case_prod_beta s1_def r)
  then show ?case using Cons.IH [of s1] h hw_only_trans by metis
qed simp

end

text \<open>
  The byte memory of \<open>Cstring\<close> behind address and data lines: \<open>dec\<close> is the address that arrives
  at the memory, \<open>lines\<close> what a read makes of the stored word. Without faults both are the identity.
\<close>

definition faulty_bus :: "(u32 \<Rightarrow> u32) \<Rightarrow> (u32 \<Rightarrow> u32) \<Rightarrow> memory bus" where
  "faulty_bus dec lines =
     \<lparr>bus_read = (\<lambda>a m. (lines (load_word (dec a) m), m)),
      bus_write = (\<lambda>a v m. store_word (dec a) v m), bus_flush = (\<lambda>m. m)\<rparr>"

definition ram_bus :: "memory bus" where
  "ram_bus = faulty_bus (\<lambda>a. a) (\<lambda>v. v)"

lemma load_store_word: "load_word a (store_word a v m) = v"
proof (rule bit_word_eqI)
  fix n :: nat
  assume "n < LENGTH(32)"
  then consider "n < 8" | "8 \<le> n" "n < 16" | "16 \<le> n" "n < 24" | "24 \<le> n" "n < 32" by fastforce
  then show "bit (load_word a (store_word a v m)) n = bit v n"
    by cases (simp_all add: load_word_def store_word_def bit_simps, auto)
qed

lemma load_store_word_other:
  assumes "word_aligned a" "word_aligned b" "a \<noteq> b"
  shows "load_word b (store_word a v m) = load_word b m"
proof -
  have *: "b + of_nat j \<noteq> a + of_nat i" if "i < 4" "j < 4" for i j
  proof
    assume e: "b + of_nat j = a + of_nat i"
    have u: "unat (c + of_nat k) = unat c + k" if "word_aligned c" "k < 4" for c k
    proof -
      have "unat c mod 4 = 0" using that by (simp add: word_aligned_unat)
      moreover have "unat c < 4294967296" using unsigned_less [of c] by simp
      ultimately have "unat c + k < 4294967296" using that(2) by presburger
      then show ?thesis using that(2) by (simp add: unat_word_ariths unat_of_nat)
    qed
    have "unat b + j = unat a + i" using u [OF assms(1) that(1)] u [OF assms(2) that(2)] e by simp
    moreover have "unat a mod 4 = 0" "unat b mod 4 = 0" using assms by (simp_all add: word_aligned_unat)
    ultimately have "unat a = unat b" using that by presburger
    then show False using assms(3) by (simp add: word_unat_eq_iff)
  qed
  have n: "b \<noteq> a" "b \<noteq> a + 1" "b \<noteq> a + 2" "b \<noteq> a + 3"
    "b + 1 \<noteq> a" "b + 1 \<noteq> a + 1" "b + 1 \<noteq> a + 2" "b + 1 \<noteq> a + 3"
    "b + 2 \<noteq> a" "b + 2 \<noteq> a + 1" "b + 2 \<noteq> a + 2" "b + 2 \<noteq> a + 3"
    "b + 3 \<noteq> a" "b + 3 \<noteq> a + 1" "b + 3 \<noteq> a + 2" "b + 3 \<noteq> a + 3"
    using * [of 0 0] * [of 1 0] * [of 2 0] * [of 3 0] * [of 0 1] * [of 1 1] * [of 2 1] * [of 3 1]
      * [of 0 2] * [of 1 2] * [of 2 2] * [of 3 2] * [of 0 3] * [of 1 3] * [of 2 3] * [of 3 3]
    by simp_all
  show ?thesis
    unfolding load_word_def store_word_def by (simp only: fun_upd_apply n if_False)
qed

lemma memory_bus_faulty:
  assumes "\<And>a. word_aligned a \<Longrightarrow> word_aligned (dec a)"
  shows "memory_bus (faulty_bus dec (\<lambda>v. v)) dec"
proof
  fix a b :: u32 and v and h :: memory
  assume "word_aligned a" "word_aligned b"
  then have "load_word (dec b) (store_word (dec a) v h) = (if dec b = dec a then v else load_word (dec b) h)"
    using load_store_word_other [of "dec a" "dec b"] assms by (simp add: load_store_word)
  then show "fst (bus_read (faulty_bus dec (\<lambda>v. v)) b (bus_write (faulty_bus dec (\<lambda>v. v)) a v h)) =
      (if dec b = dec a then v else fst (bus_read (faulty_bus dec (\<lambda>v. v)) b h))"
    by (simp add: faulty_bus_def)
qed (simp_all add: faulty_bus_def)

interpretation ram: memory_bus ram_bus "\<lambda>a. a"
  unfolding ram_bus_def by (rule memory_bus_faulty)


subsection \<open>What the tests detect\<close>

lemma set_line_offsets:
  "set (line_offsets len) = {2 ^ j |j. j < 32 \<and> (\<forall>i\<le>j. bit (len div 4 - 1) i)}"
proof -
  have *: "set (takeWhile p [0..<n]) = {j. j < n \<and> (\<forall>i\<le>j. p i)}" for p n
  proof (induction n)
    case (Suc n)
    show ?case
    proof (cases "\<forall>i<n. p i")
      case True
      then have "takeWhile p [0..<n] = [0..<n]" by (simp add: takeWhile_eq_all_conv)
      then show ?thesis using True by (auto simp: takeWhile_append less_Suc_eq le_less)
    next
      case False
      then obtain k where "k < n" "\<not> p k" by blast
      then have "takeWhile p [0..<Suc n] = takeWhile p [0..<n]"
        by (simp add: takeWhile_append1 [of k])
      then show ?thesis using Suc.IH \<open>k < n\<close> \<open>\<not> p k\<close> by (auto simp: less_Suc_eq)
    qed
  qed simp
  show ?thesis unfolding line_offsets_eq set_map * by auto
qed

lemma zero_not_offset: "0 \<notin> set (line_offsets len)"
  by (auto simp: set_line_offsets)

lemma address_line_cases:
  assumes "\<And>b. word_aligned b \<Longrightarrow> word_aligned (dec b)" "word_aligned (mem_address a)"
  shows "fst (memory_address_line_test (faulty_bus dec (\<lambda>v. v)) tid (Some a) s) =
    (if inj_on (\<lambda>x. dec (word_at (mem_address a) x)) (insert 0 (set (line_offsets (mem_size a))))
     then DIAG_TEST_RESULT_PASS else DIAG_TEST_RESULT_FAIL)"
proof -
  note bus = memory_bus_faulty [of dec, OF assms(1)]
  show ?thesis
  proof (cases "inj_on (\<lambda>x. dec (word_at (mem_address a) x)) (insert 0 (set (line_offsets (mem_size a))))")
    case True
    then show ?thesis using memory_bus.address_line_pass [OF bus assms(2) True zero_not_offset] by simp
  next
    case False
    then obtain x y where "x \<in> insert 0 (set (line_offsets (mem_size a)))" "y \<in> set (line_offsets (mem_size a))"
      "x \<noteq> y" "dec (word_at (mem_address a) x) = dec (word_at (mem_address a) y)"
      unfolding inj_on_def by (metis insert_iff)
    then show ?thesis using memory_bus.address_line_fail [OF bus assms(2)] False by simp
  qed
qed

lemma data_line_loop_faulty:
  "fst (data_line_loop (faulty_bus dec lines) ev addr pats s) =
     (if \<forall>p\<in>set pats. lines p = p then DIAG_TEST_RESULT_PASS else DIAG_TEST_RESULT_FAIL)"
proof (induction pats arbitrary: s)
  case (Cons p pats)
  have "fst (readl (faulty_bus dec lines) addr
          (flush_dcache_all (faulty_bus dec lines) (writel (faulty_bus dec lines) addr p s))) = lines p"
    by (simp add: readl_def on_hw_def writel_def flush_dcache_all_def faulty_bus_def load_store_word)
  then show ?case using Cons.IH by (auto simp: case_prod_beta Let_def)
qed simp

lemma data_line_cases:
  "fst (memory_data_line_test (faulty_bus dec lines) tid (Some a) s) =
     (if \<forall>i<32. lines (2 ^ i) = 2 ^ i then DIAG_TEST_RESULT_PASS else DIAG_TEST_RESULT_FAIL)"
  unfolding memory_data_line_test_def option.case data_line_loop_faulty walk_all by (simp add: atLeast0LessThan)

text \<open>
  (C25) The address line test on a memory whose address decoder may be faulty passes exactly when
  the decoder tells the probed words apart: the first word and those whose offset is a power of
  two below the first 0 of the mask \<open>size / 4 - 1\<close>. Otherwise it fails.
\<close>

theorem address_line_test_iff:
  assumes "\<And>b. word_aligned b \<Longrightarrow> word_aligned (dec b)" "word_aligned (mem_address a)"
  shows "fst (memory_address_line_test (faulty_bus dec (\<lambda>v. v)) tid (Some a) s) =
    (if inj_on (\<lambda>x. dec (mem_address a + 4 * x))
          (insert 0 {2 ^ j |j. j < 32 \<and> (\<forall>i\<le>j. bit (mem_size a div 4 - 1) i)})
     then DIAG_TEST_RESULT_PASS else DIAG_TEST_RESULT_FAIL)"
  using address_line_cases [OF assms] by (simp only: set_line_offsets word_at_def)

definition io_zero :: "memory io" where
  "io_zero = \<lparr>console = [], s_logMode = CONSOLE_LOG_MODE, s_logMask = LOG_MASK_ALL, curTestId = 0,
     hw = (\<lambda>_. 0), ub = False\<rparr>"

theorem address_line_test_iff_witness:
  "fst (memory_address_line_test (faulty_bus (\<lambda>a. a AND NOT 4) (\<lambda>v. v)) 1
     (Some \<lparr>mem_address = 0x82000000, mem_size = 16\<rparr>) io_zero) = DIAG_TEST_RESULT_FAIL"
proof -
  have al: "word_aligned (b AND NOT 4)" if "word_aligned b" for b
  proof -
    have "(b AND NOT 4) AND 3 = (b AND 3) AND NOT 4"
      by (simp only: and.assoc and.commute [of "NOT 4" 3])
    then show ?thesis using that by (simp add: word_aligned_def)
  qed
  have "\<not> inj_on (\<lambda>x. (0x82000000 + 4 * x) AND NOT 4 :: u32)
          (insert 0 {2 ^ j |j. j < 32 \<and> (\<forall>i\<le>j. bit (16 div 4 - 1 :: u32) i)})"
  proof
    assume h: "inj_on (\<lambda>x. (0x82000000 + 4 * x) AND NOT 4 :: u32)
          (insert 0 {2 ^ j |j. j < 32 \<and> (\<forall>i\<le>j. bit (16 div 4 - 1 :: u32) i)})"
    have m: "(1 :: u32) \<in> insert 0 {2 ^ j |j. j < 32 \<and> (\<forall>i\<le>j. bit (16 div 4 - 1 :: u32) i)}"
      by (intro insertI2 CollectI exI [of _ 0]) simp
    have "(0x82000000 + 4 * 0) AND NOT 4 = (0x82000000 + 4 * 1) AND (NOT 4 :: u32)" by simp
    then have "(0 :: u32) = 1" by (rule inj_onD [OF h _ insertI1 m])
    then show False by simp
  qed
  then show ?thesis
    using address_line_test_iff [of "\<lambda>a. a AND NOT 4" "\<lparr>mem_address = 0x82000000, mem_size = 16\<rparr>" 1 io_zero, OF al]
    by (simp add: word_aligned_def)
qed


lemma offset_in_region:
  assumes "2 \<le> k" "k < n" "n < 32"
  shows "2 ^ (k - 2) \<in> set (line_offsets (2 ^ n))"
proof -
  have "(2 ^ n :: u32) div 4 = drop_bit 2 (2 ^ n)" by (simp add: drop_bit_eq_div)
  also have "\<dots> = 2 ^ (n - 2)"
    by (rule bit_word_eqI) (use assms in \<open>auto simp: bit_drop_bit_eq bit_two_power simp del: drop_bit_exp_eq\<close>)
  finally have "(2 ^ n :: u32) div 4 - 1 = mask (n - 2)" by (simp add: mask_eq_exp_minus_1)
  moreover have "k - 2 < 32" "\<forall>i\<le>k - 2. bit (mask (n - 2) :: u32) i" using assms by (auto simp: bit_mask_iff)
  ultimately show ?thesis unfolding set_line_offsets by (intro CollectI exI [of _ "k - 2"]) simp
qed

lemma word_at_bit:
  assumes "2 \<le> k" "k < n" "take_bit n addr = 0"
  shows "word_at addr (2 ^ (k - 2)) = addr OR 2 ^ k"
proof -
  have "\<not> bit (take_bit n addr) k" using assms(3) by simp
  then have nb: "\<not> bit addr k" using assms(2) by (simp add: bit_take_bit_iff)
  have "(2 ^ k :: u32) = 2 ^ (2 + (k - 2))" using assms(1) by (simp only: le_add_diff_inverse)
  also have "\<dots> = 2 ^ 2 * 2 ^ (k - 2)" by (rule power_add)
  finally have "word_at addr (2 ^ (k - 2)) = addr + 2 ^ k" by (simp add: word_at_def)
  also have "\<dots> = addr OR 2 ^ k" by (rule disjunctive_add) (use nb in auto)
  finally show ?thesis .
qed

lemma address_line_stuck:
  assumes "2 \<le> k" "k < n" "n < 32" "mem_size b = 2 ^ n" "take_bit n (mem_address b) = 0"
    and "dec (mem_address b OR 2 ^ k) = dec (mem_address b)"
    and dec: "\<And>x m. m < 2 \<Longrightarrow> bit (dec x) m = bit x m"
  shows "fst (memory_address_line_test (faulty_bus dec (\<lambda>v. v)) tid (Some b) s) = DIAG_TEST_RESULT_FAIL"
proof -
  have al: "word_aligned x \<longleftrightarrow> (\<forall>m<2. \<not> bit x m)" for x
  proof -
    have "word_aligned x \<longleftrightarrow> take_bit 2 x = 0"
      by (simp add: word_aligned_def take_bit_eq_mask mask_eq_exp_minus_1)
    also have "\<dots> \<longleftrightarrow> (\<forall>m. \<not> bit (take_bit 2 x) m)"
    proof
      assume "\<forall>m. \<not> bit (take_bit 2 x) m"
      then show "take_bit 2 x = 0" by (intro bit_eqI) simp
    qed simp
    finally show ?thesis by (simp add: bit_take_bit_iff)
  qed
  have "\<forall>m<2. \<not> bit (take_bit n (mem_address b)) m" using assms(5) by simp
  then have "word_aligned (mem_address b)" using assms(1,2) by (simp add: al bit_take_bit_iff)
  moreover have "memory_bus (faulty_bus dec (\<lambda>v. v)) dec"
    by (rule memory_bus_faulty) (simp add: al dec)
  moreover have "dec (word_at (mem_address b) (2 ^ (k - 2))) = dec (word_at (mem_address b) 0)"
    using word_at_bit [OF assms(1,2,5)] assms(6) by (simp add: word_at_def)
  moreover have "2 ^ (k - 2) \<in> set (line_offsets (mem_size b))"
    unfolding assms(4) by (rule offset_in_region [OF assms(1-3)])
  ultimately show ?thesis using memory_bus.address_line_zero by blast
qed

lemma data_line_stuck:
  assumes "j < 32" "lines (2 ^ j) \<noteq> 2 ^ j"
  shows "fst (memory_data_line_test (faulty_bus dec lines) tid (Some a) s) = DIAG_TEST_RESULT_FAIL"
  unfolding data_line_cases using assms by auto

text \<open>
  (C26) A data or address line that is stuck is detected. The data line test fails when any of the
  32 data lines always reads as 0 or always as 1. The address line test of a naturally aligned
  region of \<open>2 ^ n\<close> bytes fails when any of the address lines from 2 up to \<open>n - 1\<close> is stuck at 0 or at 1.
\<close>

theorem stuck_lines_detected:
  assumes "i < 32" "2 \<le> k" "k < n" "n < 32" "mem_size b = 2 ^ n" "take_bit n (mem_address b) = 0"
  shows "fst (memory_data_line_test (faulty_bus dec (\<lambda>v. v AND NOT (2 ^ i))) tid (Some a) s) = DIAG_TEST_RESULT_FAIL
    \<and> fst (memory_data_line_test (faulty_bus dec (\<lambda>v. v OR 2 ^ i)) tid (Some a) s) = DIAG_TEST_RESULT_FAIL
    \<and> fst (memory_address_line_test (faulty_bus (\<lambda>x. x AND NOT (2 ^ k)) (\<lambda>v. v)) tid (Some b) s) =
      DIAG_TEST_RESULT_FAIL
    \<and> fst (memory_address_line_test (faulty_bus (\<lambda>x. x OR 2 ^ k) (\<lambda>v. v)) tid (Some b) s) =
      DIAG_TEST_RESULT_FAIL"
proof (intro conjI)
  have "\<not> bit (2 ^ i AND NOT (2 ^ i) :: u32) i" by (simp add: bit_and_iff bit_not_iff)
  then have "2 ^ i AND NOT (2 ^ i) \<noteq> (2 ^ i :: u32)" using assms(1) by (metis bit_two_power)
  then show "fst (memory_data_line_test (faulty_bus dec (\<lambda>v. v AND NOT (2 ^ i))) tid (Some a) s) = DIAG_TEST_RESULT_FAIL"
    by (rule data_line_stuck [OF assms(1)])
  define j where "j = (if i = 0 then 1 else 0 :: nat)"
  have "bit (2 ^ j OR 2 ^ i :: u32) i" "\<not> bit (2 ^ j :: u32) i"
    using assms(1) by (auto simp: bit_or_iff j_def)
  then have "2 ^ j OR 2 ^ i \<noteq> (2 ^ j :: u32)" by metis
  then show "fst (memory_data_line_test (faulty_bus dec (\<lambda>v. v OR 2 ^ i)) tid (Some a) s) = DIAG_TEST_RESULT_FAIL"
    by (intro data_line_stuck [of j]) (simp_all add: j_def)
  show "fst (memory_address_line_test (faulty_bus (\<lambda>x. x AND NOT (2 ^ k)) (\<lambda>v. v)) tid (Some b) s) =
      DIAG_TEST_RESULT_FAIL"
    by (rule address_line_stuck [OF assms(2-6)])
      (rule bit_word_eqI, use assms(2) in \<open>auto simp: bit_and_iff bit_or_iff bit_not_iff\<close>)
  show "fst (memory_address_line_test (faulty_bus (\<lambda>x. x OR 2 ^ k) (\<lambda>v. v)) tid (Some b) s) =
      DIAG_TEST_RESULT_FAIL"
    by (rule address_line_stuck [OF assms(2-6)])
      (use assms(2) in \<open>auto simp: or.assoc bit_or_iff\<close>)
qed


theorem stuck_lines_detected_witness:
  "fst (memory_data_line_test (faulty_bus (\<lambda>a. a) (\<lambda>v. v AND NOT (2 ^ 5))) 1 (Some \<lparr>mem_address = 0x82000000\<rparr>) io_zero) =
     DIAG_TEST_RESULT_FAIL \<and>
   fst (memory_address_line_test (faulty_bus (\<lambda>x. x OR 2 ^ 10) (\<lambda>v. v)) 1
     (Some \<lparr>mem_address = 0x82000000, mem_size = 0x100000\<rparr>) io_zero) = DIAG_TEST_RESULT_FAIL"
  using stuck_lines_detected [of 5 10 20 "\<lparr>mem_address = 0x82000000, mem_size = 0x100000\<rparr>" "\<lambda>a. a" 1
    "\<lparr>mem_address = 0x82000000\<rparr>" io_zero] by simp

lemma offset_small:
  assumes "4 \<le> len" "x \<in> insert 0 (set (line_offsets len))"
  shows "unat x < 2 ^ 30"
proof -
  define m where "m = len div 4 - 1"
  have "unat (4 :: u32) \<le> unat len" using assms(1) by (simp only: word_le_nat_alt)
  then have "1 \<le> unat (len div 4)" by (simp add: unat_div_distrib)
  then have "unat m = unat (len div 4) - 1"
    unfolding m_def by (subst unat_sub) (simp_all add: word_le_nat_alt)
  moreover have "unat len < 2 ^ 32" using unsigned_less [of len] by simp
  then have m2: "unat (len div 4) < 2 ^ 30" by (simp add: unat_div_distrib)
  ultimately have m: "unat m < 2 ^ 30" using m2 by simp
  have "j < 30" if "bit m j" for j using bit_less_power [OF m that] .
  moreover have "unat (2 ^ j :: u32) < 2 ^ 30" if "j < 30" for j
  proof -
    have p: "(2 :: nat) ^ j < 2 ^ 30" using that by (intro power_strict_increasing) simp_all
    have "unat (2 ^ j :: u32) = unat (of_nat (2 ^ j) :: u32)" by simp
    also have "\<dots> = 2 ^ j" using p by (simp only: unat_of_nat) simp
    finally show ?thesis using p by simp
  qed
  ultimately show ?thesis using assms(2) by (auto simp: set_line_offsets m_def [symmetric])
qed

lemma offsets_distinct:
  assumes "4 \<le> len"
  shows "inj_on (\<lambda>x. word_at addr x) (insert 0 (set (line_offsets len)))"
proof (rule inj_onI)
  fix x y
  assume x: "x \<in> insert 0 (set (line_offsets len))" and y: "y \<in> insert 0 (set (line_offsets len))"
    and "word_at addr x = word_at addr y"
  then have "unat (4 * x) = unat (4 * y)" by (simp add: word_at_def)
  then have "unat x = unat y" using offset_small [OF assms x] offset_small [OF assms y] by (simp add: unat_word_ariths)
  then show "x = y" by (simp add: word_unat_eq_iff)
qed

text \<open>
  (C27) No false alarm: on a working memory, the byte memory of the C library, the three tests pass
  and print nothing; afterwards the region of the pattern test holds the pattern in every
  word, and every other word is as it was.
\<close>

theorem memory_tests_pass:
  assumes "word_aligned (mem_address a)" "word_aligned (mem_address b)" "4 \<le> mem_size b" "word_aligned (mem_address c)"
    and "s1 = snd (memory_data_line_test ram_bus tid (Some a) s)"
    and "s2 = snd (memory_address_line_test ram_bus tid (Some b) s1)"
    and "s3 = snd (memory_pattern_test ram_bus tid (Some c) s2)"
  shows "fst (memory_data_line_test ram_bus tid (Some a) s) = DIAG_TEST_RESULT_PASS \<and>
    fst (memory_address_line_test ram_bus tid (Some b) s1) = DIAG_TEST_RESULT_PASS \<and>
    fst (memory_pattern_test ram_bus tid (Some c) s2) = DIAG_TEST_RESULT_PASS \<and>
    s3 = s\<lparr>hw := hw s3\<rparr> \<and>
    (\<forall>w. word_aligned w \<longrightarrow> load_word w (hw s3) =
       (if \<exists>i<unat (mem_size c div 4). w = mem_address c + 4 * of_nat i then mem_value c else load_word w (hw s2)))"
proof -
  have 1: "fst (memory_data_line_test ram_bus tid (Some a) s) = DIAG_TEST_RESULT_PASS \<and> hw_only s s1"
    unfolding assms(5) memory_data_line_test_def option.case by (rule ram.data_line_loop_pass [OF assms(1)])
  have 2: "fst (memory_address_line_test ram_bus tid (Some b) s1) = DIAG_TEST_RESULT_PASS \<and> hw_only s1 s2"
    unfolding assms(6) by (rule ram.address_line_pass [OF assms(2) offsets_distinct [OF assms(3)] zero_not_offset])
  have r: "ram.R st w = load_word w (hw st)" for st w
    unfolding ram.R_def by (simp add: ram_bus_def faulty_bus_def)
  have 3: "fst (memory_pattern_test ram_bus tid (Some c) s2) = DIAG_TEST_RESULT_PASS \<and> hw_only s2 s3 \<and>
    (\<forall>w. word_aligned w \<longrightarrow> load_word w (hw s3) =
       (if \<exists>i<unat (mem_size c div 4). w = mem_address c + 4 * of_nat i then mem_value c else load_word w (hw s2)))"
    using ram.pattern_pass [OF assms(4), of tid s2] unfolding assms(7) r word_at_def .
  have "hw_only s s3" using 1 2 3 hw_only_trans by blast
  then show ?thesis using 1 2 3 unfolding hw_only_def by blast
qed

theorem memory_tests_pass_witness:
  "fst (memory_pattern_test ram_bus 1 (Some \<lparr>mem_address = 0x82000000, mem_size = 8, mem_value = 0xDEADBEEF\<rparr>)
      (snd (memory_address_line_test ram_bus 1 (Some \<lparr>mem_address = 0x82000000, mem_size = 0x100000\<rparr>)
        (snd (memory_data_line_test ram_bus 1 (Some \<lparr>mem_address = 0x82000000\<rparr>) io_zero))))) =
   DIAG_TEST_RESULT_PASS"
  using memory_tests_pass [of "\<lparr>mem_address = 0x82000000\<rparr>" "\<lparr>mem_address = 0x82000000, mem_size = 0x100000\<rparr>"
    "\<lparr>mem_address = 0x82000000, mem_size = 8, mem_value = 0xDEADBEEF\<rparr>", OF _ _ _ _ refl refl refl, of 1 io_zero]
  by (simp add: word_aligned_def)

end
