(* ===== verification/GpioTest.thy ===== *)
theory GpioTest
  imports TestIo
begin

text \<open>
  The GPIO test: \<^verbatim>\<open>test-framework/testsuite/test_gpio.c\<close>, on a bus that is a parameter. A shift by
  32 or more is undefined; the shift of 1 into the sign bit is the word shift of the compiler.
\<close>

record A_GPIO_test =
  pad_ctrl_base_addr :: u32
  pad_ctrl_offset :: u32
  pad_ctrl_val :: u32
  gpio_bank_base_addr :: u32
  gpio_bank_enable_offset :: u32
  gpio_bank_enable_val :: u32
  gpio_direction :: u32
  gpio_bank_output_offset :: u32
  gpio_bank_datain_offset :: u32
  gpio_bank_dataout_offset :: u32
  gpio_pin :: u32
  enable :: u32

definition pin_mask :: "A_GPIO_test \<Rightarrow> u32" where
  "pin_mask a = push_bit (unat (gpio_pin a)) 1"

definition datain_addr :: "A_GPIO_test \<Rightarrow> u32" where
  "datain_addr a = gpio_bank_base_addr a + gpio_bank_datain_offset a"

definition GPIO_test :: "'hw bus \<Rightarrow> u32 \<Rightarrow> A_GPIO_test option \<Rightarrow> 'hw io \<Rightarrow> TestResultTypes_e \<times> 'hw io" where
  "GPIO_test bus tid arg s =
     (case arg of
        None \<Rightarrow> (DIAG_TEST_RESULT_ABORTED, DEBUG_ASSERT ''test_gpio.c'' 41 s)
      | Some a \<Rightarrow>
          let s = writel bus (pad_ctrl_base_addr a + pad_ctrl_offset a) (pad_ctrl_val a) s;
              s = writel bus (gpio_bank_base_addr a + gpio_bank_enable_offset a) (gpio_bank_enable_val a) s in
          if gpio_direction a \<noteq> 1 then (DIAG_TEST_RESULT_PASS, s)
          else if unat (gpio_pin a) \<ge> 32 then (DIAG_TEST_RESULT_ABORTED, set_ub s)
          else
            let (reg, s) = readl bus (gpio_bank_base_addr a + gpio_bank_output_offset a) s;
                s = writel bus (gpio_bank_base_addr a + gpio_bank_output_offset a) (reg AND NOT (pin_mask a)) s;
                (reg, s) = readl bus (datain_addr a) s
            in if enable a \<noteq> 0 then
                 if reg AND pin_mask a \<noteq> 0 then (DIAG_TEST_RESULT_FAIL, s)
                 else
                   let s = writel bus (gpio_bank_base_addr a + gpio_bank_dataout_offset a) (pin_mask a) s;
                       (reg, s) = readl bus (datain_addr a) s
                   in (if reg AND pin_mask a \<noteq> 0 then DIAG_TEST_RESULT_PASS else DIAG_TEST_RESULT_FAIL, s)
               else
                 let s = writel bus (gpio_bank_base_addr a + gpio_bank_dataout_offset a) (NOT (pin_mask a)) s;
                     (reg, s) = readl bus (datain_addr a) s
                 in (if reg AND NOT (pin_mask a) \<noteq> 0 then DIAG_TEST_RESULT_PASS else DIAG_TEST_RESULT_FAIL, s))"

subsection \<open>A pin that does not move\<close>

text \<open>A bus on which the tested pin always reads as the level \<open>v\<close>.\<close>

definition force_pin :: "A_GPIO_test \<Rightarrow> bool \<Rightarrow> u32 \<Rightarrow> u32" where
  "force_pin a v w = (if v then w OR pin_mask a else w AND NOT (pin_mask a))"

definition stuck_pin :: "A_GPIO_test \<Rightarrow> bool \<Rightarrow> 'hw bus \<Rightarrow> 'hw bus" where
  "stuck_pin a v bus = bus\<lparr>bus_read := \<lambda>addr h.
     if addr = datain_addr a then (force_pin a v (fst (bus_read bus addr h)), snd (bus_read bus addr h))
     else bus_read bus addr h\<rparr>"

lemma writel_stuck [simp]: "writel (stuck_pin a v bus) = writel bus"
  by (simp add: fun_eq_iff writel_def stuck_pin_def)

lemma readl_stuck:
  "readl (stuck_pin a v bus) addr s =
     (if addr = datain_addr a then (force_pin a v (fst (readl bus addr s)), snd (readl bus addr s)) else readl bus addr s)"
  by (simp add: readl_def on_hw_def stuck_pin_def split: prod.split)

lemma pin_mask_nonzero:
  assumes "unat (gpio_pin a) < 32"
  shows "pin_mask a \<noteq> 0"
proof
  assume "pin_mask a = 0"
  then have "\<not> bit (pin_mask a) (unat (gpio_pin a))" by simp
  then show False using assms by (simp add: pin_mask_def bit_simps)
qed

lemma force_pin_masked:
  "force_pin a v w AND pin_mask a = (if v then pin_mask a else 0)"
  "force_pin a v w AND NOT (pin_mask a) = w AND NOT (pin_mask a)"
  by (auto simp: force_pin_def intro!: bit_word_eqI simp: bit_simps)

text \<open>
  (C35) A pin that is stuck at a level makes the test of switching it on fail, whichever level it is. The test
  of switching it off does not see the pin at all: its verdict and its effects are those on the bank whose
  pin moves.
\<close>

theorem gpio_stuck_pin:
  assumes "gpio_direction a = 1" "unat (gpio_pin a) < 32"
  shows "(enable a \<noteq> 0 \<longrightarrow> fst (GPIO_test (stuck_pin a v bus) tid (Some a) s) = DIAG_TEST_RESULT_FAIL) \<and>
    (enable a = 0 \<longrightarrow> GPIO_test (stuck_pin a v bus) tid (Some a) s = GPIO_test bus tid (Some a) s)"
proof (intro conjI impI)
  assume e: "enable a \<noteq> 0"
  show "fst (GPIO_test (stuck_pin a v bus) tid (Some a) s) = DIAG_TEST_RESULT_FAIL"
    using assms e pin_mask_nonzero [OF assms(2)]
    by (cases v) (simp_all add: GPIO_test_def Let_def case_prod_beta readl_stuck force_pin_masked)
next
  assume e: "enable a = 0"
  have o: "fst (readl (stuck_pin a v bus) addr t) AND NOT (pin_mask a) = fst (readl bus addr t) AND NOT (pin_mask a)"
    "snd (readl (stuck_pin a v bus) addr t) = snd (readl bus addr t)" for addr t
    by (simp_all add: readl_stuck force_pin_masked)
  show "GPIO_test (stuck_pin a v bus) tid (Some a) s = GPIO_test bus tid (Some a) s"
    using assms e by (simp add: GPIO_test_def Let_def case_prod_beta o)
qed

text \<open>The two registrations of the board, on a bank of registers that reads what was written.\<close>

definition reg_bus :: "(u32 \<Rightarrow> u32) bus" where
  "reg_bus = \<lparr>bus_read = \<lambda>addr h. (h addr, h), bus_write = \<lambda>addr v h. h(addr := v), bus_flush = \<lambda>h. h\<rparr>"

definition gpio_bank :: A_GPIO_test where
  "gpio_bank = \<lparr>pad_ctrl_base_addr = 0x44E10000, pad_ctrl_offset = 0x814, pad_ctrl_val = 0x17,
     gpio_bank_base_addr = 0x4804c000, gpio_bank_enable_offset = 0x130, gpio_bank_enable_val = 0,
     gpio_direction = 1, gpio_bank_output_offset = 0x134, gpio_bank_datain_offset = 0x138,
     gpio_bank_dataout_offset = 0x13C, gpio_pin = 21, enable = 1\<rparr>"

definition quiet_io :: "'hw \<Rightarrow> 'hw io" where
  "quiet_io h = \<lparr>console = [], s_logMode = CONSOLE_LOG_MODE, s_logMask = 0, curTestId = 0, hw = h, ub = False\<rparr>"

theorem gpio_stuck_pin_witness:
  "fst (GPIO_test (stuck_pin gpio_bank True reg_bus) 1 (Some gpio_bank) (quiet_io (\<lambda>_. 1))) = DIAG_TEST_RESULT_FAIL \<and>
   fst (GPIO_test (stuck_pin (gpio_bank\<lparr>enable := 0\<rparr>) True reg_bus) 1 (Some (gpio_bank\<lparr>enable := 0\<rparr>)) (quiet_io (\<lambda>_. 1))) =
     DIAG_TEST_RESULT_PASS"
proof -
  have "fst (GPIO_test reg_bus 1 (Some (gpio_bank\<lparr>enable := 0\<rparr>)) (quiet_io (\<lambda>_. 1))) = DIAG_TEST_RESULT_PASS"
    by code_simp
  then show ?thesis
    using gpio_stuck_pin [of gpio_bank True reg_bus 1 "quiet_io (\<lambda>_. 1)"]
      gpio_stuck_pin [of "gpio_bank\<lparr>enable := 0\<rparr>" True reg_bus 1 "quiet_io (\<lambda>_. 1)"]
    by (simp add: gpio_bank_def)
qed

end
