(* ===== verification/MmcTest.thy ===== *)
theory MmcTest
  imports TestIo
begin

text \<open>
  What the storage and network tests of \<^verbatim>\<open>test-framework/testsuite\<close> share, and the MMC tests, \<^verbatim>\<open>test_mmc.c\<close>.
  The record \<open>periph\<close> holds the global variables of these tests and, in \<open>dev\<close>, the devices; the drivers they
  call are records of functions. A pointer to a device is a handle of its driver.
\<close>

record mmc_param_s =
  curr_device :: u8
  block_start :: u32
  block_cnt :: u32
  dev_id :: u32
  pmmc :: "u32 option"

record 'e periph =
  ommc_param :: mmc_param_s
  test_buffer_1 :: "u8 list"
  test_buffer_2 :: "u8 list"
  flash :: "u32 option"
  data_test_buf1 :: "u8 list"
  data_test_buf2 :: "u8 list"
  net_ping_ip :: u32
  dev :: 'e

definition on_periph :: "('e periph \<Rightarrow> 'e periph) \<Rightarrow> 'e periph io \<Rightarrow> 'e periph io" where
  "on_periph f s = s\<lparr>hw := f (hw s)\<rparr>"

definition dev_bus :: "'e bus \<Rightarrow> 'e periph bus" where
  "dev_bus b = \<lparr>bus_read = \<lambda>a p. (fst (bus_read b a (dev p)), p\<lparr>dev := snd (bus_read b a (dev p))\<rparr>),
     bus_write = \<lambda>a v p. p\<lparr>dev := bus_write b a v (dev p)\<rparr>,
     bus_flush = \<lambda>p. p\<lparr>dev := bus_flush b (dev p)\<rparr>\<rparr>"

text \<open>\<open>n\<close> bytes stored at the start of an array; behind its end the store is undefined.\<close>

definition store_bytes :: "(u8 list \<Rightarrow> 'e periph \<Rightarrow> 'e periph) \<Rightarrow> u8 list \<Rightarrow> u8 list \<Rightarrow> 'e periph io \<Rightarrow> 'e periph io" where
  "store_bytes upd bytes buf s =
     (if length bytes > length buf then set_ub s else on_periph (upd (bytes @ drop (length bytes) buf)) s)"

subsection \<open>MMC\<close>

record 'e mmc_core =
  find_mmc_device :: "u32 \<Rightarrow> 'e periph io \<Rightarrow> u32 option \<times> 'e periph io"
  esdhc_base :: "u32 \<Rightarrow> 'e \<Rightarrow> u32"
  clear_has_init :: "u32 \<Rightarrow> 'e \<Rightarrow> 'e"
  mmc_init :: "u32 \<Rightarrow> 'e periph io \<Rightarrow> int \<times> 'e periph io"
  is_sd :: "u32 \<Rightarrow> 'e \<Rightarrow> bool"
  mmc_getwp :: "u32 \<Rightarrow> 'e periph io \<Rightarrow> int \<times> 'e periph io"
  blk_dread :: "u32 \<Rightarrow> u32 \<Rightarrow> u32 \<Rightarrow> 'e periph io \<Rightarrow> u32 \<times> u8 list \<times> 'e periph io"
  blk_dwrite :: "u32 \<Rightarrow> u32 \<Rightarrow> u32 \<Rightarrow> u8 list \<Rightarrow> 'e periph io \<Rightarrow> u32 \<times> 'e periph io"
  blk_derase :: "u32 \<Rightarrow> u32 \<Rightarrow> u32 \<Rightarrow> 'e periph io \<Rightarrow> u32 \<times> 'e periph io"

record A_MMC_Detection_Test =
  base_address :: u32

record A_MMC_WRITE_READ_Test = A_MMC_Detection_Test +
  mmc_block_start :: u32
  mmc_block_cnt :: u32
  mmc_test_dev :: u32

definition MAX_SDHC_CONTROLLERS :: nat where "MAX_SDHC_CONTROLLERS = 16"
definition MMC_MAX_TEST_BLOCK :: u32 where "MMC_MAX_TEST_BLOCK = 0x10"
definition MMC_BUFFER_SIZE :: nat where "MMC_BUFFER_SIZE = 8192"

definition set_mmc :: "(mmc_param_s \<Rightarrow> mmc_param_s) \<Rightarrow> 'e periph io \<Rightarrow> 'e periph io" where
  "set_mmc f = on_periph (\<lambda>p. p\<lparr>ommc_param := f (ommc_param p)\<rparr>)"

text \<open>The loop over the identifiers; its result is the identifier and the device it stopped at.\<close>

fun find_port :: "'e mmc_core \<Rightarrow> u32 \<Rightarrow> u8 list \<Rightarrow> 'e periph io \<Rightarrow> (u8 \<times> u32) option \<times> 'e periph io" where
  "find_port mc port [] s = (None, s)"
| "find_port mc port (i # is) s =
     (let (m, s) = find_mmc_device mc (ucast i) s;
          s = set_mmc (\<lambda>p. p\<lparr>pmmc := m\<rparr>) s
      in case m of
           None \<Rightarrow> find_port mc port is s
         | Some d \<Rightarrow>
             if esdhc_base mc d (dev (hw s)) = port then
               (Some (i, d), printf_io ''dev found\<newline>'' [] (set_mmc (\<lambda>p. p\<lparr>curr_device := i\<rparr>) s))
             else find_port mc port is s)"

definition reset_and_init :: "'e mmc_core \<Rightarrow> u32 \<Rightarrow> 'e periph io \<Rightarrow> int \<times> 'e periph io" where
  "reset_and_init mc d s = mmc_init mc d (on_periph (\<lambda>p. p\<lparr>dev := clear_has_init mc d (dev p)\<rparr>) s)"

definition MMC_Dev_Init :: "'e mmc_core \<Rightarrow> u32 \<Rightarrow> u32 \<Rightarrow> 'e periph io \<Rightarrow> TestResultTypes_e \<times> 'e periph io" where
  "MMC_Dev_Init mc tid port s =
     (case find_port mc port (map of_nat [0..<MAX_SDHC_CONTROLLERS]) s of
        (None, s) \<Rightarrow>
          (DIAG_TEST_RESULT_FAIL, ReportEvent (fill_event DIAG_DEV_NOT_PRESENT_ERR_EVENT [port] (Event_Init tid s)) s)
      | (Some (i, d), s) \<Rightarrow>
          let (mmc_init_status, s) = reset_and_init mc d s in
          if mmc_init_status < 0 then
            (DIAG_TEST_RESULT_FAIL, ReportEvent (fill_event DIAG_DEV_INIT_ERR_EVENT [port] (Event_Init tid s)) s)
          else
            let ev = fill_event DIAG_INFO_EVENT [port, ucast i] (Event_Init tid s) in
            (case sprintf 0 (string_ev ev) ''%s detected on mmc[%d]''
                [VStr (Some (if is_sd mc d (dev (hw s)) then ''SD Card'' else ''eMMC flash'')),
                 VInt (scast (curr_device (ommc_param (hw s))))] of
               None \<Rightarrow> (DIAG_TEST_RESULT_PASS, set_ub s)
             | Some (_, str) \<Rightarrow> (DIAG_TEST_RESULT_PASS, ReportEvent (ev\<lparr>string_ev := str\<rparr>) s)))"

definition MMC_Detection_Test ::
  "'e mmc_core \<Rightarrow> u32 \<Rightarrow> A_MMC_Detection_Test option \<Rightarrow> 'e periph io \<Rightarrow> TestResultTypes_e \<times> 'e periph io" where
  "MMC_Detection_Test mc tid arg s =
     (case arg of
        None \<Rightarrow> (DIAG_TEST_RESULT_ABORTED, DEBUG_ASSERT ''test_mmc.c'' 125 s)
      | Some a \<Rightarrow> MMC_Dev_Init mc tid (base_address a) s)"

text \<open>
  The three transfers, on \<open>ommc_param\<close>. The one that reads stores the blocks into a buffer; the one that
  writes does not initialise the device.
\<close>

definition transfer_params :: "'e periph io \<Rightarrow> va_arg list" where
  "transfer_params s = (let p = ommc_param (hw s) in
     [VInt (scast (curr_device p)), VInt (block_start p), VInt (block_cnt p)])"

definition transfer_result ::
  "string \<Rightarrow> u32 \<Rightarrow> 'e periph io \<Rightarrow> TestResultTypes_e \<times> 'e periph io" where
  "transfer_result fmt n s =
     (let ok = n = block_cnt (ommc_param (hw s)) in
      (if ok then DIAG_TEST_RESULT_PASS else DIAG_TEST_RESULT_FAIL,
       printf_io fmt [VInt n, VStr (Some (if ok then ''OK'' else ''ERROR''))] s))"

definition find_param_device :: "'e mmc_core \<Rightarrow> 'e periph io \<Rightarrow> u32 option \<times> 'e periph io" where
  "find_param_device mc s =
     (let (m, s) = find_mmc_device mc (dev_id (ommc_param (hw s))) s
      in (m, set_mmc (\<lambda>p. p\<lparr>pmmc := m\<rparr>) s))"

definition MMC_Read_Blocks ::
  "'e mmc_core \<Rightarrow> (u8 list \<Rightarrow> 'e periph \<Rightarrow> 'e periph) \<Rightarrow> u8 list \<Rightarrow> 'e periph io \<Rightarrow> TestResultTypes_e \<times> 'e periph io" where
  "MMC_Read_Blocks mc upd data_buffer s =
     (case find_param_device mc s of
        (None, s) \<Rightarrow> (DIAG_TEST_RESULT_FAIL, s)
      | (Some d, s) \<Rightarrow>
          let (mmc_init_status, s) = reset_and_init mc d s in
          if mmc_init_status < 0 then (DIAG_TEST_RESULT_FAIL, s)
          else
            let s = printf_io ''\<newline>MMC read: dev # %d, block # %d, count %d ... '' (transfer_params s) s;
                (n, bytes, s) = blk_dread mc d (block_start (ommc_param (hw s))) (block_cnt (ommc_param (hw s))) s
            in transfer_result ''%d blocks read: %s\<newline>'' n (store_bytes upd bytes data_buffer s))"

definition MMC_Write_Blocks ::
  "'e mmc_core \<Rightarrow> u8 list \<Rightarrow> 'e periph io \<Rightarrow> TestResultTypes_e \<times> 'e periph io" where
  "MMC_Write_Blocks mc data_buffer s =
     (case find_param_device mc s of
        (None, s) \<Rightarrow> (DIAG_TEST_RESULT_FAIL, s)
      | (Some d, s) \<Rightarrow>
          let s = printf_io ''\<newline>MMC write: dev # %d, block # %d, count %d ... '' (transfer_params s) s;
              (n, s) = blk_dwrite mc d (block_start (ommc_param (hw s))) (block_cnt (ommc_param (hw s))) data_buffer s
          in transfer_result ''%d blocks write: %s\<newline>'' n s)"

definition MMC_Erase_Blocks :: "'e mmc_core \<Rightarrow> 'e periph io \<Rightarrow> TestResultTypes_e \<times> 'e periph io" where
  "MMC_Erase_Blocks mc s =
     (case find_param_device mc s of
        (None, s) \<Rightarrow> (DIAG_TEST_RESULT_FAIL, s)
      | (Some d, s) \<Rightarrow>
          let (mmc_init_status, s) = reset_and_init mc d s in
          if mmc_init_status < 0 then (DIAG_TEST_RESULT_FAIL, s)
          else
            let s = printf_io ''\<newline>MMC erase: dev # %d, block # %d, count %d ... '' (transfer_params s) s;
                (wp, s) = mmc_getwp mc d s
            in if wp = 1 then (DIAG_TEST_RESULT_FAIL, printf_io ''Error: card is write protected!\<newline>'' [] s)
               else
                 let (n, s) = blk_derase mc d (block_start (ommc_param (hw s))) (block_cnt (ommc_param (hw s))) s
                 in transfer_result ''%d blocks erased: %s\<newline>'' n s)"

text \<open>
  \<open>MMC_WRITE_READ_Test\<close> returns in both branches of its check of the argument. What is written behind
  them, \<open>mmc_access\<close>, is never executed.
\<close>

definition MMC_WRITE_READ_Test ::
  "u32 \<Rightarrow> A_MMC_WRITE_READ_Test option \<Rightarrow> 'e periph io \<Rightarrow> TestResultTypes_e \<times> 'e periph io" where
  "MMC_WRITE_READ_Test tid arg s =
     (case arg of
        None \<Rightarrow> (DIAG_TEST_RESULT_ABORTED, DEBUG_ASSERT ''test_mmc.c'' 234 s)
      | Some a \<Rightarrow> (DIAG_TEST_RESULT_PASS, s))"

definition mmc_or_report ::
  "u32 \<Rightarrow> A_MMC_WRITE_READ_Test \<Rightarrow> DiagErrEventIDTypes_e \<Rightarrow> TestResultTypes_e \<times> 'e periph io \<Rightarrow>
   ('e periph io \<Rightarrow> TestResultTypes_e \<times> 'e periph io) \<Rightarrow> TestResultTypes_e \<times> 'e periph io" where
  "mmc_or_report tid a e r k =
     (let (status, s) = r in
      if status = DIAG_TEST_RESULT_FAIL then
        (DIAG_TEST_RESULT_FAIL, ReportEvent (fill_event e [base_address a] (Event_Init tid s)) s)
      else k s)"

definition mmc_access ::
  "'e mmc_core \<Rightarrow> u32 \<Rightarrow> A_MMC_WRITE_READ_Test \<Rightarrow> 'e periph io \<Rightarrow> TestResultTypes_e \<times> 'e periph io" where
  "mmc_access mc tid a s =
     (if mmc_block_cnt a > MMC_MAX_TEST_BLOCK then (DIAG_TEST_RESULT_ABORTED, s)
      else
        let s = set_mmc (\<lambda>p. p\<lparr>block_start := mmc_block_start a, block_cnt := mmc_block_cnt a, dev_id := mmc_test_dev a\<rparr>) s;
            s = printf_io ''\<newline>'' [] s;
            s = printf_io ''          Starting from Block  %d \<newline>'' [VInt (mmc_block_start a)] s;
            s = printf_io ''          Number of blocks     %d \<newline>'' [VInt (mmc_block_cnt a)] s
        in mmc_or_report tid a DIAG_VALUE_NOT_EXPECTED_ERR_EVENT
             (MMC_Read_Blocks mc (\<lambda>b. test_buffer_1_update (\<lambda>_. b)) (test_buffer_1 (hw s)) s) (\<lambda>s.
           mmc_or_report tid a DIAG_DEV_INIT_ERR_EVENT (MMC_Erase_Blocks mc s) (\<lambda>s.
           mmc_or_report tid a DIAG_DEV_INIT_ERR_EVENT (MMC_Write_Blocks mc (test_buffer_1 (hw s)) s) (\<lambda>s.
           mmc_or_report tid a DIAG_DEV_INIT_ERR_EVENT
             (MMC_Read_Blocks mc (\<lambda>b. test_buffer_2_update (\<lambda>_. b)) (test_buffer_2 (hw s)) s) (\<lambda>s.
           let n = unat (block_cnt (ommc_param (hw s))) * 512 in
           (if take n (test_buffer_1 (hw s)) = take n (test_buffer_2 (hw s)) then DIAG_TEST_RESULT_PASS
            else DIAG_TEST_RESULT_FAIL, s))))))"

end
