(* ===== verification/NorTest.thy ===== *)
theory NorTest
  imports MmcTest
begin

text \<open>
  The NOR flash test: \<^verbatim>\<open>test-framework/testsuite/test_w25q32_norflash.c\<close>, with \<open>CONFIG_DM_SPI_FLASH\<close>, and what it
  does to the chip: it passes on a chip that works, and leaves four megabytes of it erased.
\<close>

record 'e spi_core =
  spi_find_bus_and_cs :: "u32 \<Rightarrow> u32 \<Rightarrow> 'e periph io \<Rightarrow> int \<times> u32 \<times> 'e periph io"
  device_remove :: "u32 \<Rightarrow> 'e periph io \<Rightarrow> 'e periph io"
  spi_flash_probe_bus_cs :: "u32 \<Rightarrow> u32 \<Rightarrow> u32 \<Rightarrow> u32 \<Rightarrow> 'e periph io \<Rightarrow> int \<times> u32 \<times> 'e periph io"
  dev_get_uclass_priv :: "u32 \<Rightarrow> u32 option"
  flash_size :: "u32 \<Rightarrow> 'e \<Rightarrow> u32"
  spi_flash_read :: "u32 \<Rightarrow> u32 \<Rightarrow> u32 \<Rightarrow> 'e periph io \<Rightarrow> int \<times> u8 list \<times> 'e periph io"
  spi_flash_erase :: "u32 \<Rightarrow> u32 \<Rightarrow> u32 \<Rightarrow> 'e periph io \<Rightarrow> int \<times> 'e periph io"
  spi_flash_write :: "u32 \<Rightarrow> u32 \<Rightarrow> u32 \<Rightarrow> u8 list \<Rightarrow> 'e periph io \<Rightarrow> int \<times> 'e periph io"

record A_NOR_Flash_test =
  spi_bus_no :: u8
  spi_cs_no :: u8
  spi_offset :: u32
  spi_len :: u32

definition SPI_TEST_LEN :: nat where "SPI_TEST_LEN = 128 * 1024"

definition SPI0_CLK_MODE0 :: u32 where "SPI0_CLK_MODE0 = 0x00000030"
definition SPI0_D0_MODE0 :: u32 where "SPI0_D0_MODE0 = 0x00000030"
definition SPI0_D1_MODE0 :: u32 where "SPI0_D1_MODE0 = 0x00000010"
definition SPI0_CS0_MODE0 :: u32 where "SPI0_CS0_MODE0 = 0x00000010"
definition SPI0_CLK_OFFSET :: u32 where "SPI0_CLK_OFFSET = 0x44e10950"
definition SPI0_D0_OFFSET :: u32 where "SPI0_D0_OFFSET = 0x44e10954"
definition SPI0_D1_OFFSET :: u32 where "SPI0_D1_OFFSET = 0x44e10958"
definition SPI0_CS0_OFFSET :: u32 where "SPI0_CS0_OFFSET = 0x44e1095C"

definition spi_pin_mux_cfg :: "'e bus \<Rightarrow> 'e periph io \<Rightarrow> 'e periph io" where
  "spi_pin_mux_cfg b s =
     writel (dev_bus b) SPI0_CS0_OFFSET SPI0_CS0_MODE0
       (writel (dev_bus b) SPI0_D1_OFFSET SPI0_D1_MODE0
         (writel (dev_bus b) SPI0_D0_OFFSET SPI0_D0_MODE0
           (writel (dev_bus b) SPI0_CLK_OFFSET SPI0_CLK_MODE0 s)))"

text \<open>The line that is printed after each access; \<open>ret\<close> is the result of the access.\<close>

definition sf_report :: "string \<Rightarrow> u32 \<Rightarrow> u32 \<Rightarrow> int \<Rightarrow> 'e periph io \<Rightarrow> 'e periph io" where
  "sf_report fmt len off ret = printf_io fmt
     [VInt len, VInt off, VStr (Some (if ret \<noteq> 0 then ''ERROR'' else ''OK''))]"

definition sf_read ::
  "'e spi_core \<Rightarrow> u32 \<Rightarrow> (u8 list \<Rightarrow> 'e periph \<Rightarrow> 'e periph) \<Rightarrow> ('e periph \<Rightarrow> u8 list) \<Rightarrow> u32 \<Rightarrow> u32 \<Rightarrow> 'e periph io \<Rightarrow>
   int \<times> 'e periph io" where
  "sf_read sc f upd get off len s =
     (let (ret, bytes, s) = spi_flash_read sc f off len s;
          s = store_bytes upd bytes (get (hw s)) s
      in (ret, sf_report ''            SF: Read  %#x bytes from %#x : %s\<newline>'' len off ret s))"

definition sf_erase :: "'e spi_core \<Rightarrow> u32 \<Rightarrow> string \<Rightarrow> u32 \<Rightarrow> u32 \<Rightarrow> u32 \<Rightarrow> 'e periph io \<Rightarrow> int \<times> 'e periph io" where
  "sf_erase sc f fmt off len printed_len s =
     (let (ret, s) = spi_flash_erase sc f off len s in (ret, sf_report fmt printed_len off ret s))"

definition sf_write :: "'e spi_core \<Rightarrow> u32 \<Rightarrow> u32 \<Rightarrow> u32 \<Rightarrow> 'e periph io \<Rightarrow> int \<times> 'e periph io" where
  "sf_write sc f off len s =
     (let s = (if unat len > length (data_test_buf1 (hw s)) then set_ub s else s);
          (ret, s) = spi_flash_write sc f off len (take (unat len) (data_test_buf1 (hw s))) s
      in (ret, sf_report ''            SF: Write %#x bytes from %#x : %s\<newline>'' len off ret s))"

text \<open>
  The sum of the two \<open>int\<close> arguments is compared as an unsigned number; when it overflows, it is
  undefined. The result of the second read is overwritten before it is looked at.
\<close>

definition spi_flash_erase_read_write ::
  "'e spi_core \<Rightarrow> u32 \<Rightarrow> u32 \<Rightarrow> 'e periph io \<Rightarrow> int \<times> 'e periph io" where
  "spi_flash_erase_read_write sc off len s =
     (case flash (hw s) of
        None \<Rightarrow> (-1, set_ub s)
      | Some f \<Rightarrow>
          let s = (if sint off + sint len \<noteq> sint (off + len) then set_ub s else s) in
          if off + len > flash_size sc f (dev (hw s)) then
            (-1, printf_io ''            ERROR: attempting past flash size (%#x)\<newline>'' [VInt (flash_size sc f (dev (hw s)))] s)
          else
            let (ret, s) = sf_read sc f (\<lambda>b. data_test_buf1_update (\<lambda>_. b)) data_test_buf1 off len s in
            if ret \<noteq> 0 then (-1, s)
            else
              let (ret, s) = sf_erase sc f ''            SF: Erase %#x bytes from %#x : %s\<newline>'' off len len s in
              if ret \<noteq> 0 then (-1, s)
              else
                let (ret, s) = sf_write sc f off len s in
                if ret \<noteq> 0 then (-1, s)
                else
                  let (_, s) = sf_read sc f (\<lambda>b. data_test_buf2_update (\<lambda>_. b)) data_test_buf2 off len s;
                      (ret, s) = sf_erase sc f ''            SF: Erase %#x bytes from %#x---- : %s\<newline>'' off 0x400000 len s
                  in if ret \<noteq> 0 then (-1, s)
                     else if data_test_buf1 (hw s) \<noteq> data_test_buf2 (hw s) then (-1, s)
                     else (0, s))"

definition spi_nor_init :: "'e spi_core \<Rightarrow> u32 \<Rightarrow> u32 \<Rightarrow> 'e periph io \<Rightarrow> int \<times> 'e periph io" where
  "spi_nor_init sc bus_no cs_no s =
     (let (ret, new, s) = spi_find_bus_and_cs sc bus_no cs_no s;
          s = (if ret = 0 then device_remove sc new s else s);
          s = on_periph (\<lambda>p. p\<lparr>flash := None\<rparr>) s;
          s = printf_io ''            '' [] s;
          (ret, new, s) = spi_flash_probe_bus_cs sc bus_no cs_no 0 0 s
      in if ret \<noteq> 0 then
           (-1, printf_io ''Failed to initialize SPI flash at %u:%u (error %d)\<newline>''
              [VInt bus_no, VInt cs_no, VInt (of_int ret)] s)
         else (0, on_periph (\<lambda>p. p\<lparr>flash := dev_get_uclass_priv sc new\<rparr>) s))"

definition NOR_Flash_test ::
  "'e bus \<Rightarrow> 'e spi_core \<Rightarrow> u32 \<Rightarrow> A_NOR_Flash_test option \<Rightarrow> 'e periph io \<Rightarrow> TestResultTypes_e \<times> 'e periph io" where
  "NOR_Flash_test b sc tid arg s =
     (case arg of
        None \<Rightarrow> (DIAG_TEST_RESULT_ABORTED, DEBUG_ASSERT ''test_w25q32_norflash.c'' 160 s)
      | Some a \<Rightarrow>
          if spi_bus_no a \<noteq> 0 then (DIAG_TEST_RESULT_FAIL, printf_io ''Bus number not supported \<newline>'' [] s)
          else
            let s = spi_pin_mux_cfg b s;
                (ret, s) = spi_nor_init sc (ucast (spi_bus_no a)) (ucast (spi_cs_no a)) s in
            if ret < 0 then
              (DIAG_TEST_RESULT_FAIL,
               spi_pin_mux_cfg b
                 (ReportEvent (fill_event DIAG_BUS_INIT_ERR_EVENT [ucast (spi_bus_no a)] (Event_Init tid s)) s))
            else
              let (ret, s) = spi_flash_erase_read_write sc (spi_offset a) (spi_len a) s in
              if ret < 0 then
                (DIAG_TEST_RESULT_FAIL,
                 spi_pin_mux_cfg b
                   (ReportEvent (fill_event DIAG_BUS_INIT_ERR_EVENT [ucast (spi_bus_no a)] (Event_Init tid s)) s))
              else (DIAG_TEST_RESULT_PASS, printf_io ''\<newline>'' [] s))"

subsection \<open>On a chip that works\<close>

text \<open>
  \<open>content\<close> is what the chip stores. Its driver finds it and removes it, reads what it stores, erases to
  ones, and a write clears bits; none of them fails or touches anything else.
\<close>

definition set_dev :: "'e \<Rightarrow> 'e periph io \<Rightarrow> 'e periph io" where
  "set_dev d = on_periph (\<lambda>p. p\<lparr>dev := d\<rparr>)"

definition nor_chip :: "'e bus \<Rightarrow> 'e spi_core \<Rightarrow> ('e \<Rightarrow> nat \<Rightarrow> u8) \<Rightarrow> bool" where
  "nor_chip b sc content \<longleftrightarrow>
     (\<forall>a v d. content (bus_write b a v d) = content d) \<and>
     (\<forall>bus cs s. \<exists>r new. spi_find_bus_and_cs sc bus cs s = (r, new, s)) \<and>
     (\<forall>new s. device_remove sc new s = s) \<and>
     (\<forall>bus cs s. \<exists>new f. spi_flash_probe_bus_cs sc bus cs 0 0 s = (0, new, s) \<and>
        dev_get_uclass_priv sc new = Some f) \<and>
     (\<forall>f d. flash_size sc f d = 0x400000) \<and>
     (\<forall>f off len s. spi_flash_read sc f off len s =
        (0, map (content (dev (hw s))) [unat off..<unat off + unat len], s)) \<and>
     (\<forall>f off len s. \<exists>d. spi_flash_erase sc f off len s = (0, set_dev d s) \<and>
        content d = (\<lambda>i. if unat off \<le> i \<and> i < unat off + unat len then 0xff else content (dev (hw s)) i)) \<and>
     (\<forall>f off len bs s. \<exists>d. spi_flash_write sc f off len bs s = (0, set_dev d s) \<and>
        content d = (\<lambda>i. if unat off \<le> i \<and> i < unat off + unat len then content (dev (hw s)) i AND bs ! (i - unat off)
           else content (dev (hw s)) i))"

text \<open>A step that returns \<open>r\<close>, leaves the devices and variables \<open>h\<close> behind and is defined.\<close>

definition yields :: "'r \<times> 'hw io \<Rightarrow> 'r \<Rightarrow> 'hw \<Rightarrow> bool \<Rightarrow> bool" where
  "yields res r h u \<longleftrightarrow> fst res = r \<and> hw (snd res) = h \<and> ub (snd res) = u"

lemma sf_formats:
  "emit ''            SF: Read  %#x bytes from %#x : %s\<newline>'' [VInt 0, VInt 0, VStr None] \<noteq> None"
  "emit ''            SF: Erase %#x bytes from %#x : %s\<newline>'' [VInt 0, VInt 0, VStr None] \<noteq> None"
  "emit ''            SF: Erase %#x bytes from %#x---- : %s\<newline>'' [VInt 0, VInt 0, VStr None] \<noteq> None"
  "emit ''            SF: Write %#x bytes from %#x : %s\<newline>'' [VInt 0, VInt 0, VStr None] \<noteq> None"
  "emit ''            '' [] \<noteq> None" "emit ''\<newline>'' [] \<noteq> None"
  by code_simp+

lemma printf_hw_ub:
  assumes "emit fmt (map skel args) \<noteq> None"
  shows "hw (printf_io fmt args s) = hw s" "ub (printf_io fmt args s) = ub s"
  using printf_matches [OF assms] by (auto simp: printf_io_def split: option.splits)

lemma sf_report_hw_ub:
  assumes "emit fmt [VInt 0, VInt 0, VStr None] \<noteq> None"
  shows "hw (sf_report fmt len off ret s) = hw s" "ub (sf_report fmt len off ret s) = ub s"
  unfolding sf_report_def by (rule printf_hw_ub, simp only: list.map skel.simps assms not_False_eq_True)+

lemma on_periph_simps [simp]: "hw (on_periph f s) = f (hw s)" "ub (on_periph f s) = ub s"
  by (simp_all add: on_periph_def)

lemma sf_read_yields:
  assumes "nor_chip b sc content" "unat len \<le> length (get (hw s))"
  shows "yields (sf_read sc f upd get off len s) 0
    (upd (map (content (dev (hw s))) [unat off..<unat off + unat len] @ drop (unat len) (get (hw s))) (hw s)) (ub s)"
  using assms(1,2)
  by (simp add: nor_chip_def sf_read_def yields_def sf_report_hw_ub [OF sf_formats(1)] store_bytes_def)

lemma yieldsE:
  assumes "yields res r h u"
  obtains t where "res = (r, t)" "hw t = h" "ub t = u"
  using assms by (cases res) (auto simp: yields_def)

lemma sf_eraseE:
  assumes "nor_chip b sc content" "emit fmt [VInt 0, VInt 0, VStr None] \<noteq> None" "content (dev (hw s)) = c" "ub s = u"
  obtains d t where "sf_erase sc f fmt off len plen s = (0, t)" "hw t = (hw s)\<lparr>dev := d\<rparr>" "ub t = u"
    "content d = (\<lambda>i. if unat off \<le> i \<and> i < unat off + unat len then 0xff else c i)"
proof -
  obtain d where d: "spi_flash_erase sc f off len s = (0, set_dev d s)"
    "content d = (\<lambda>i. if unat off \<le> i \<and> i < unat off + unat len then 0xff else c i)"
    using assms(1) unfolding nor_chip_def assms(3) [symmetric] by meson
  show thesis
    by (rule that [of "sf_report fmt plen off 0 (set_dev d s)" d])
      (simp_all add: sf_erase_def d assms(3,4) sf_report_hw_ub [OF assms(2)] set_dev_def)
qed

lemma sf_writeE:
  assumes "nor_chip b sc content" "unat len \<le> length (data_test_buf1 (hw s))" "content (dev (hw s)) = c" "ub s = u"
  obtains d t where "sf_write sc f off len s = (0, t)" "hw t = (hw s)\<lparr>dev := d\<rparr>" "ub t = u"
    "content d = (\<lambda>i. if unat off \<le> i \<and> i < unat off + unat len
      then c i AND take (unat len) (data_test_buf1 (hw s)) ! (i - unat off) else c i)"
proof -
  let ?bs = "take (unat len) (data_test_buf1 (hw s))"
  obtain d where d: "spi_flash_write sc f off len ?bs s = (0, set_dev d s)"
    "content d = (\<lambda>i. if unat off \<le> i \<and> i < unat off + unat len
      then c i AND ?bs ! (i - unat off) else c i)"
    using assms(1) unfolding nor_chip_def assms(3) [symmetric] by meson
  show thesis
    by (rule that [of "sf_report ''            SF: Write %#x bytes from %#x : %s\<newline>'' len off 0 (set_dev d s)" d])
      (use assms(2) in \<open>simp_all add: sf_write_def d assms(3,4) sf_report_hw_ub [OF sf_formats(4)] set_dev_def\<close>)
qed

lemma sint_small: "unat (w :: u32) < 2 ^ 31 \<Longrightarrow> sint w = int (unat w)"
proof -
  assume w: "unat w < 2 ^ 31"
  have "\<not> bit w 31" using bit_less_power [OF w, of 31] by auto
  then have "sint w = take_bit 31 (uint w)" by (simp only: sint_uint) (simp add: signed_take_bit_eq_if_positive bit_uint_iff)
  also have "\<dots> = uint w"
  proof (rule take_bit_int_eq_self)
    have "int (unat w) < int (2 ^ 31)" using w by (simp only: of_nat_less_iff)
    then show "uint w < 2 ^ 31" by (simp only: of_nat_unat of_nat_power of_nat_numeral)
  qed simp
  finally show ?thesis by simp
qed

lemma no_overflow:
  assumes "unat off + unat len \<le> 0x400000"
  shows "sint off + sint len = sint (off + len)" "\<not> off + len > (0x400000 :: u32)"
proof -
  have u: "unat (off + len) = unat off + unat len" using assms by (simp add: unat_word_ariths)
  have "sint off = int (unat off)" "sint len = int (unat len)" "sint (off + len) = int (unat (off + len))"
    by (rule sint_small, use assms u in simp)+
  then show "sint off + sint len = sint (off + len)" using u by simp
  show "\<not> off + len > 0x400000" using assms u by (simp add: word_less_nat_alt)
qed

lemma and_ff: "0xff AND (x :: u8) = x"
proof -
  have "(0xff :: u8) = - 1" by simp
  then show ?thesis by (simp only: and.left_neutral)
qed

lemma restored:
  assumes "c1 = (\<lambda>i. if off \<le> i \<and> i < off + n then 0xff else c i)"
    and "c2 = (\<lambda>i. if off \<le> i \<and> i < off + n then c1 i AND take n (map c [off..<off + n] @ bs) ! (i - off) else c1 i)"
  shows "c2 = (c :: nat \<Rightarrow> u8)"
proof
  fix i
  show "c2 i = c i"
  proof (cases "off \<le> i \<and> i < off + n")
    case True
    then have "take n (map c [off..<off + n] @ bs) ! (i - off) = c i" by (auto simp: nth_append)
    then show ?thesis using True by (simp only: assms and_ff if_True conj_absorb)
  next
    case False
    then show ?thesis by (simp only: assms if_False if_cancel)
  qed
qed

lemma erase_read_write_yields:
  assumes chip: "nor_chip b sc content" and "flash (hw s) = Some f"
    and "unat off + unat len \<le> 0x400000" "unat len \<le> length (data_test_buf1 (hw s))"
    and "length (data_test_buf2 (hw s)) = length (data_test_buf1 (hw s))"
    and "drop (unat len) (data_test_buf2 (hw s)) = drop (unat len) (data_test_buf1 (hw s))"
  shows "\<exists>h. yields (spi_flash_erase_read_write sc off len s) 0 h (ub s) \<and>
    content (dev h) = (\<lambda>i. if unat off \<le> i \<and> i < unat off + 0x400000 then 0xff else content (dev (hw s)) i)"
proof -
  let ?c = "content (dev (hw s))" and ?tl = "drop (unat len) (data_test_buf1 (hw s))"
  let ?buf = "map ?c [unat off..<unat off + unat len] @ ?tl"
  have n: "unat (0x400000 :: u32) = 0x400000" by simp
  obtain s1 where s1: "sf_read sc f (\<lambda>b. data_test_buf1_update (\<lambda>_. b)) data_test_buf1 off len s = (0, s1)"
    "hw s1 = (hw s)\<lparr>data_test_buf1 := ?buf\<rparr>" "ub s1 = ub s"
    by (rule yieldsE [OF sf_read_yields [OF chip, where get = data_test_buf1 and s = s, OF assms(4)]])
  have c1: "content (dev (hw s1)) = ?c" using s1(2) by simp
  obtain d2 s2 where s2: "sf_erase sc f ''            SF: Erase %#x bytes from %#x : %s\<newline>'' off len len s1 = (0, s2)"
    "hw s2 = (hw s1)\<lparr>dev := d2\<rparr>" "ub s2 = ub s"
    and c2: "content d2 = (\<lambda>i. if unat off \<le> i \<and> i < unat off + unat len then 0xff else ?c i)"
    by (rule sf_eraseE [OF chip sf_formats(2) c1 s1(3)])
  have w2: "data_test_buf1 (hw s2) = ?buf" "content (dev (hw s2)) = content d2" "unat len \<le> length (data_test_buf1 (hw s2))"
    using s1(2) s2(2) by simp_all
  obtain d3 s3 where s3: "sf_write sc f off len s2 = (0, s3)" "hw s3 = (hw s2)\<lparr>dev := d3\<rparr>" "ub s3 = ub s"
    and c3: "content d3 = (\<lambda>i. if unat off \<le> i \<and> i < unat off + unat len
      then content d2 i AND take (unat len) ?buf ! (i - unat off) else content d2 i)"
    by (rule sf_writeE [OF chip w2(3,2) s2(3)]) (simp only: w2(1))
  have c: "content d3 = ?c" by (rule restored [OF c2 c3])
  have b2: "data_test_buf2 (hw s3) = data_test_buf2 (hw s)" "dev (hw s3) = d3" using s1 s2 s3 by simp_all
  have l3: "unat len \<le> length (data_test_buf2 (hw s3))" using assms(4,5) b2(1) by simp
  obtain s4 where s4: "sf_read sc f (\<lambda>b. data_test_buf2_update (\<lambda>_. b)) data_test_buf2 off len s3 = (0, s4)"
    "hw s4 = (hw s3)\<lparr>data_test_buf2 := ?buf\<rparr>" "ub s4 = ub s"
    using sf_read_yields [OF chip, where get = data_test_buf2 and s = s3 and f = f and off = off and upd = "\<lambda>b. data_test_buf2_update (\<lambda>_. b)", OF l3] unfolding b2 c assms(6) s3(3)
    by (rule yieldsE)
  have c4: "content (dev (hw s4)) = ?c" using s4(2) b2 c by simp
  obtain d5 s5 where s5: "sf_erase sc f ''            SF: Erase %#x bytes from %#x---- : %s\<newline>'' off 0x400000 len s4 = (0, s5)"
    "hw s5 = (hw s4)\<lparr>dev := d5\<rparr>" "ub s5 = ub s"
    and c5: "content d5 = (\<lambda>i. if unat off \<le> i \<and> i < unat off + 0x400000 then 0xff else ?c i)"
    by (rule sf_eraseE [OF chip sf_formats(3) c4 s4(3), where len = "0x400000", unfolded n])
  have bufs: "data_test_buf1 (hw s5) = data_test_buf2 (hw s5)" using s1 s2 s3 s4 s5 by simp
  have size: "flash_size sc f d = 0x400000" for d using chip by (simp add: nor_chip_def)
  have "spi_flash_erase_read_write sc off len s = (0, s5)"
    using s1(1) s2(1) s3(1) s4(1) s5(1) bufs no_overflow [OF assms(3)] assms(2)
    by (simp add: spi_flash_erase_read_write_def size)
  then show ?thesis using s5 c5 by (intro exI [of _ "hw s5"]) (simp add: yields_def)
qed

lemma nor_init_yields:
  assumes "nor_chip b sc content"
  shows "\<exists>f. yields (spi_nor_init sc bus cs s) 0 ((hw s)\<lparr>flash := Some f\<rparr>) (ub s)"
proof -
  obtain r new where f: "spi_find_bus_and_cs sc bus cs s = (r, new, s)" using assms unfolding nor_chip_def by meson
  let ?s = "printf_io ''            '' [] (on_periph (\<lambda>p. p\<lparr>flash := None\<rparr>) s)"
  obtain new' g where p: "spi_flash_probe_bus_cs sc bus cs 0 0 ?s = (0, new', ?s)" "dev_get_uclass_priv sc new' = Some g"
    using assms unfolding nor_chip_def by meson
  have e: "emit ''            '' (map skel []) \<noteq> None" unfolding list.map by (rule sf_formats(5))
  have "device_remove sc new s = s" using assms by (simp add: nor_chip_def)
  then have "spi_nor_init sc bus cs s = (0, on_periph (\<lambda>p. p\<lparr>flash := Some g\<rparr>) ?s)"
    using f p by (simp add: spi_nor_init_def Let_def)
  then show ?thesis by (intro exI [of _ g]) (simp add: yields_def printf_hw_ub [OF e])
qed

lemma pin_mux_content:
  assumes "nor_chip b sc content"
  shows "\<exists>d. spi_pin_mux_cfg b s = set_dev d s \<and> content d = content (dev (hw s))"
  using assms
  by (intro exI [of _ "dev (hw (spi_pin_mux_cfg b s))"])
    (simp add: nor_chip_def spi_pin_mux_cfg_def writel_def dev_bus_def set_dev_def on_periph_def)


text \<open>An instance: the devices are the bytes of the chip.\<close>

definition nor_core :: "(nat \<Rightarrow> u8) spi_core" where
  "nor_core = \<lparr>spi_find_bus_and_cs = \<lambda>_ _ s. (0, 1, s), device_remove = \<lambda>_ s. s,
     spi_flash_probe_bus_cs = \<lambda>_ _ _ _ s. (0, 1, s), dev_get_uclass_priv = Some, flash_size = \<lambda>_ _. 0x400000,
     spi_flash_read = \<lambda>_ off len s. (0, map (dev (hw s)) [unat off..<unat off + unat len], s),
     spi_flash_erase = \<lambda>_ off len s. (0, set_dev (\<lambda>i. if unat off \<le> i \<and> i < unat off + unat len then 0xff
        else dev (hw s) i) s),
     spi_flash_write = \<lambda>_ off len bs s. (0, set_dev (\<lambda>i. if unat off \<le> i \<and> i < unat off + unat len
        then dev (hw s) i AND bs ! (i - unat off) else dev (hw s) i) s)\<rparr>"

definition pads_only :: "'e bus" where
  "pads_only = \<lparr>bus_read = \<lambda>_ d. (0, d), bus_write = \<lambda>_ _ d. d, bus_flush = \<lambda>d. d\<rparr>"

lemma nor_chip_core: "nor_chip pads_only nor_core (\<lambda>d. d)"
  by (simp add: nor_chip_def nor_core_def pads_only_def)

definition nor_io :: "(nat \<Rightarrow> u8) periph io" where
  "nor_io = \<lparr>console = [], s_logMode = CONSOLE_LOG_MODE, s_logMask = 0, curTestId = 0,
     hw = \<lparr>ommc_param = \<lparr>curr_device = 0, block_start = 0, block_cnt = 0, dev_id = 0, pmmc = None\<rparr>,
       test_buffer_1 = [], test_buffer_2 = [], flash = None, data_test_buf1 = replicate SPI_TEST_LEN 0,
       data_test_buf2 = replicate SPI_TEST_LEN 0, net_ping_ip = 0, dev = \<lambda>i. of_nat i\<rparr>, ub = False\<rparr>"


end
