(* ===== verification/NetUtils.thy ===== *)
theory NetUtils
  imports Strto Decimal
begin

text \<open>
  Network addresses and checksums: \<^verbatim>\<open>u-boot/lib/net_utils.c\<close> and \<open>ip_to_string\<close> of \<^verbatim>\<open>u-boot/net/net.c\<close>.
  Addresses are kept in network byte order, the processor is little-endian.
\<close>

definition htonl :: "u32 \<Rightarrow> u32" where
  "htonl x = push_bit 24 (x AND 0x000000ff) OR push_bit 8 (x AND 0x0000ff00) OR
     drop_bit 8 (x AND 0x00ff0000) OR drop_bit 24 (x AND 0xff000000)"

text \<open>The loop of \<open>string_to_ip\<close>, \<open>n\<close> turns before its end; \<open>None\<close> is the early return of 0.\<close>

fun ip_loop :: "nat \<Rightarrow> string \<Rightarrow> u32 \<Rightarrow> u32 option" where
  "ip_loop 0 s addr = Some addr"
| "ip_loop (Suc n) s addr =
     (let (val, e) = simple_strtoul s 10 in
      if val > 255 then None
      else if n \<noteq> 0 \<and> ch_at e 0 \<noteq> CHR ''.'' then None
      else ip_loop n (drop 1 e) (push_bit 8 addr OR (val AND 0xFF)))"

definition string_to_ip :: "string option \<Rightarrow> u32" where
  "string_to_ip s =
     (case s of
        None \<Rightarrow> 0
      | Some s \<Rightarrow> (case ip_loop 4 s 0 of None \<Rightarrow> 0 | Some addr \<Rightarrow> htonl addr))"

definition ip_to_string :: "u32 \<Rightarrow> u32 \<Rightarrow> string \<Rightarrow> string option" where
  "ip_to_string x addr s =
     (let x = htonl x in
      map_option snd (sprintf addr s ''%d.%d.%d.%d''
        [VInt (drop_bit 24 x AND 0xff), VInt (drop_bit 16 x AND 0xff), VInt (drop_bit 8 x AND 0xff), VInt (x AND 0xff)]))"

text \<open>\<open>string_to_enetaddr\<close> stores six bytes; without a string they are 0.\<close>

fun enetaddr_loop :: "nat \<Rightarrow> string \<Rightarrow> u8 list" where
  "enetaddr_loop 0 addr = []"
| "enetaddr_loop (Suc n) addr =
     (let (val, e) = simple_strtoul addr 16 in ucast val # enetaddr_loop n (drop 1 e))"

definition string_to_enetaddr :: "string option \<Rightarrow> u8 list" where
  "string_to_enetaddr addr = (case addr of None \<Rightarrow> replicate 6 0 | Some s \<Rightarrow> enetaddr_loop 6 s)"

subsection \<open>Checksums\<close>

text \<open>The sum of the 16-bit little-endian words, an \<open>int\<close>.\<close>

fun sum_words :: "u8 list \<Rightarrow> u32 \<Rightarrow> u32" where
  "sum_words [] acc = acc"
| "sum_words [b] acc = acc + ucast b"
| "sum_words (b # c # bs) acc = sum_words bs (acc + (ucast b OR push_bit 8 (ucast c)))"

text \<open>The right shifts of an \<open>int\<close> are arithmetic.\<close>

definition compute_ip_checksum :: "u8 list \<Rightarrow> u32" where
  "compute_ip_checksum bytes =
     (let s0 = sum_words bytes 0;
          s1 = signed_drop_bit 16 s0 + (s0 AND 0xffff);
          s2 = s1 + signed_drop_bit 16 s1
      in NOT s2 AND 0xffff)"

definition add_ip_checksums :: "u32 \<Rightarrow> u32 \<Rightarrow> u32 \<Rightarrow> u32" where
  "add_ip_checksums offset old new =
     (let old = NOT old AND 0xffff;
          new = NOT new AND 0xffff;
          new = (if offset AND 1 \<noteq> 0 then (drop_bit 8 new AND 0xff) OR (push_bit 8 new AND 0xff00) else new);
          checksum = old + new;
          checksum = (if checksum > 0xffff then checksum - 0xffff else checksum)
      in NOT checksum AND 0xffff)"

definition ip_checksum_ok :: "u8 list \<Rightarrow> bool" where
  "ip_checksum_ok bytes \<longleftrightarrow> compute_ip_checksum bytes AND 0xfffe = 0"

subsection \<open>Printing and parsing an address\<close>

lemma strtoul_decimal:
  assumes "n < 2 ^ 32" "rest = [] \<or> \<not> isdigit (hd rest)"
  shows "simple_strtoul (decimal n @ rest) 10 = (of_nat n, rest)"
  using simple_strtoul_10 [of "decimal n" rest] assms isdigit_dec_rev [of _ n]
  by (simp add: decimal_def digits_value_dec_rev)

lemma octet_take_bit: "(x :: u32) AND 0xff = take_bit 8 x"
  by (simp add: take_bit_eq_mask mask_eq_exp_minus_1)

lemma octet: "unat ((x :: u32) AND 0xff) < 256"
proof -
  have "take_bit 8 (unat x) < 2 ^ 8" by (rule take_bit_nat_less_exp)
  then show ?thesis unfolding octet_take_bit by (simp add: unsigned_take_bit_eq)
qed

lemma bit_ff00: "bit (0xff00 :: u32) n \<longleftrightarrow> 8 \<le> n \<and> n < 16"
proof -
  have e: "(0xff00 :: u32) = push_bit 8 (mask 8)" by (simp add: mask_eq_exp_minus_1)
  show ?thesis unfolding e by (auto simp: bit_simps)
qed

lemma bit_ff: "bit (0xff :: u32) n \<longleftrightarrow> n < 8"
proof -
  have e: "(0xff :: u32) = mask 8" by (simp add: mask_eq_exp_minus_1)
  show ?thesis unfolding e by (auto simp: bit_simps)
qed

lemma bit_ff0000: "bit (0xff0000 :: u32) n \<longleftrightarrow> 16 \<le> n \<and> n < 24"
proof -
  have e: "(0xff0000 :: u32) = push_bit 16 (mask 8)" by (simp add: mask_eq_exp_minus_1)
  show ?thesis unfolding e by (auto simp: bit_simps)
qed

lemma bit_ff000000: "bit (0xff000000 :: u32) n \<longleftrightarrow> 24 \<le> n \<and> n < 32"
proof -
  have e: "(0xff000000 :: u32) = push_bit 24 (mask 8)" by (simp add: mask_eq_exp_minus_1)
  show ?thesis unfolding e by (auto simp: bit_simps)
qed

lemmas bit_octets = bit_or_iff bit_and_iff bit_push_bit_iff bit_drop_bit_eq o_apply possible_bit_word push_bit_of_0
  bit_0_eq bit_ff bit_ff00 bit_ff0000 bit_ff000000

lemma bit_htonl:
  "bit (htonl x) n \<longleftrightarrow>
     (if n < 8 then bit x (24 + n) else if n < 16 then bit x (8 + n) else if n < 24 then bit x (n - 8)
      else n < 32 \<and> bit x (n - 24))"
  by (simp only: htonl_def bit_octets) auto

lemma htonl_htonl: "htonl (htonl x) = x"
  by (rule bit_word_eqI) (auto simp: bit_htonl)

text \<open>The four octets, most significant first, are the number.\<close>

lemma octets_word:
  "push_bit 8 (push_bit 8 (push_bit 8 (push_bit 8 0 OR (drop_bit 24 x AND 0xff)) OR (drop_bit 16 x AND 0xff)) OR
     (drop_bit 8 x AND 0xff)) OR (x AND 0xff) = (x :: u32)"
  by (rule bit_word_eqI) (simp only: bit_octets, auto)

lemma ip_loop_decimal:
  assumes "unat a < 256" "n \<noteq> 0 \<Longrightarrow> rest = CHR ''.'' # rest'" "n = 0 \<Longrightarrow> rest = []"
  shows "ip_loop (Suc n) (decimal (unat a) @ rest) addr = ip_loop n (drop 1 rest) (push_bit 8 addr OR (a AND 0xFF))"
proof -
  have "rest = [] \<or> \<not> isdigit (hd rest)"
  proof (cases "n = 0")
    case False
    moreover have "\<not> isdigit (CHR ''.'')" by code_simp
    ultimately show ?thesis using assms(2) by simp
  qed (simp add: assms(3))
  then have "simple_strtoul (decimal (unat a) @ rest) 10 = (a, rest)"
    using strtoul_decimal [of "unat a" rest] unsigned_less [of a] assms(1) by simp
  moreover have "\<not> 255 < a" using assms(1) by (simp add: word_less_nat_alt)
  moreover have "n \<noteq> 0 \<Longrightarrow> ch_at rest 0 = CHR ''.''" using assms(2) by (simp add: ch_at_def)
  ultimately show ?thesis by (cases "n = 0") simp_all
qed

definition dotted :: "u32 \<Rightarrow> string" where
  "dotted x = decimal (unat (drop_bit 24 x AND 0xff)) @ ''.'' @ decimal (unat (drop_bit 16 x AND 0xff)) @ ''.'' @
     decimal (unat (drop_bit 8 x AND 0xff)) @ ''.'' @ decimal (unat (x AND 0xff))"

lemma ip_loop_dotted: "ip_loop 4 (dotted x) 0 = Some x"
proof -
  have four: "4 = Suc (Suc (Suc (Suc 0)))" by simp
  note step = ip_loop_decimal [OF octet]
  have idem: "(a AND 0xff) AND 0xff = a AND 0xff" for a :: u32 by (simp add: and.assoc)
  have l: "ip_loop (Suc 0) (decimal (unat (x AND 0xff))) addr = Some (push_bit 8 addr OR (x AND 0xff))" for addr
    using step [where n = 0 and rest = "[]" and rest' = "[]"] by (simp add: idem)
  show ?thesis
    unfolding four dotted_def
    using octets_word [of x]
    by (simp add: step idem l del: ip_loop.simps)
qed

lemma emit_dotted:
  "emit ''%d.%d.%d.%d'' [VInt (drop_bit 24 x AND 0xff), VInt (drop_bit 16 x AND 0xff), VInt (drop_bit 8 x AND 0xff),
     VInt (x AND 0xff)] = Some (dotted x)"
proof -
  have small: "unat ((a :: u32) AND 0xff) < 2 ^ 31" for a using octet [of a] by simp
  show ?thesis by (simp add: directive_d [OF small] dotted_def)
qed

lemma length_dotted: "length (dotted x) \<le> 15"
proof -
  have d: "length (decimal (unat (a AND 0xff))) \<le> 3" for a :: u32 using octet [of a] by (intro length_decimal) simp
  show ?thesis using d [of "drop_bit 24 x"] d [of "drop_bit 16 x"] d [of "drop_bit 8 x"] d [of x] by (simp add: dotted_def)
qed

lemma no_nul_dotted: "no_nul (dotted x)"
  using no_nul_decimal by (simp add: dotted_def no_nul_def)

text \<open>
  Printing an IPv4 address into a buffer of at least 16 characters succeeds, and parsing what was
  printed gives the address back, for every address in network byte order.
\<close>

theorem ip_print_parse:
  assumes "16 \<le> length buf" "length buf < 2 ^ 31" "unat addr + length buf < 2 ^ 32"
  shows "\<exists>s. ip_to_string x addr buf = Some s \<and> string_to_ip (Some (cstr s)) = x"
proof -
  let ?out = "dotted (htonl x)"
  have "vsprintf addr buf ''%d.%d.%d.%d'' [VInt (drop_bit 24 (htonl x) AND 0xff), VInt (drop_bit 16 (htonl x) AND 0xff),
      VInt (drop_bit 8 (htonl x) AND 0xff), VInt (htonl x AND 0xff)] = Some (of_nat (length ?out), ?out @ NUL # drop (Suc (length ?out)) buf)"
    by (rule vsprintf_fits [OF emit_dotted]) (use assms length_dotted [of "htonl x"] in auto)
  then have "ip_to_string x addr buf = Some (?out @ NUL # drop (Suc (length ?out)) buf)"
    by (simp add: ip_to_string_def sprintf_def Let_def)
  moreover have "cstr (?out @ NUL # drop (Suc (length ?out)) buf) = ?out"
    using no_nul_dotted by (rule cstr_append_NUL)
  ultimately show ?thesis by (simp add: string_to_ip_def ip_loop_dotted htonl_htonl)
qed

theorem ip_print_parse_witness:
  "\<exists>s. ip_to_string 0x87ac900a 0x9000 (replicate 16 NUL) = Some s \<and> string_to_ip (Some (cstr s)) = 0x87ac900a"
  using ip_print_parse [where buf = "replicate 16 NUL" and addr = "0x9000" and x = "0x87ac900a"] by simp

subsection \<open>A checksum verifies\<close>

fun words_sum :: "u8 list \<Rightarrow> nat" where
  "words_sum [] = 0"
| "words_sum [b] = unat b"
| "words_sum (b # c # bs) = unat b + 256 * unat c + words_sum bs"

definition fold16 :: "nat \<Rightarrow> nat" where
  "fold16 n = (let m = n div 65536 + n mod 65536 in (m + m div 65536) mod 65536)"

lemma words_sum_append: "even (length a) \<Longrightarrow> words_sum (a @ b) = words_sum a + words_sum b"
  by (induction a rule: words_sum.induct) auto

lemma unat_u8: "unat (b :: u8) < 256"
proof -
  have "unat b < 2 ^ LENGTH(8)" by (rule unsigned_less)
  then show ?thesis by simp
qed

lemma words_sum_le: "2 * words_sum bs \<le> 65535 * (length bs + 1)"
proof (induction bs rule: words_sum.induct)
  case (2 b)
  show ?case using unat_u8 [of b] by simp
next
  case (3 b c bs)
  then show ?case using unat_u8 [of b] unat_u8 [of c] by simp
qed simp

lemma unat_two_bytes: "unat (ucast b OR push_bit 8 (ucast c) :: u32) = unat (b :: u8) + 256 * unat (c :: u8)"
proof -
  have "(ucast b :: u32) AND push_bit 8 (ucast c) = 0"
    by (rule bit_word_eqI) (auto simp: bit_simps dest: bit_imp_le_length)
  then have "ucast b OR push_bit 8 (ucast c) = (ucast b + 256 * ucast c :: u32)"
    by (simp add: disjunctive_add_eq_or [symmetric] push_bit_eq_mult ac_simps)
  then show ?thesis
    using unat_u8 [of b] unat_u8 [of c]
    by (simp add: unat_word_ariths unsigned_ucast_eq take_bit_nat_eq_self)
qed

lemma unat_sum_words: "unat acc + words_sum bs < 2 ^ 32 \<Longrightarrow> unat (sum_words bs acc) = unat acc + words_sum bs"
proof (induction bs acc rule: sum_words.induct)
  case (2 b acc)
  then show ?case by (simp add: unat_word_ariths unsigned_ucast_eq take_bit_nat_eq_self)
next
  case (3 b c bs acc)
  let ?w = "ucast b OR push_bit 8 (ucast c) :: u32"
  have "unat (acc + ?w) = unat acc + (unat b + 256 * unat c)"
    using 3(2) by (simp only: unat_word_ariths unat_two_bytes) simp
  then show ?case using 3 by simp
qed simp

lemma signed_drop_bit_small: "unat (w :: u32) < 2 ^ 31 \<Longrightarrow> signed_drop_bit 16 w = drop_bit 16 w"
proof -
  assume "unat w < 2 ^ 31"
  then have b: "bit w n \<Longrightarrow> n < 31" for n by (rule bit_less_power)
  then show ?thesis using b [of 31] by (intro bit_word_eqI) (auto simp: bit_simps dest: b)
qed

lemma unat_and_ffff: "unat ((w :: u32) AND 0xffff) = unat w mod 65536"
proof -
  have "w AND 0xffff = take_bit 16 w" by (simp add: take_bit_eq_mask mask_eq_exp_minus_1)
  then show ?thesis by (simp only: unsigned_take_bit_eq) (simp add: take_bit_eq_mod)
qed

lemma unat_not_ffff: "unat (NOT (w :: u32) AND 0xffff) = 65535 - unat w mod 65536"
proof -
  have m: "(0xffff :: u32) = mask 16" by (simp add: mask_eq_exp_minus_1)
  have "NOT w AND 0xffff = mask 16 - take_bit 16 w"
    unfolding m take_bit_eq_mask [symmetric] by (rule take_bit_not_eq_mask_diff)
  moreover have t: "unat (take_bit 16 w) = unat w mod 65536"
    by (simp only: unsigned_take_bit_eq) (simp add: take_bit_eq_mod)
  moreover have k: "unat (mask 16 :: u32) = 65535" by (simp add: mask_eq_exp_minus_1)
  moreover have "take_bit 16 w \<le> mask 16" unfolding word_le_nat_alt t k by simp
  ultimately show ?thesis by (simp only: unat_sub)
qed

lemma unat_compute_ip_checksum:
  assumes "length bs \<le> 65536"
  shows "unat (compute_ip_checksum bs) = 65535 - fold16 (words_sum bs)"
proof -
  let ?n = "words_sum bs"
  have n: "?n < 2 ^ 31 + 2 ^ 16" "?n < 2 ^ 31" using words_sum_le [of bs] assms by auto
  have s0: "unat (sum_words bs 0) = ?n" using unat_sum_words [of 0 bs] n by simp
  let ?s1 = "signed_drop_bit 16 (sum_words bs 0) + (sum_words bs 0 AND 0xffff)"
  have s1: "unat ?s1 = ?n div 65536 + ?n mod 65536"
    using n by (simp add: signed_drop_bit_small s0 unat_word_ariths unat_and_ffff unsigned_drop_bit_eq drop_bit_eq_div)
  then have "unat ?s1 < 2 ^ 31" using n by simp
  then have "unat (?s1 + signed_drop_bit 16 ?s1) = unat ?s1 + unat ?s1 div 65536"
    by (simp only: signed_drop_bit_small) (simp add: unat_word_ariths unsigned_drop_bit_eq drop_bit_eq_div)
  then show ?thesis
    unfolding compute_ip_checksum_def Let_def unat_not_ffff fold16_def s1 by simp
qed

lemma fold16_mod: "n < 2 ^ 31 \<Longrightarrow> fold16 n mod 65535 = n mod 65535 \<and> fold16 n \<le> 65535 \<and> (fold16 n = 0 \<longleftrightarrow> n = 0)"
proof -
  assume n: "n < 2 ^ 31"
  define q r where "q = n div 65536" and "r = n mod 65536"
  have nqr: "n = 65535 * q + (q + r)" by (simp add: q_def r_def)
  have b: "q < 32768" "r < 65536" using n by (simp_all add: q_def r_def)
  have m: "n mod 65535 = (q + r) mod 65535" unfolding nqr by (rule mod_mult_self4)
  show ?thesis
  proof (cases "q + r < 65536")
    case True
    then have "fold16 n = q + r" by (simp add: fold16_def q_def [symmetric] r_def [symmetric])
    then show ?thesis using True m nqr by simp
  next
    case False
    then have d: "(q + r) div 65536 = 1" using b by (simp add: div_nat_eqI)
    have "(q + r + 1) mod 65536 = q + r - 65535"
      using False b by (simp add: mod_nat_eqI)
    then have f: "fold16 n = q + r - 65535" by (simp add: fold16_def q_def [symmetric] r_def [symmetric] d)
    have "(q + r) mod 65535 = (q + r - 65535) mod 65535" using False by (simp add: le_mod_geq)
    then show ?thesis using False b m f nqr by simp
  qed
qed

lemma dvd_complement:
  assumes "f mod k = n mod k" "f \<le> (k :: nat)"
  shows "k dvd n + (k - f)"
proof -
  have "(n + (k - f)) mod k = (f + (k - f)) mod k" using assms(1) by (intro mod_add_cong) simp_all
  then show ?thesis using assms(2) by (simp add: dvd_eq_mod_eq_0)
qed

lemma dvd_le_eq: "k dvd g \<Longrightarrow> g \<le> k \<Longrightarrow> g \<noteq> 0 \<Longrightarrow> g = (k :: nat)"
  by (simp add: dvd_imp_le dual_order.antisym)

lemma fold16_complement:
  assumes "n < 2 ^ 31 - 65536"
  shows "fold16 (n + (65535 - fold16 n)) = 65535"
proof -
  define m where "m = n + (65535 - fold16 n)"
  have f: "fold16 n mod 65535 = n mod 65535" "fold16 n \<le> 65535" "fold16 n = 0 \<longleftrightarrow> n = 0"
    using fold16_mod [of n] assms by simp_all
  have d: "65535 dvd m" unfolding m_def by (rule dvd_complement [OF f(1,2)])
  have "m \<noteq> 0" using f(3) unfolding m_def by (cases "n = 0") simp_all
  moreover have "m < 2 ^ 31" using assms unfolding m_def by simp
  ultimately have "fold16 m mod 65535 = m mod 65535" "fold16 m \<le> 65535" "fold16 m \<noteq> 0"
    using fold16_mod [of m] by simp_all
  then have "fold16 m = 65535" using d by (intro dvd_le_eq) (simp_all only: dvd_eq_mod_eq_0 not_False_eq_True)
  then show ?thesis unfolding m_def .
qed

text \<open>
  (C31) A checksum verifies: when the checksum of a packet of at most 65536 bytes, computed with its checksum
  field zero, is stored into that field at any even offset, \<open>ip_checksum_ok\<close> accepts the packet.
\<close>

theorem stored_checksum_ok:
  assumes "even (length a)" "length a + length b \<le> 65530"
    and "c = compute_ip_checksum (a @ [0, 0] @ b)"
  shows "compute_ip_checksum (a @ [ucast c, ucast (drop_bit 8 c)] @ b) = 0 \<and>
    ip_checksum_ok (a @ [ucast c, ucast (drop_bit 8 c)] @ b)"
proof -
  let ?n = "words_sum (a @ [0, 0] @ b)" and ?p = "a @ [ucast c, ucast (drop_bit 8 c)] @ b"
  have c: "unat c = 65535 - fold16 ?n" 
    unfolding assms(3) by (rule unat_compute_ip_checksum) (use assms(2) in simp)
  then have "unat c < 65536" by simp
  then have "unat (ucast c :: u8) + 256 * unat (ucast (drop_bit 8 c) :: u8) = unat c"
    by (simp only: unsigned_ucast_eq unsigned_drop_bit_eq) (simp add: take_bit_eq_mod drop_bit_eq_div)
  then have "words_sum ?p = ?n + (65535 - fold16 ?n)"
    unfolding c [symmetric] using assms(1) by (simp add: words_sum_append)
  moreover have "?n < 2 ^ 31 - 65536" using words_sum_le [of "a @ [0, 0] @ b"] assms(2) by simp
  ultimately have "fold16 (words_sum ?p) = 65535" using fold16_complement by simp
  then have "unat (compute_ip_checksum ?p) = 0" using assms(2) by (subst unat_compute_ip_checksum) simp_all
  then have "compute_ip_checksum ?p = 0" by (simp add: unat_eq_0)
  then show ?thesis by (simp add: ip_checksum_ok_def)
qed

theorem stored_checksum_ok_witness:
  "compute_ip_checksum ([0x45, 0, 0, 0x54] @ [0, 0] @ [0x40, 0x01, 0x7f]) = 0xa9fb \<and>
   ip_checksum_ok ([0x45, 0, 0, 0x54] @ [0xfb, 0xa9] @ [0x40, 0x01, 0x7f])"
proof -
  have c: "compute_ip_checksum ([0x45, 0, 0, 0x54] @ [0, 0] @ [0x40, 0x01, 0x7f]) = 0xa9fb" by code_simp
  have u: "ucast (0xa9fb :: u32) = (0xfb :: u8)" "ucast (drop_bit 8 (0xa9fb :: u32)) = (0xa9 :: u8)"
    by code_simp+
  have "ip_checksum_ok ([0x45, 0, 0, 0x54] @ [ucast (0xa9fb :: u32), ucast (drop_bit 8 (0xa9fb :: u32))] @ [0x40, 0x01, 0x7f])"
    by (rule stored_checksum_ok [OF _ _ c [symmetric], THEN conjunct2]) simp_all
  then show ?thesis unfolding u using c by blast
qed

end
