(* ===== verification/NetTests.thy ===== *)
theory NetTests
  imports MmcTest NetUtils Cstring
begin

text \<open>
  The network tests: \<^verbatim>\<open>test_eth.c\<close> and \<^verbatim>\<open>test_ping.c\<close> of \<^verbatim>\<open>test-framework/testsuite\<close>. The accesses to the PHY, the
  delay and the network loop are parameters; a read of a PHY register that fails leaves the variable
  it should fill unchanged.
\<close>

record 'e net_core =
  miiphy_read :: "string \<Rightarrow> u8 \<Rightarrow> u8 \<Rightarrow> 'e periph io \<Rightarrow> u16 option \<times> 'e periph io"
  miiphy_write :: "string \<Rightarrow> u8 \<Rightarrow> u8 \<Rightarrow> u16 \<Rightarrow> 'e periph io \<Rightarrow> 'e periph io"
  mdelay :: "nat \<Rightarrow> 'e periph io \<Rightarrow> 'e periph io"
  net_loop :: "'e periph io \<Rightarrow> int \<times> 'e periph io"

subsection \<open>Ethernet\<close>

record A_Ethernet_test =
  eth_dev_name :: string
  phy_addr :: u8
  phy_name :: string

definition MII_BMCR :: u8 where "MII_BMCR = 0x00"
definition MII_BMSR :: u8 where "MII_BMSR = 0x01"
definition MII_ANAR :: u8 where "MII_ANAR = 0x04"
definition MII_LPA :: u8 where "MII_LPA = 0x05"
definition MII_BMCR_AN_ENA :: u16 where "MII_BMCR_AN_ENA = 0x1000"
definition MII_BMCR_RESTART :: u16 where "MII_BMCR_RESTART = 0x0200"
definition MII_BMCR_RESET :: u16 where "MII_BMCR_RESET = 0x8000"
definition BMSR_LSTATUS :: u16 where "BMSR_LSTATUS = 0x0004"
definition BMSR_ANEGCOMPLETE :: u16 where "BMSR_ANEGCOMPLETE = 0x0020"
definition ADVERTISE_10HALF :: u16 where "ADVERTISE_10HALF = 0x0020"
definition ADVERTISE_10FULL :: u16 where "ADVERTISE_10FULL = 0x0040"
definition ADVERTISE_100HALF :: u16 where "ADVERTISE_100HALF = 0x0080"
definition ADVERTISE_100FULL :: u16 where "ADVERTISE_100FULL = 0x0100"

text \<open>The variables of the test.\<close>

record eth_vals =
  an_advert_val :: u16
  an_lp_val :: u16
  bm_sts_val :: u16

definition phy_read ::
  "'e net_core \<Rightarrow> A_Ethernet_test \<Rightarrow> u8 \<Rightarrow> u16 \<Rightarrow> 'e periph io \<Rightarrow> u16 \<times> 'e periph io" where
  "phy_read nc a reg old s =
     (let (v, s) = miiphy_read nc (eth_dev_name a) (phy_addr a) reg s
      in (case v of None \<Rightarrow> old | Some v \<Rightarrow> v, s))"

text \<open>
  One round: advertise a single mode, restart the negotiation, wait two seconds and compare. The four
  rounds of the test differ in the mode, in the text of a mismatch and in whether a mismatch, the
  result False, ends the test.
\<close>

definition eth_round ::
  "'e net_core \<Rightarrow> A_Ethernet_test \<Rightarrow> u16 \<Rightarrow> string \<Rightarrow> eth_vals \<Rightarrow> 'e periph io \<Rightarrow> bool \<times> eth_vals \<times> 'e periph io" where
  "eth_round nc a adv mismatch v s =
     (let wr = miiphy_write nc (eth_dev_name a) (phy_addr a);
          s = wr MII_BMCR 0x0000 s;
          s = wr MII_BMCR MII_BMCR_RESET s;
          s = wr MII_ANAR adv s;
          s = wr MII_BMCR (MII_BMCR_AN_ENA OR MII_BMCR_RESTART) s;
          s = (mdelay nc 10 ^^ 200) s;
          (sts, s) = phy_read nc a MII_BMSR (bm_sts_val v) s;
          v = v\<lparr>bm_sts_val := sts\<rparr>
      in if sts AND BMSR_ANEGCOMPLETE \<noteq> 0 then
           let (an, s) = phy_read nc a MII_ANAR (an_advert_val v) s;
               (lp, s) = phy_read nc a MII_LPA (an_lp_val v) s;
               v = v\<lparr>an_advert_val := an, an_lp_val := lp\<rparr>
           in if (lp AND an) AND adv \<noteq> 0 then (True, v, printf_io ''..... Passed\<newline>'' [] s)
              else (False, v, printf_io mismatch [] s)
         else (True, v, printf_io ''..... Auto Negotiation Pending\<newline>'' [] s))"

definition eth_mismatch :: "u32 \<Rightarrow> 'e periph io \<Rightarrow> TestResultTypes_e \<times> 'e periph io" where
  "eth_mismatch tid s =
     (DIAG_TEST_RESULT_FAIL, ReportEvent (fill_event DIAG_DEV_DATA_MISMATCH_ERR_EVENT [] (Event_Init tid s)) s)"

definition Ethernet_test ::
  "'e net_core \<Rightarrow> u32 \<Rightarrow> A_Ethernet_test option \<Rightarrow> 'e periph io \<Rightarrow> TestResultTypes_e \<times> 'e periph io" where
  "Ethernet_test nc tid arg s =
     (case arg of
        None \<Rightarrow> (DIAG_TEST_RESULT_ABORTED, DEBUG_ASSERT ''test_eth.c'' 42 s)
      | Some a \<Rightarrow>
          if strcmp (phy_name a) ''LAN8710A'' \<noteq> 0 then (DIAG_TEST_RESULT_ABORTED, s)
          else
            let s = printf_io ''\<newline>                    Checks 10/100 Full/half duplex with Autonegotiation enabled\<newline>\<newline>'' [] s;
                (sts, s) = phy_read nc a MII_BMSR 0 s;
                v = \<lparr>an_advert_val = 0, an_lp_val = 0, bm_sts_val = sts\<rparr>
            in if sts AND BMSR_LSTATUS = 0 then
                 let s = printf_io ''                    No Link !!!!!!!!!!!\<newline>'' [] s in
                 (DIAG_TEST_RESULT_FAIL, ReportEvent (fill_event DIAG_DEV_NOT_PRESENT_ERR_EVENT [] (Event_Init tid s)) s)
               else
                 let s = printf_io ''                    Starting 10 Mbps and Half duplex test '' [] s;
                     (_, v, s) = eth_round nc a ADVERTISE_10HALF ''..... Link Partner mismatch\<newline>'' v s;
                     s = printf_io ''                    Starting 10 Mbps and Full duplex test '' [] s;
                     (ok, v, s) = eth_round nc a ADVERTISE_10FULL ''..... Link Partner mismatch \<newline>'' v s
                 in if \<not> ok then eth_mismatch tid s
                    else
                      let s = printf_io ''                    Starting 100 Mbps and Half duplex test '' [] s;
                          (ok, v, s) = eth_round nc a ADVERTISE_100HALF ''..... Link Partner mismatch\<newline>'' v s
                      in if \<not> ok then eth_mismatch tid s
                         else
                           let s = printf_io ''                    Starting 100 Mbps and Full duplex test '' [] s;
                               (ok, v, s) = eth_round nc a ADVERTISE_100FULL ''..... Link Partner mismatch\<newline>'' v s
                           in if \<not> ok then eth_mismatch tid s
                              else (DIAG_TEST_RESULT_PASS, printf_io ''\<newline>'' [] s))"

subsection \<open>Ping\<close>

record A_ping_test =
  ip_address :: "string option"

definition ping_test ::
  "'e net_core \<Rightarrow> u32 \<Rightarrow> A_ping_test option \<Rightarrow> 'e periph io \<Rightarrow> TestResultTypes_e \<times> 'e periph io" where
  "ping_test nc tid arg s =
     (case arg of
        None \<Rightarrow> (DIAG_TEST_RESULT_ABORTED, set_ub s)
      | Some a \<Rightarrow>
          let event = Event_Init tid s;
              s = on_periph (\<lambda>p. p\<lparr>net_ping_ip := string_to_ip (ip_address a)\<rparr>) s in
          if net_ping_ip (hw s) = 0 then
            (case sprintf 0 (string_ev event) ''Invalid IP address'' [] of
               None \<Rightarrow> (DIAG_TEST_RESULT_FAIL, set_ub s)
             | Some (_, str) \<Rightarrow>
                 (DIAG_TEST_RESULT_FAIL,
                  ReportEvent (event\<lparr>eventType := event_code DIAG_DEV_CONFIG_ERR_EVENT, string_ev := str\<rparr>) s))
          else
            let (pingResult, s) = net_loop nc s in
            if pingResult < 0 then
              (case sprintf 0 (string_ev event) ''ping to %s failed'' [VStr (ip_address a)] of
                 None \<Rightarrow> (DIAG_TEST_RESULT_FAIL, set_ub s)
               | Some (_, str) \<Rightarrow>
                   (DIAG_TEST_RESULT_FAIL,
                    ReportEvent (event\<lparr>eventType := event_code DIAG_DEV_DATA_TIMEOUT_ERR_EVENT, string_ev := str\<rparr>) s))
            else (DIAG_TEST_RESULT_PASS, s))"

subsection \<open>The verdict of the Ethernet test\<close>

text \<open>
  A PHY whose link is up and whose negotiation completes: \<open>anar\<close> is its advertisement register,
  which keeps what is written to it, \<open>lpa\<close> the abilities of the link partner.
\<close>

definition phy_ready :: "'e net_core \<Rightarrow> ('e \<Rightarrow> u16) \<Rightarrow> u16 \<Rightarrow> bool" where
  "phy_ready nc anar lpa \<longleftrightarrow>
     (\<forall>n p s. miiphy_read nc n p MII_BMSR s = (Some (BMSR_LSTATUS OR BMSR_ANEGCOMPLETE), s)) \<and>
     (\<forall>n p s. miiphy_read nc n p MII_ANAR s = (Some (anar (dev (hw s))), s)) \<and>
     (\<forall>n p s. miiphy_read nc n p MII_LPA s = (Some lpa, s)) \<and>
     (\<forall>n p v s. anar (dev (hw (miiphy_write nc n p MII_ANAR v s))) = v) \<and>
     (\<forall>n p v s. anar (dev (hw (miiphy_write nc n p MII_BMCR v s))) = anar (dev (hw s))) \<and>
     (\<forall>n s. anar (dev (hw (mdelay nc n s))) = anar (dev (hw s)))"

lemma mdelay_anar: "phy_ready nc anar lpa \<Longrightarrow> anar (dev (hw ((mdelay nc n ^^ k) s))) = anar (dev (hw s))"
  by (induction k) (simp_all add: phy_ready_def)

lemma eth_round_verdict:
  assumes "phy_ready nc anar lpa"
  shows "fst (eth_round nc a adv mismatch v s) \<longleftrightarrow> lpa AND adv \<noteq> 0"
proof -
  have c: "(BMSR_LSTATUS OR BMSR_ANEGCOMPLETE) AND BMSR_ANEGCOMPLETE \<noteq> 0" by code_simp
  show ?thesis
    using assms mdelay_anar [OF assms] c
    by (simp add: eth_round_def phy_read_def phy_ready_def Let_def case_prod_beta and.assoc)
qed


text \<open>An instance: the devices are the advertisement register.\<close>

definition phy_core :: "u16 \<Rightarrow> u16 net_core" where
  "phy_core lpa = \<lparr>miiphy_read = \<lambda>n p r s. (Some (if r = MII_BMSR then BMSR_LSTATUS OR BMSR_ANEGCOMPLETE
       else if r = MII_ANAR then dev (hw s) else lpa), s),
     miiphy_write = \<lambda>n p r v s. if r = MII_ANAR then on_periph (\<lambda>h. h\<lparr>dev := v\<rparr>) s else s,
     mdelay = \<lambda>n s. s, net_loop = \<lambda>s. (0, s)\<rparr>"

lemma phy_ready_core: "phy_ready (phy_core lpa) (\<lambda>d. d) lpa"
  by (simp add: phy_ready_def phy_core_def on_periph_def MII_BMSR_def MII_ANAR_def MII_LPA_def MII_BMCR_def)

definition phy_io :: "u16 periph io" where
  "phy_io = \<lparr>console = [], s_logMode = CONSOLE_LOG_MODE, s_logMask = 0, curTestId = 0,
     hw = \<lparr>ommc_param = \<lparr>curr_device = 0, block_start = 0, block_cnt = 0, dev_id = 0, pmmc = None\<rparr>,
       test_buffer_1 = [], test_buffer_2 = [], flash = None, data_test_buf1 = [], data_test_buf2 = [],
       net_ping_ip = 0, dev = 0\<rparr>, ub = False\<rparr>"


end
