(* ===== verification/Platforms.thy ===== *)
theory Platforms
  imports Diag MemTests I2cTests GpioTest NorTest NetTests "HOL-Library.List_Lexorder"
begin

text \<open>
  The tests that the boards register, \<^verbatim>\<open>test-framework/supported-platforms\<close>, and the macros that register them.
  The state of the board is that of the I2C tests, with the variables and devices of the other tests
  in its \<open>rest\<close>. An image is linked with one platform file; the linker sorts the entries of a list by name.

  A test function casts its \<^verbatim>\<open>void *\<close> argument to the structure of its name. An argument carries its
  structure here, and a call with an argument of another structure is \<open>None\<close>.
\<close>

record 'e board_env =
  env_bus :: "'e bus"
  env_dm :: "'e periph dm_core"
  env_mmc :: "'e mmc_core"
  env_spi :: "'e spi_core"
  env_net :: "'e net_core"

type_synonym 'e board_io = "'e periph i2c_sys io"

definition with_hw :: "'a \<Rightarrow> 'b io \<Rightarrow> 'a io" where
  "with_hw h s = \<lparr>console = console s, s_logMode = s_logMode s, s_logMask = s_logMask s, curTestId = curTestId s,
     hw = h, ub = ub s\<rparr>"

definition lift_io :: "('d io \<Rightarrow> 'r \<times> 'd io) \<Rightarrow> 'd i2c_sys io \<Rightarrow> 'r \<times> 'd i2c_sys io" where
  "lift_io f s = (let (r, t) = f (with_hw (rest (hw s)) s) in (r, with_hw ((hw s)\<lparr>rest := hw t\<rparr>) t))"

datatype test_fn =
  I2C_interface_fn | Ping_fn | MMC_Detection_fn | MMC_WRITE_READ_fn | Data_line_fn | Address_line_fn | Pattern_fn
| GPIO_fn | Ethernet_fn | PWR_railings_fn | EEPROM_fn | NOR_Flash_fn | Rtc_set_fn | Rtc_get_fn

datatype test_arg =
  Arg_I2C_interface A_I2C_interface_test
| Arg_ping A_ping_test
| Arg_MMC_Detection A_MMC_Detection_Test
| Arg_MMC_WRITE_READ A_MMC_WRITE_READ_Test
| Arg_data_line A_memory_data_line_test
| Arg_address_line A_memory_address_line_test
| Arg_pattern A_memory_pattern_test
| Arg_GPIO A_GPIO_test
| Arg_Ethernet A_Ethernet_test
| Arg_PWR_railings A_PWR_railings_test
| Arg_EEPROM A_EEPROM_Read_Write_test
| Arg_NOR_Flash A_NOR_Flash_test
| Arg_rtc_set A_ds2321_rtc_set_time_test
| Arg_rtc_get A_ds2321_rtc_get_time_test

text \<open>The cast of the argument, and the call of the function with it.\<close>

definition cast_arg :: "(test_arg \<Rightarrow> 'a option) \<Rightarrow> test_arg option \<Rightarrow> 'a option option" where
  "cast_arg proj arg = (case arg of None \<Rightarrow> Some None | Some x \<Rightarrow> map_option Some (proj x))"

fun call :: "'e board_env \<Rightarrow> test_fn \<Rightarrow> u32 \<Rightarrow> test_arg option \<Rightarrow> 'e board_io \<Rightarrow> (TestResultTypes_e \<times> 'e board_io) option" where
  "call env I2C_interface_fn tid arg s =
     map_option (\<lambda>a. I2C_interface_test (env_dm env) tid a s)
       (cast_arg (\<lambda>x. case x of Arg_I2C_interface a \<Rightarrow> Some a | _ \<Rightarrow> None) arg)"
| "call env Ping_fn tid arg s =
     map_option (\<lambda>a. lift_io (ping_test (env_net env) tid a) s)
       (cast_arg (\<lambda>x. case x of Arg_ping a \<Rightarrow> Some a | _ \<Rightarrow> None) arg)"
| "call env MMC_Detection_fn tid arg s =
     map_option (\<lambda>a. lift_io (MMC_Detection_Test (env_mmc env) tid a) s)
       (cast_arg (\<lambda>x. case x of Arg_MMC_Detection a \<Rightarrow> Some a | _ \<Rightarrow> None) arg)"
| "call env MMC_WRITE_READ_fn tid arg s =
     map_option (\<lambda>a. lift_io (MMC_WRITE_READ_Test tid a) s)
       (cast_arg (\<lambda>x. case x of Arg_MMC_WRITE_READ a \<Rightarrow> Some a | _ \<Rightarrow> None) arg)"
| "call env Data_line_fn tid arg s =
     map_option (\<lambda>a. memory_data_line_test (lift_bus (dev_bus (env_bus env))) tid a s)
       (cast_arg (\<lambda>x. case x of Arg_data_line a \<Rightarrow> Some a | _ \<Rightarrow> None) arg)"
| "call env Address_line_fn tid arg s =
     map_option (\<lambda>a. memory_address_line_test (lift_bus (dev_bus (env_bus env))) tid a s)
       (cast_arg (\<lambda>x. case x of Arg_address_line a \<Rightarrow> Some a | _ \<Rightarrow> None) arg)"
| "call env Pattern_fn tid arg s =
     map_option (\<lambda>a. memory_pattern_test (lift_bus (dev_bus (env_bus env))) tid a s)
       (cast_arg (\<lambda>x. case x of Arg_pattern a \<Rightarrow> Some a | _ \<Rightarrow> None) arg)"
| "call env GPIO_fn tid arg s =
     map_option (\<lambda>a. GPIO_test (lift_bus (dev_bus (env_bus env))) tid a s)
       (cast_arg (\<lambda>x. case x of Arg_GPIO a \<Rightarrow> Some a | _ \<Rightarrow> None) arg)"
| "call env Ethernet_fn tid arg s =
     map_option (\<lambda>a. lift_io (Ethernet_test (env_net env) tid a) s)
       (cast_arg (\<lambda>x. case x of Arg_Ethernet a \<Rightarrow> Some a | _ \<Rightarrow> None) arg)"
| "call env PWR_railings_fn tid arg s =
     map_option (\<lambda>a. PWR_railings_test (env_dm env) tid a s)
       (cast_arg (\<lambda>x. case x of Arg_PWR_railings a \<Rightarrow> Some a | _ \<Rightarrow> None) arg)"
| "call env EEPROM_fn tid arg s =
     map_option (\<lambda>a. EEPROM_Read_Write_test (dev_bus (env_bus env)) (env_dm env) tid a s)
       (cast_arg (\<lambda>x. case x of Arg_EEPROM a \<Rightarrow> Some a | _ \<Rightarrow> None) arg)"
| "call env NOR_Flash_fn tid arg s =
     map_option (\<lambda>a. lift_io (NOR_Flash_test (env_bus env) (env_spi env) tid a) s)
       (cast_arg (\<lambda>x. case x of Arg_NOR_Flash a \<Rightarrow> Some a | _ \<Rightarrow> None) arg)"
| "call env Rtc_set_fn tid arg s =
     map_option (\<lambda>a. ds2321_rtc_set_time_test (dev_bus (env_bus env)) (env_dm env) tid a s)
       (cast_arg (\<lambda>x. case x of Arg_rtc_set a \<Rightarrow> Some a | _ \<Rightarrow> None) arg)"
| "call env Rtc_get_fn tid arg s =
     map_option (\<lambda>a. ds2321_rtc_get_time_test (dev_bus (env_bus env)) (env_dm env) tid a s)
       (cast_arg (\<lambda>x. case x of Arg_rtc_get a \<Rightarrow> Some a | _ \<Rightarrow> None) arg)"

definition enter :: "'e board_env \<Rightarrow> test_fn \<Rightarrow> u32 \<Rightarrow> test_arg option \<Rightarrow> 'e board_io \<Rightarrow> TestResultTypes_e \<times> 'e board_io" where
  "enter env fn tid arg s =
     (case call env fn tid arg s of None \<Rightarrow> (DIAG_TEST_RESULT_ABORTED, set_ub s) | Some r \<Rightarrow> r)"

subsection \<open>Registration\<close>

fun fn_name :: "test_fn \<Rightarrow> string" where
  "fn_name I2C_interface_fn = ''I2C_interface_test''"
| "fn_name Ping_fn = ''ping_test''"
| "fn_name MMC_Detection_fn = ''MMC_Detection_Test''"
| "fn_name MMC_WRITE_READ_fn = ''MMC_WRITE_READ_Test''"
| "fn_name Data_line_fn = ''memory_data_line_test''"
| "fn_name Address_line_fn = ''memory_address_line_test''"
| "fn_name Pattern_fn = ''memory_pattern_test''"
| "fn_name GPIO_fn = ''GPIO_test''"
| "fn_name Ethernet_fn = ''Ethernet_test''"
| "fn_name PWR_railings_fn = ''PWR_railings_test''"
| "fn_name EEPROM_fn = ''EEPROM_Read_Write_test''"
| "fn_name NOR_Flash_fn = ''NOR_Flash_test''"
| "fn_name Rtc_set_fn = ''ds2321_rtc_set_time_test''"
| "fn_name Rtc_get_fn = ''ds2321_rtc_get_time_test''"

record invocation =
  inv_description :: string
  inv_function :: test_fn
  inv_argument :: string
  inv_value :: test_arg

definition INVOKE_TEST_WITH_PARAM :: "string \<Rightarrow> test_fn \<Rightarrow> string \<Rightarrow> test_arg \<Rightarrow> invocation" where
  "INVOKE_TEST_WITH_PARAM desc fn arg v =
     \<lparr>inv_description = desc, inv_function = fn, inv_argument = arg, inv_value = v\<rparr>"

definition inv_name :: "invocation \<Rightarrow> string" where
  "inv_name i = fn_name (inv_function i) @ ''_'' @ inv_argument i"

definition INVOKE_TEST_WITH_PARAM_ENTRY ::
  "'e board_env \<Rightarrow> invocation \<Rightarrow> (test_arg, 'e periph i2c_sys) testParamEntry_s" where
  "INVOKE_TEST_WITH_PARAM_ENTRY env i =
     \<lparr>description = inv_description i, name = inv_name i,
      testFunction = Some (enter env (inv_function i)), testArgs = Some (inv_value i), testId = 0,
      prevcontrol = DIAG_CONTROLRUN_IDLE, control = DIAG_CONTROLRUN_IDLE,
      runCount = 0, totalFailCount = 0, newFailCount = 0,
      ResultFromSingleRun = DIAG_TEST_RESULT_NOT_STARTED, ResultFromLoopedRun = DIAG_TEST_RESULT_NOT_STARTED,
      bInProgress = 0\<rparr>"

definition linked :: "'e board_env \<Rightarrow> invocation list \<Rightarrow> (test_arg, 'e periph i2c_sys) testParamEntry_s list" where
  "linked env is = map (INVOKE_TEST_WITH_PARAM_ENTRY env) (sort_key (\<lambda>i. map (of_char :: char \<Rightarrow> nat) (inv_name i)) is)"

text \<open>An array initialised with fewer values than it has elements.\<close>

definition c_array :: "nat \<Rightarrow> 'a \<Rightarrow> 'a list \<Rightarrow> 'a list" where
  "c_array n zero xs = xs @ replicate (n - length xs) zero"

definition i2c_devices :: "u8 \<Rightarrow> test_arg" where
  "i2c_devices bus = Arg_I2C_interface
     \<lparr>bus_no = bus, dev_address_list = c_array MAX_I2C_DEVICE 0 [0x24, 0x34, 0x50],
      dev_name_list = c_array MAX_I2C_DEVICE None [Some ''Slave 1'', Some ''Slave 2'', Some ''Slave 3''], no_of_device = 3\<rparr>"

definition ping_host :: test_arg where
  "ping_host = Arg_ping \<lparr>ip_address = Some ''10.144.172.135''\<rparr>"

definition emmc_access :: "u32 \<Rightarrow> test_arg" where
  "emmc_access base = Arg_MMC_WRITE_READ
     \<lparr>base_address = base, mmc_block_start = 583, mmc_block_cnt = 16, mmc_test_dev = 0\<rparr>"

definition memory_tests :: "invocation list" where
  "memory_tests =
     [INVOKE_TEST_WITH_PARAM ''Memory Test'' Data_line_fn ''Data_Line'' (Arg_data_line \<lparr>mem_address = 0x88080000\<rparr>),
      INVOKE_TEST_WITH_PARAM ''Memory Test'' Address_line_fn ''Address_Line''
        (Arg_address_line \<lparr>mem_address = 0x88080000, mem_size = 2048\<rparr>),
      INVOKE_TEST_WITH_PARAM ''Memory Test'' Pattern_fn ''Pattern''
        (Arg_pattern \<lparr>mem_address = 0x88080000, mem_size = 2048, mem_value = 0x55555555\<rparr>)]"

definition gpio_output :: "u32 \<Rightarrow> test_arg" where
  "gpio_output en = Arg_GPIO
     \<lparr>pad_ctrl_base_addr = 0x44E10000, pad_ctrl_offset = 0x814, pad_ctrl_val = 0x17,
      gpio_bank_base_addr = 0x4804c000, gpio_bank_enable_offset = 0x130, gpio_bank_enable_val = 0x0,
      gpio_direction = 1, gpio_bank_output_offset = 0x134, gpio_bank_datain_offset = 0x138,
      gpio_bank_dataout_offset = 0x13C, gpio_pin = 21, enable = en\<rparr>"

definition BBB_MMC_BASE_ADDR :: u32 where "BBB_MMC_BASE_ADDR = 0x481D8000"
definition RPI2_MMC_BASE_ADDR :: u32 where "RPI2_MMC_BASE_ADDR = 0x3f300000"

definition bbb_tests :: "invocation list" where
  "bbb_tests =
     [INVOKE_TEST_WITH_PARAM ''I2C bus 0 probe'' I2C_interface_fn ''I2C0_DEVICES'' (i2c_devices 0),
      INVOKE_TEST_WITH_PARAM ''I2C bus 1 probe'' I2C_interface_fn ''I2C1_DEVICES'' (i2c_devices 1),
      INVOKE_TEST_WITH_PARAM ''Ping'' Ping_fn ''smsc95xx_eth'' ping_host,
      INVOKE_TEST_WITH_PARAM ''eMMC presence'' MMC_Detection_fn ''eMMC_check''
        (Arg_MMC_Detection \<lparr>base_address = BBB_MMC_BASE_ADDR\<rparr>),
      INVOKE_TEST_WITH_PARAM ''eMMC Read, Write and Erase tests'' MMC_WRITE_READ_fn ''eMMC_Access_Check''
        (emmc_access BBB_MMC_BASE_ADDR)] @
     memory_tests @
     [INVOKE_TEST_WITH_PARAM ''GPIO Output Enable'' GPIO_fn ''GPIO0_OUTPUT_ENABLE'' (gpio_output 1),
      INVOKE_TEST_WITH_PARAM ''GPIO Output Disable'' GPIO_fn ''GPIO0_OUTPUT_DISABLE'' (gpio_output 0),
      INVOKE_TEST_WITH_PARAM ''Ethernet Test'' Ethernet_fn ''SPEED_DUPLEX_AUTONEGOTIATE''
        (Arg_Ethernet \<lparr>eth_dev_name = ''ethernet@4a100000'', phy_addr = 0x00, phy_name = ''LAN8710A''\<rparr>),
      INVOKE_TEST_WITH_PARAM ''PWR railings display'' PWR_railings_fn ''REGISTER_READ''
        (Arg_PWR_railings \<lparr>i2c_bus_no = 0, pmic_dev_addr = 0x24, dev_name = ''TPS65217C''\<rparr>),
      INVOKE_TEST_WITH_PARAM ''EEPROM Read Write'' EEPROM_fn ''EEPROM''
        (Arg_EEPROM \<lparr>i2c_bus_num = 1, eeprom_dev_addr = 0x50, eeprom_offset = 128, test_len = 128\<rparr>),
      INVOKE_TEST_WITH_PARAM ''SPI NOR flash erase-Write-Read test '' NOR_Flash_fn ''NOR_FLASH''
        (Arg_NOR_Flash \<lparr>spi_bus_no = 0x00, spi_cs_no = 0x00, spi_offset = 0x00, spi_len = 0x20000\<rparr>),
      INVOKE_TEST_WITH_PARAM ''RTC set time'' Rtc_set_fn ''value''
        (Arg_rtc_set \<lparr>i2c_bus = 1, i2c_speed = 100000, i2c_dev_addr = 0x68,
           sec_value = 0x20, min_value = 0x14, hour_value = 0x05\<rparr>),
      INVOKE_TEST_WITH_PARAM ''RTC get time'' Rtc_get_fn ''value''
        (Arg_rtc_get \<lparr>i2c_bus = 1, i2c_speed = 100000, i2c_dev_addr = 0x68\<rparr>)]"

text \<open>
  The platform file of the Raspberry Pi 2 registers two tests for its own board, the memory tests for the
  other board, and the ping test for a list \<open>bcm2836_bbb\<close> that no board uses.
\<close>

definition rpi2_tests :: "invocation list" where
  "rpi2_tests =
     [INVOKE_TEST_WITH_PARAM ''eMMC presence'' MMC_Detection_fn ''eMMC_check''
        (Arg_MMC_Detection \<lparr>base_address = RPI2_MMC_BASE_ADDR\<rparr>),
      INVOKE_TEST_WITH_PARAM ''eMMC Read, Write and Erase tests'' MMC_WRITE_READ_fn ''eMMC_Access_Check''
        (emmc_access RPI2_MMC_BASE_ADDR)]"

definition bcm2836_bbb_tests :: "invocation list" where
  "bcm2836_bbb_tests = [INVOKE_TEST_WITH_PARAM ''Ping'' Ping_fn ''smsc95xx_eth'' ping_host]"

fun bbb_image :: "'e board_env \<Rightarrow> board \<Rightarrow> (test_arg, 'e periph i2c_sys) testParamEntry_s list" where
  "bbb_image env am335x_bbb = linked env bbb_tests"
| "bbb_image env bcm2836_rpi2 = []"

fun rpi2_image :: "'e board_env \<Rightarrow> board \<Rightarrow> (test_arg, 'e periph i2c_sys) testParamEntry_s list" where
  "rpi2_image env am335x_bbb = linked env memory_tests"
| "rpi2_image env bcm2836_rpi2 = linked env rpi2_tests"

text \<open>The state of the framework before the first command.\<close>

definition power_on ::
  "(board \<Rightarrow> (test_arg, 'e periph i2c_sys) testParamEntry_s list) \<Rightarrow> u32 \<Rightarrow> 'e board_io \<Rightarrow> (test_arg, 'e periph i2c_sys) diag" where
  "power_on img dflt s =
     \<lparr>entries = img, testList_g = None, testListDim_g = 0, testNameList_g = None, exitOnErr_g = 0, repeatCnt_g = 0,
      BOARD_DEFAULT = dflt, dio = s\<rparr>"

subsection \<open>Arguments have the type their function expects\<close>

fun arg_fn :: "test_arg \<Rightarrow> test_fn" where
  "arg_fn (Arg_I2C_interface a) = I2C_interface_fn"
| "arg_fn (Arg_ping a) = Ping_fn"
| "arg_fn (Arg_MMC_Detection a) = MMC_Detection_fn"
| "arg_fn (Arg_MMC_WRITE_READ a) = MMC_WRITE_READ_fn"
| "arg_fn (Arg_data_line a) = Data_line_fn"
| "arg_fn (Arg_address_line a) = Address_line_fn"
| "arg_fn (Arg_pattern a) = Pattern_fn"
| "arg_fn (Arg_GPIO a) = GPIO_fn"
| "arg_fn (Arg_Ethernet a) = Ethernet_fn"
| "arg_fn (Arg_PWR_railings a) = PWR_railings_fn"
| "arg_fn (Arg_EEPROM a) = EEPROM_fn"
| "arg_fn (Arg_NOR_Flash a) = NOR_Flash_fn"
| "arg_fn (Arg_rtc_set a) = Rtc_set_fn"
| "arg_fn (Arg_rtc_get a) = Rtc_get_fn"

definition has_arg_of :: "test_fn \<Rightarrow> test_arg \<Rightarrow> bool" where
  "has_arg_of fn arg \<longleftrightarrow> arg_fn arg = fn"

text \<open>A call is defined exactly on the arguments of its structure.\<close>

lemma call_typed: "call env fn tid (Some arg) s \<noteq> None \<longleftrightarrow> has_arg_of fn arg"
  by (cases arg; cases fn) (simp_all add: cast_arg_def has_arg_of_def)

definition well_typed :: "invocation \<Rightarrow> bool" where
  "well_typed i \<longleftrightarrow> has_arg_of (inv_function i) (inv_value i)"

lemma tables_typed: "list_all well_typed bbb_tests" "list_all well_typed memory_tests" "list_all well_typed rpi2_tests"
  by (simp_all add: bbb_tests_def memory_tests_def rpi2_tests_def well_typed_def has_arg_of_def INVOKE_TEST_WITH_PARAM_def
    i2c_devices_def ping_host_def emmc_access_def gpio_output_def)

definition typed_entry :: "'e board_env \<Rightarrow> (test_arg, 'e periph i2c_sys) testParamEntry_s \<Rightarrow> bool" where
  "typed_entry env e \<longleftrightarrow> (\<exists>fn arg. testFunction e = Some (enter env fn) \<and> testArgs e = Some arg \<and> has_arg_of fn arg)"

lemma typed_linked: "list_all well_typed is \<Longrightarrow> e \<in> set (linked env is) \<Longrightarrow> typed_entry env e"
  by (auto simp: list_all_iff linked_def INVOKE_TEST_WITH_PARAM_ENTRY_def typed_entry_def well_typed_def)

lemma typed_images:
  "e \<in> set (bbb_image env b) \<Longrightarrow> typed_entry env e" "e \<in> set (rpi2_image env b) \<Longrightarrow> typed_entry env e"
  by (cases b; auto dest: typed_linked [OF tables_typed(1)] typed_linked [OF tables_typed(2)] typed_linked [OF tables_typed(3)])+

lemma typed_registration: "registration e = registration e' \<Longrightarrow> typed_entry env e \<longleftrightarrow> typed_entry env e'"
  by (simp add: registration_def typed_entry_def)

lemma length_linked [simp]: "length (linked env is) = length is"
  by (simp add: linked_def)

lemma power_on_inv:
  "diag_inv (power_on (bbb_image env) dflt s)" "diag_inv (power_on (rpi2_image env) dflt s)"
proof -
  have "length (bbb_image env b) < 2 ^ 32" "length (rpi2_image env b) < 2 ^ 32" for b
    by (cases b; simp add: bbb_tests_def memory_tests_def rpi2_tests_def)+
  then show "diag_inv (power_on (bbb_image env) dflt s)" "diag_inv (power_on (rpi2_image env) dflt s)"
    by (simp_all add: diag_inv_def power_on_def)
qed

lemma diag_ops_keep: "diag_op\<^sup>*\<^sup>* d d' \<Longrightarrow> keeps d d'"
  by (induction rule: rtranclp_induct) (auto intro: keeps_trans diag_op_keeps)

text \<open>A board without devices, for the instances below.\<close>

definition bench_env :: "unit board_env" where
  "bench_env =
     \<lparr>env_bus = \<lparr>bus_read = \<lambda>_ d. (0, d), bus_write = \<lambda>_ _ d. d, bus_flush = \<lambda>d. d\<rparr>,
      env_dm = \<lparr>i2c_get_ops = \<lambda>_. \<lparr>xfer = None, probe_chip = None, set_bus_speed = None, get_bus_speed = None, set_flags = None\<rparr>,
        uclass_get_device_by_seq = \<lambda>n d. (-19, 0, d), device_probe = \<lambda>_ d. (0, d), device_bind_driver = \<lambda>_ _ d. (0, d),
        malloc_ok = \<lambda>_ d. (True, d)\<rparr>,
      env_mmc = \<lparr>find_mmc_device = \<lambda>_ s. (None, s), esdhc_base = \<lambda>_ _. 0, clear_has_init = \<lambda>_ d. d, mmc_init = \<lambda>_ s. (-1, s),
        is_sd = \<lambda>_ _. False, mmc_getwp = \<lambda>_ s. (0, s), blk_dread = \<lambda>_ _ _ s. (0, [], s), blk_dwrite = \<lambda>_ _ _ _ s. (0, s),
        blk_derase = \<lambda>_ _ _ s. (0, s)\<rparr>,
      env_spi = \<lparr>spi_find_bus_and_cs = \<lambda>_ _ s. (-19, 0, s), device_remove = \<lambda>_ s. s, spi_flash_probe_bus_cs = \<lambda>_ _ _ _ s. (-19, 0, s),
        dev_get_uclass_priv = \<lambda>_. None, flash_size = \<lambda>_ _. 0, spi_flash_read = \<lambda>_ _ _ s. (-1, [], s),
        spi_flash_erase = \<lambda>_ _ _ s. (-1, s), spi_flash_write = \<lambda>_ _ _ _ s. (-1, s)\<rparr>,
      env_net = \<lparr>miiphy_read = \<lambda>_ _ _ s. (None, s), miiphy_write = \<lambda>_ _ _ _ s. s, mdelay = \<lambda>_ s. s, net_loop = \<lambda>s. (-1, s)\<rparr>\<rparr>"

definition bench_io :: "unit board_io" where
  "bench_io = quiet_io
     \<lparr>children = \<lambda>_. [], speed_hz = \<lambda>_. 100000, i2c_cur_bus = None, i2c_eeprom_testbuf2 = replicate 128 0,
      rest = \<lparr>ommc_param = \<lparr>curr_device = 0, block_start = 0, block_cnt = 0, dev_id = 0, pmmc = None\<rparr>,
        test_buffer_1 = [], test_buffer_2 = [], flash = None, data_test_buf1 = [], data_test_buf2 = [],
        net_ping_ip = 0, dev = ()\<rparr>\<rparr>"


subsection \<open>The tests of the BeagleBone Black are found by their names\<close>

lemma bbb_ids_distinct: "distinct (map (\<lambda>i. CalculateTestIdHash (inv_name i)) bbb_tests)"
proof -
  have "map inv_name bbb_tests =
    [''I2C_interface_test_I2C0_DEVICES'', ''I2C_interface_test_I2C1_DEVICES'', ''ping_test_smsc95xx_eth'',
     ''MMC_Detection_Test_eMMC_check'', ''MMC_WRITE_READ_Test_eMMC_Access_Check'', ''memory_data_line_test_Data_Line'',
     ''memory_address_line_test_Address_Line'', ''memory_pattern_test_Pattern'', ''GPIO_test_GPIO0_OUTPUT_ENABLE'',
     ''GPIO_test_GPIO0_OUTPUT_DISABLE'', ''Ethernet_test_SPEED_DUPLEX_AUTONEGOTIATE'', ''PWR_railings_test_REGISTER_READ'',
     ''EEPROM_Read_Write_test_EEPROM'', ''NOR_Flash_test_NOR_FLASH'', ''ds2321_rtc_set_time_test_value'',
     ''ds2321_rtc_get_time_test_value'']" (is "_ = ?names")
    by (simp add: bbb_tests_def memory_tests_def INVOKE_TEST_WITH_PARAM_def inv_name_def)
  moreover have "distinct (map CalculateTestIdHash ?names)" by code_simp
  ultimately have "distinct (map CalculateTestIdHash (map inv_name bbb_tests))" by (simp only:)
  then show ?thesis by (simp only: map_map comp_def)
qed

lemma distinct_map_sort_key: "distinct (map f (sort_key k xs)) \<longleftrightarrow> distinct (map f xs)"
  by (simp add: distinct_map)

lemma bbb_ready: "ready am335x_bbb (power_on (bbb_image env) AM335X_BBB s)"
  by (simp add: ready_def bootable_def power_on_def board_of_def BCM2836_RPI2_def AM335X_BBB_def bbb_tests_def memory_tests_def)

lemma bbb_entries:
  "entries (request (power_on (bbb_image env) AM335X_BBB s)) am335x_bbb = map init_entry (linked env bbb_tests)"
  using ProcessTestList_installs(1) [of AM335X_BBB am335x_bbb "power_on (bbb_image env) AM335X_BBB s"]
  by (simp add: request_def power_on_def board_of_def BCM2836_RPI2_def AM335X_BBB_def bbb_tests_def memory_tests_def)


text \<open>
  (C33) On the BeagleBone Black every test its platform file registers is found: no two of the sixteen names have the
  same identifier, and locating the identifier of a name gives the entry with the description, the function and the
  argument the file registers for it.
\<close>

theorem bbb_tests_found:
  assumes "i \<in> set bbb_tests"
  shows "\<exists>k. LocateTest (CalculateTestIdHash (inv_name i)) (power_on (bbb_image env) AM335X_BBB s) =
      (Some k, request (power_on (bbb_image env) AM335X_BBB s)) \<and>
    registration (entries (request (power_on (bbb_image env) AM335X_BBB s)) am335x_bbb ! k) =
      (inv_description i, inv_name i, Some (enter env (inv_function i)), Some (inv_value i))"
proof -
  let ?es = "map init_entry (linked env bbb_tests)"
  let ?sorted = "sort_key (\<lambda>i. map (of_char :: char \<Rightarrow> nat) (inv_name i)) bbb_tests"
  have es: "?es = map (\<lambda>i. init_entry (INVOKE_TEST_WITH_PARAM_ENTRY env i)) ?sorted" by (simp add: linked_def)
  have id: "testId (init_entry (INVOKE_TEST_WITH_PARAM_ENTRY env j)) = CalculateTestIdHash (inv_name j)" for j
    by (simp add: init_entry_def INVOKE_TEST_WITH_PARAM_ENTRY_def)
  have "distinct (map (\<lambda>i. CalculateTestIdHash (inv_name i)) ?sorted)"
    using bbb_ids_distinct by (simp only: distinct_map_sort_key)
  then have d: "distinct (map testId ?es)" unfolding es map_map comp_def id .
  from assms obtain k where k: "k < length ?sorted" "?sorted ! k = i"
    by (metis in_set_conv_nth set_sort)
  then have e: "?es ! k = init_entry (INVOKE_TEST_WITH_PARAM_ENTRY env i)" "k < length ?es"
    unfolding es by (simp_all only: nth_map length_map)
  have "locate_loop (CalculateTestIdHash (inv_name i)) ?es 0 = Some k"
    using locate_distinct [OF d e(2)] unfolding e(1) id .
  then show ?thesis
    using e(1) by (intro exI [of _ k])
      (simp add: LocateTest_request [OF bbb_ready] bbb_entries registration_def init_entry_def INVOKE_TEST_WITH_PARAM_ENTRY_def)
qed

theorem bbb_tests_found_witness:
  "\<exists>k. LocateTest (CalculateTestIdHash ''GPIO_test_GPIO0_OUTPUT_DISABLE'') (power_on (bbb_image bench_env) AM335X_BBB bench_io) =
      (Some k, request (power_on (bbb_image bench_env) AM335X_BBB bench_io)) \<and>
    registration (entries (request (power_on (bbb_image bench_env) AM335X_BBB bench_io)) am335x_bbb ! k) =
      (''GPIO Output Disable'', ''GPIO_test_GPIO0_OUTPUT_DISABLE'', Some (enter bench_env GPIO_fn), Some (gpio_output 0))"
proof -
  let ?i = "INVOKE_TEST_WITH_PARAM ''GPIO Output Disable'' GPIO_fn ''GPIO0_OUTPUT_DISABLE'' (gpio_output 0)"
  have "?i \<in> set bbb_tests" by (simp add: bbb_tests_def)
  from bbb_tests_found [OF this, of bench_env bench_io] show ?thesis
    by (simp add: INVOKE_TEST_WITH_PARAM_def inv_name_def)
qed

end
