(* ===== verification/Crc32.thy ===== *)
theory Crc32
  imports Ebbtf_Prelude
begin

text \<open>
  The CRC of the environment and of images: \<^verbatim>\<open>u-boot/lib/crc32.c\<close> on a little-endian processor. A buffer is the list
  of its bytes and its address. The routine reads single bytes up to the first word boundary, then words, then the
  remaining bytes; it is shown to be the bit-serial division by the polynomial, and to notice every change of one byte.
\<close>

subsection \<open>The table\<close>

definition crc_poly_terms :: "nat list" where
  "crc_poly_terms = [0, 1, 2, 4, 5, 7, 8, 10, 11, 12, 16, 22, 23, 26]"

definition crc_poly :: u32 where
  "crc_poly = fold (\<lambda>p poly. poly OR push_bit (31 - p) 1) crc_poly_terms 0"

definition crc_shift :: "u32 \<Rightarrow> u32 \<Rightarrow> u32" where
  "crc_shift poly c = (if c AND 1 \<noteq> 0 then poly XOR drop_bit 1 c else drop_bit 1 c)"

definition make_crc_table :: "u32 list" where
  "make_crc_table = map (\<lambda>n. (crc_shift crc_poly ^^ 8) (of_nat n)) [0..<256]"

definition crc_table :: "u32 list" where
  "crc_table =
    [0x00000000, 0x77073096, 0xee0e612c, 0x990951ba, 0x076dc419, 0x706af48f, 0xe963a535, 0x9e6495a3,
     0x0edb8832, 0x79dcb8a4, 0xe0d5e91e, 0x97d2d988, 0x09b64c2b, 0x7eb17cbd, 0xe7b82d07, 0x90bf1d91,
     0x1db71064, 0x6ab020f2, 0xf3b97148, 0x84be41de, 0x1adad47d, 0x6ddde4eb, 0xf4d4b551, 0x83d385c7,
     0x136c9856, 0x646ba8c0, 0xfd62f97a, 0x8a65c9ec, 0x14015c4f, 0x63066cd9, 0xfa0f3d63, 0x8d080df5,
     0x3b6e20c8, 0x4c69105e, 0xd56041e4, 0xa2677172, 0x3c03e4d1, 0x4b04d447, 0xd20d85fd, 0xa50ab56b,
     0x35b5a8fa, 0x42b2986c, 0xdbbbc9d6, 0xacbcf940, 0x32d86ce3, 0x45df5c75, 0xdcd60dcf, 0xabd13d59,
     0x26d930ac, 0x51de003a, 0xc8d75180, 0xbfd06116, 0x21b4f4b5, 0x56b3c423, 0xcfba9599, 0xb8bda50f,
     0x2802b89e, 0x5f058808, 0xc60cd9b2, 0xb10be924, 0x2f6f7c87, 0x58684c11, 0xc1611dab, 0xb6662d3d,
     0x76dc4190, 0x01db7106, 0x98d220bc, 0xefd5102a, 0x71b18589, 0x06b6b51f, 0x9fbfe4a5, 0xe8b8d433,
     0x7807c9a2, 0x0f00f934, 0x9609a88e, 0xe10e9818, 0x7f6a0dbb, 0x086d3d2d, 0x91646c97, 0xe6635c01,
     0x6b6b51f4, 0x1c6c6162, 0x856530d8, 0xf262004e, 0x6c0695ed, 0x1b01a57b, 0x8208f4c1, 0xf50fc457,
     0x65b0d9c6, 0x12b7e950, 0x8bbeb8ea, 0xfcb9887c, 0x62dd1ddf, 0x15da2d49, 0x8cd37cf3, 0xfbd44c65,
     0x4db26158, 0x3ab551ce, 0xa3bc0074, 0xd4bb30e2, 0x4adfa541, 0x3dd895d7, 0xa4d1c46d, 0xd3d6f4fb,
     0x4369e96a, 0x346ed9fc, 0xad678846, 0xda60b8d0, 0x44042d73, 0x33031de5, 0xaa0a4c5f, 0xdd0d7cc9,
     0x5005713c, 0x270241aa, 0xbe0b1010, 0xc90c2086, 0x5768b525, 0x206f85b3, 0xb966d409, 0xce61e49f,
     0x5edef90e, 0x29d9c998, 0xb0d09822, 0xc7d7a8b4, 0x59b33d17, 0x2eb40d81, 0xb7bd5c3b, 0xc0ba6cad,
     0xedb88320, 0x9abfb3b6, 0x03b6e20c, 0x74b1d29a, 0xead54739, 0x9dd277af, 0x04db2615, 0x73dc1683,
     0xe3630b12, 0x94643b84, 0x0d6d6a3e, 0x7a6a5aa8, 0xe40ecf0b, 0x9309ff9d, 0x0a00ae27, 0x7d079eb1,
     0xf00f9344, 0x8708a3d2, 0x1e01f268, 0x6906c2fe, 0xf762575d, 0x806567cb, 0x196c3671, 0x6e6b06e7,
     0xfed41b76, 0x89d32be0, 0x10da7a5a, 0x67dd4acc, 0xf9b9df6f, 0x8ebeeff9, 0x17b7be43, 0x60b08ed5,
     0xd6d6a3e8, 0xa1d1937e, 0x38d8c2c4, 0x4fdff252, 0xd1bb67f1, 0xa6bc5767, 0x3fb506dd, 0x48b2364b,
     0xd80d2bda, 0xaf0a1b4c, 0x36034af6, 0x41047a60, 0xdf60efc3, 0xa867df55, 0x316e8eef, 0x4669be79,
     0xcb61b38c, 0xbc66831a, 0x256fd2a0, 0x5268e236, 0xcc0c7795, 0xbb0b4703, 0x220216b9, 0x5505262f,
     0xc5ba3bbe, 0xb2bd0b28, 0x2bb45a92, 0x5cb36a04, 0xc2d7ffa7, 0xb5d0cf31, 0x2cd99e8b, 0x5bdeae1d,
     0x9b64c2b0, 0xec63f226, 0x756aa39c, 0x026d930a, 0x9c0906a9, 0xeb0e363f, 0x72076785, 0x05005713,
     0x95bf4a82, 0xe2b87a14, 0x7bb12bae, 0x0cb61b38, 0x92d28e9b, 0xe5d5be0d, 0x7cdcefb7, 0x0bdbdf21,
     0x86d3d2d4, 0xf1d4e242, 0x68ddb3f8, 0x1fda836e, 0x81be16cd, 0xf6b9265b, 0x6fb077e1, 0x18b74777,
     0x88085ae6, 0xff0f6a70, 0x66063bca, 0x11010b5c, 0x8f659eff, 0xf862ae69, 0x616bffd3, 0x166ccf45,
     0xa00ae278, 0xd70dd2ee, 0x4e048354, 0x3903b3c2, 0xa7672661, 0xd06016f7, 0x4969474d, 0x3e6e77db,
     0xaed16a4a, 0xd9d65adc, 0x40df0b66, 0x37d83bf0, 0xa9bcae53, 0xdebb9ec5, 0x47b2cf7f, 0x30b5ffe9,
     0xbdbdf21c, 0xcabac28a, 0x53b39330, 0x24b4a3a6, 0xbad03605, 0xcdd70693, 0x54de5729, 0x23d967bf,
     0xb3667a2e, 0xc4614ab8, 0x5d681b02, 0x2a6f2b94, 0xb40bbe37, 0xc30c8ea1, 0x5a05df1b, 0x2d02ef8d]"

subsection \<open>The checksum\<close>

definition DO_CRC :: "u32 \<Rightarrow> u32 \<Rightarrow> u32" where
  "DO_CRC x crc = crc_table ! unat ((crc XOR x) AND 255) XOR drop_bit 8 crc"

text \<open>The loop up to the first word boundary; it is entered with at least one byte.\<close>

fun align_loop :: "u32 \<Rightarrow> u8 list \<Rightarrow> u32 \<Rightarrow> u8 list \<times> u32" where
  "align_loop p [] crc = ([], crc)"
| "align_loop p (b # bs) crc =
     (let crc = DO_CRC (ucast b) crc; p = p + 1
      in if bs \<noteq> [] \<and> p AND 3 \<noteq> 0 then align_loop p bs crc else (bs, crc))"

fun word_loop :: "u8 list \<Rightarrow> u32 \<Rightarrow> u8 list \<times> u32" where
  "word_loop (b0 # b1 # b2 # b3 # bs) crc =
     (let w = ucast b0 OR push_bit 8 (ucast b1) OR push_bit 16 (ucast b2) OR push_bit 24 (ucast b3)
      in word_loop bs (DO_CRC 0 (DO_CRC 0 (DO_CRC 0 (DO_CRC 0 (crc XOR w))))))"
| "word_loop bs crc = (bs, crc)"

definition crc32_no_comp :: "u32 \<Rightarrow> u32 \<Rightarrow> u8 list \<Rightarrow> u32" where
  "crc32_no_comp crc addr bytes =
     (let (bytes, crc) = (if addr AND 3 \<noteq> 0 \<and> bytes \<noteq> [] then align_loop addr bytes crc else (bytes, crc));
          (bytes, crc) = word_loop bytes crc
      in foldl (\<lambda>crc b. DO_CRC (ucast b) crc) crc bytes)"

definition crc32 :: "u32 \<Rightarrow> u32 \<Rightarrow> u8 list \<Rightarrow> u32" where
  "crc32 crc addr p = crc32_no_comp (crc XOR 0xffffffff) addr p XOR 0xffffffff"

text \<open>With a watchdog; a chunk size of 0 never comes to the end of the buffer.\<close>

partial_function (option) crc32_wd :: "u32 \<Rightarrow> u32 \<Rightarrow> u8 list \<Rightarrow> nat \<Rightarrow> u32 option" where
  "crc32_wd crc addr buf chunk_sz =
     (if buf = [] then Some crc
      else let chunk = min (length buf) chunk_sz
        in crc32_wd (crc32 crc addr (take chunk buf)) (addr + of_nat chunk) (drop chunk buf) chunk_sz)"

subsection \<open>Bit-serial division\<close>

text \<open>One byte: it is added to the register, which is then shifted eight times.\<close>

definition crc_byte :: "u32 \<Rightarrow> u8 \<Rightarrow> u32" where
  "crc_byte crc b = (crc_shift crc_poly ^^ 8) (crc XOR ucast b)"

abbreviation crc8 :: "u32 \<Rightarrow> u32" where
  "crc8 \<equiv> crc_shift crc_poly ^^ 8"

lemma crc_poly_value: "crc_poly = 0xedb88320"
  by code_simp

lemma crc_shift_bit: "crc_shift p c = (if bit c 0 then p XOR drop_bit 1 c else drop_bit 1 c)"
  by (simp add: crc_shift_def and_one_eq bit_0 mod2_eq_if)

lemma crc_shift_xor: "crc_shift p (a XOR b) = crc_shift p a XOR crc_shift p b"
  by (auto simp: crc_shift_bit bit_xor_iff intro!: bit_word_eqI simp: bit_simps)

lemma crc_shifts_xor: "(crc_shift p ^^ n) (a XOR b) = (crc_shift p ^^ n) a XOR (crc_shift p ^^ n) b"
  by (induction n) (simp_all add: crc_shift_xor)

text \<open>The entries for the indices with one more bit.\<close>

lemma add_power_xor:
  assumes "unat (w :: u32) < 2 ^ k"
  shows "w + 2 ^ k = w XOR 2 ^ k"
proof -
  have b: "bit w j \<Longrightarrow> j < k" for j using assms by (rule bit_less_power)
  have "w AND 2 ^ k = 0" "w OR 2 ^ k = w XOR 2 ^ k"
    by (auto intro!: bit_word_eqI simp: bit_simps dest: b)
  then show ?thesis by (simp add: disjunctive_add_eq_or)
qed

lemma of_nat_add_xor:
  assumes "n < 2 ^ k" "k < 32"
  shows "(of_nat (2 ^ k + n) :: u32) = of_nat n XOR of_nat (2 ^ k)"
proof -
  have "(2 :: nat) ^ k < 2 ^ 32" using assms(2) by (intro power_strict_increasing) simp_all
  then have "unat (of_nat n :: u32) < 2 ^ k" using assms(1) by (simp add: unat_of_nat)
  from add_power_xor [OF this] show ?thesis by (simp add: add.commute)
qed

lemma crc_double:
  assumes "k < 32"
  shows "map (\<lambda>n. (crc_shift p ^^ j) (of_nat n)) [0..<2 ^ Suc k] =
    map (\<lambda>n. (crc_shift p ^^ j) (of_nat n)) [0..<2 ^ k] @
    map (\<lambda>x. x XOR (crc_shift p ^^ j) (of_nat (2 ^ k))) (map (\<lambda>n. (crc_shift p ^^ j) (of_nat n)) [0..<2 ^ k])"
proof -
  have "[0..<2 ^ Suc k] = [0..<2 ^ k] @ map (\<lambda>n. 2 ^ k + n) [0..<2 ^ k]"
    by (rule nth_equalityI) (auto simp: nth_append)
  moreover have "(crc_shift p ^^ j) (of_nat (2 ^ k + n)) =
      (crc_shift p ^^ j) (of_nat n) XOR (crc_shift p ^^ j) (of_nat (2 ^ k))" if "n < 2 ^ k" for n
    unfolding of_nat_add_xor [OF that assms] by (rule crc_shifts_xor)
  ultimately show ?thesis by simp
qed

lemma crc_shift_power: "crc_shift p 2 = 1" "crc_shift p 4 = 2" "crc_shift p 8 = 4" "crc_shift p 16 = 8"
  "crc_shift p 32 = 16" "crc_shift p 64 = 32" "crc_shift p 128 = 64" "crc_shift p 1 = p"
  by (simp_all add: crc_shift_bit)

lemma crc_shift_values:
  "crc_shift crc_poly 0xedb88320 = 0x76dc4190" "crc_shift crc_poly 0x76dc4190 = 0x3b6e20c8"
  "crc_shift crc_poly 0x3b6e20c8 = 0x1db71064" "crc_shift crc_poly 0x1db71064 = 0x0edb8832"
  "crc_shift crc_poly 0x0edb8832 = 0x076dc419" "crc_shift crc_poly 0x076dc419 = 0xee0e612c"
  "crc_shift crc_poly 0xee0e612c = 0x77073096"
  unfolding crc_poly_value by code_simp+

lemma crc_units:
  "crc8 128 = 0xedb88320" "crc8 64 = 0x76dc4190" "crc8 32 = 0x3b6e20c8" "crc8 16 = 0x1db71064"
  "crc8 8 = 0x0edb8832" "crc8 4 = 0x076dc419" "crc8 2 = 0xee0e612c" "crc8 1 = 0x77073096"
proof -
  have swap: "crc8 (crc_shift crc_poly x) = crc_shift crc_poly (crc8 x)" for x by (simp add: funpow_swap1)
  show r7: "crc8 128 = 0xedb88320" by (simp add: numeral_eq_Suc crc_shift_power [unfolded numeral_eq_Suc] crc_poly_value)
  show r6: "crc8 64 = 0x76dc4190" using swap [of 128] by (simp only: crc_shift_power crc_shift_values r7)
  show r5: "crc8 32 = 0x3b6e20c8" using swap [of 64] by (simp only: crc_shift_power crc_shift_values r6)
  show r4: "crc8 16 = 0x1db71064" using swap [of 32] by (simp only: crc_shift_power crc_shift_values r5)
  show r3: "crc8 8 = 0x0edb8832" using swap [of 16] by (simp only: crc_shift_power crc_shift_values r4)
  show r2: "crc8 4 = 0x076dc419" using swap [of 8] by (simp only: crc_shift_power crc_shift_values r3)
  show r1: "crc8 2 = 0xee0e612c" using swap [of 4] by (simp only: crc_shift_power crc_shift_values r2)
  show "crc8 1 = 0x77073096" using swap [of 2] by (simp only: crc_shift_power crc_shift_values r1)
qed

lemma crc_entries:
  "k \<le> 8 \<Longrightarrow> map (\<lambda>n. crc8 (of_nat n)) [0..<2 ^ k] =
     fold (\<lambda>j es. es @ map (\<lambda>x. x XOR crc8 (of_nat (2 ^ j))) es) [0..<k] [0]"
proof (induction k)
  case 0
  have "(crc_shift p ^^ n) 0 = 0" for p n by (induction n) (simp_all add: crc_shift_bit)
  then show ?case by simp
next
  case (Suc k)
  then have "k < 32" "k \<le> 8" by simp_all
  then show ?case using crc_double [of k 8 crc_poly] Suc.IH by simp
qed

lemma crc_table_generated: "crc_table = make_crc_table"
proof -
  have "[0..<8] = [0, 1, 2, 3, 4, 5, 6, 7 :: nat]" by code_simp
  moreover have "fold (\<lambda>e es. es @ map (\<lambda>x. x XOR e) es)
      [0x77073096, 0xee0e612c, 0x076dc419, 0x0edb8832, 0x1db71064, 0x3b6e20c8, 0x76dc4190, 0xedb88320] [0] = crc_table"
    by (simp add: crc_table_def)
  ultimately show ?thesis
    using crc_entries [of 8] by (simp add: make_crc_table_def crc_units)
qed

subsection \<open>The table-driven steps\<close>

lemma crc_shift_high: "(\<And>j. bit a j \<Longrightarrow> n \<le> j) \<Longrightarrow> (crc_shift p ^^ n) a = drop_bit n a"
proof (induction n)
  case (Suc n)
  have "(crc_shift p ^^ n) a = drop_bit n a" by (rule Suc.IH) (use Suc.prems in \<open>auto dest: Suc_leD\<close>)
  moreover have "\<not> bit (drop_bit n a) 0" using Suc.prems [of n] by (auto simp: bit_simps)
  then have "crc_shift p (drop_bit n a) = drop_bit 1 (drop_bit n a)" by (simp only: crc_shift_bit if_False)
  ultimately show ?case by (simp add: drop_bit_drop_bit)
qed simp

lemma low_byte_split: "c = (c AND 255) XOR push_bit 8 (drop_bit 8 (c :: u32))"
proof (rule bit_word_eqI)
  have m: "(255 :: u32) = mask 8" by (simp add: mask_eq_exp_minus_1)
  fix n
  show "bit c n = bit ((c AND 255) XOR push_bit 8 (drop_bit 8 c)) n"
    unfolding m by (auto simp: bit_simps dest: bit_imp_le_length)
qed

lemma unat_low_byte: "unat ((c :: u32) AND 255) < 256"
proof -
  have "(c AND 255) = take_bit 8 c" by (simp add: take_bit_eq_mask mask_eq_exp_minus_1)
  moreover have "take_bit 8 (unat c) < 2 ^ 8" by (rule take_bit_nat_less_exp)
  ultimately show ?thesis by (simp add: unsigned_take_bit_eq)
qed

lemma crc_table_entry: "crc_table ! unat (c AND 255) = crc8 (c AND 255)"
  using unat_low_byte [of c] by (simp add: crc_table_generated make_crc_table_def)

lemma crc8_table: "crc8 c = crc_table ! unat (c AND 255) XOR drop_bit 8 c"
proof -
  let ?h = "push_bit 8 (drop_bit 8 c)"
  have "crc8 ?h = drop_bit 8 ?h" by (rule crc_shift_high) (auto simp: bit_simps)
  also have "\<dots> = drop_bit 8 c" by (rule bit_word_eqI) (auto simp: bit_simps dest: bit_imp_le_length)
  finally have h: "crc8 ?h = drop_bit 8 c" .
  have "crc8 c = crc8 ((c AND 255) XOR ?h)" using low_byte_split [of c] by simp
  also have "\<dots> = crc8 (c AND 255) XOR crc8 ?h" by (rule crc_shifts_xor)
  finally show ?thesis unfolding h crc_table_entry .
qed

lemma ucast_byte_bits: "bit (ucast (b :: u8) :: u32) j \<Longrightarrow> j < 8"
  by (auto simp: bit_simps dest: bit_imp_le_length)

lemma DO_CRC_byte: "DO_CRC (ucast b) crc = crc_byte crc b"
proof -
  have "drop_bit 8 (crc XOR ucast b) = drop_bit 8 crc"
    by (rule bit_word_eqI) (auto simp: bit_simps dest: bit_imp_le_length)
  then show ?thesis by (simp only: DO_CRC_def crc_byte_def crc8_table)
qed

lemma DO_CRC_0: "DO_CRC 0 crc = crc8 crc"
  by (simp only: DO_CRC_def crc8_table xor.right_neutral)

text \<open>A byte that is added eight shifts early is added to the shifted register.\<close>

lemma crc8_push:
  assumes "\<And>j. bit y j \<Longrightarrow> j < 24"
  shows "crc8 (c XOR push_bit 8 y) = crc8 c XOR y"
proof -
  have "crc8 (push_bit 8 y) = drop_bit 8 (push_bit 8 y)" by (rule crc_shift_high) (auto simp: bit_simps)
  also have "\<dots> = y" by (rule bit_word_eqI) (auto simp: bit_simps dest: assms)
  finally show ?thesis by (simp add: crc_shifts_xor)
qed

lemma word_bytes_xor:
  "ucast b0 OR push_bit 8 (ucast b1) OR push_bit 16 (ucast b2) OR push_bit 24 (ucast b3) =
   (ucast (b0 :: u8) :: u32) XOR push_bit 8 (ucast (b1 :: u8) XOR push_bit 8 (ucast (b2 :: u8) XOR push_bit 8 (ucast (b3 :: u8))))"
  by (rule bit_word_eqI) (auto simp: bit_simps dest: bit_imp_le_length)

lemma DO_CRC_word:
  "DO_CRC 0 (DO_CRC 0 (DO_CRC 0 (DO_CRC 0 (crc XOR
     (ucast b0 OR push_bit 8 (ucast b1) OR push_bit 16 (ucast b2) OR push_bit 24 (ucast b3)))))) =
   crc_byte (crc_byte (crc_byte (crc_byte crc b0) b1) b2) b3"
proof -
  have small: "j < 24" if "bit (ucast b1 XOR push_bit 8 (ucast b2 XOR push_bit 8 (ucast b3 :: u32)) :: u32) j" for j
    using that by (auto simp: bit_simps dest: bit_imp_le_length)
  have small2: "j < 24" if "bit (ucast b2 XOR push_bit 8 (ucast b3 :: u32) :: u32) j" for j
    using that by (auto simp: bit_simps dest: bit_imp_le_length)
  have small3: "j < 24" if "bit (ucast b3 :: u32) j" for j
    using that by (auto simp: bit_simps dest: bit_imp_le_length)
  show ?thesis
    unfolding DO_CRC_0 word_bytes_xor crc_byte_def xor.assoc [symmetric]
    by (simp only: crc8_push [OF small] crc8_push [OF small2] crc8_push [OF small3] xor.assoc [symmetric])
qed

lemma align_loop_serial:
  "align_loop p bs crc = (rest, crc') \<Longrightarrow> foldl crc_byte crc' rest = foldl crc_byte crc bs"
  by (induction p bs crc rule: align_loop.induct) (auto simp: DO_CRC_byte Let_def split: if_splits)

lemma word_loop_serial: "word_loop bs crc = (rest, crc') \<Longrightarrow> foldl crc_byte crc' rest = foldl crc_byte crc bs"
  by (induction bs crc rule: word_loop.induct) (auto simp: DO_CRC_word Let_def)

lemma crc32_no_comp_serial: "crc32_no_comp crc addr bs = foldl crc_byte crc bs"
proof -
  obtain b1 c1 where a: "(if addr AND 3 \<noteq> 0 \<and> bs \<noteq> [] then align_loop addr bs crc else (bs, crc)) = (b1, c1)"
    by (meson surj_pair)
  then have "foldl crc_byte c1 b1 = foldl crc_byte crc bs" by (auto split: if_splits dest: align_loop_serial)
  moreover obtain b2 c2 where w: "word_loop b1 c1 = (b2, c2)" by (meson surj_pair)
  moreover have "foldl (\<lambda>crc b. DO_CRC (ucast b) crc) c2 b2 = foldl crc_byte c2 b2" by (simp add: DO_CRC_byte)
  ultimately show ?thesis using word_loop_serial [OF w] by (simp add: crc32_no_comp_def a)
qed

subsection \<open>Properties\<close>

lemma crc_shift_kernel:
  assumes "crc_shift crc_poly d = 0"
  shows "d = 0"
proof (cases "bit d 0")
  case True
  then have "bit (crc_shift crc_poly d) 31 = (bit crc_poly 31 \<noteq> bit (drop_bit 1 d) 31)"
    by (simp only: crc_shift_bit if_True bit_xor_iff)
  moreover have "bit crc_poly 31" by code_simp
  moreover have "\<not> bit (drop_bit 1 d) 31" using bit_imp_le_length [of d 32] by (auto simp: bit_simps)
  ultimately show ?thesis using assms by simp
next
  case False
  then have z: "drop_bit 1 d = 0" using assms by (simp only: crc_shift_bit if_False)
  have "\<not> bit d n" for n
  proof (cases n)
    case (Suc k)
    have "bit (drop_bit 1 d) k = bit d (Suc k)" by (simp add: bit_simps)
    then show ?thesis using z Suc by simp
  qed (use False in simp)
  then show ?thesis by (intro bit_word_eqI) simp
qed

lemma crc_shifts_inj:
  assumes "(crc_shift crc_poly ^^ n) a = (crc_shift crc_poly ^^ n) b"
  shows "a = b"
proof -
  have z: "(crc_shift crc_poly ^^ n) d = 0 \<Longrightarrow> d = 0" for d by (induction n) (auto dest: crc_shift_kernel)
  have "(crc_shift crc_poly ^^ n) (a XOR b) = 0" using assms by (simp add: crc_shifts_xor)
  then have "a XOR b = 0" by (rule z)
  then have "(a XOR b) XOR b = 0 XOR b" by (rule arg_cong)
  then show ?thesis by (simp add: xor.assoc)
qed

lemma foldl_crc_inj: "foldl crc_byte c bs = foldl crc_byte c' bs \<Longrightarrow> c = c'"
proof (induction bs arbitrary: c c')
  case (Cons b bs)
  then have "crc_byte c b = crc_byte c' b" by simp
  then have "c XOR ucast b = c' XOR ucast b" unfolding crc_byte_def by (rule crc_shifts_inj)
  then have "(c XOR ucast b) XOR ucast b = (c' XOR ucast b) XOR ucast b" by simp
  then show ?case by (simp add: xor.assoc)
qed simp

lemma crc32_append: "crc32 (crc32 crc addr a) addr' b = crc32 crc addr (a @ b)"
  by (simp add: crc32_def crc32_no_comp_serial xor.assoc)

lemma crc32_addr: "crc32 crc addr bs = crc32 crc addr' bs"
  by (simp add: crc32_def crc32_no_comp_serial)

text \<open>With chunks that are not empty, the variant for the watchdog ends and gives the same checksum.\<close>

lemma crc32_wd_ends: "0 < chunk_sz \<Longrightarrow> crc32_wd crc addr buf chunk_sz = Some (crc32 crc addr buf)"
proof (induction buf arbitrary: crc addr rule: length_induct)
  case (1 buf)
  show ?case
  proof (cases "buf = []")
    case True
    then show ?thesis by (subst crc32_wd.simps) (simp add: crc32_def crc32_no_comp_serial xor.assoc)
  next
    case False
    let ?n = "min (length buf) chunk_sz"
    have "length (drop ?n buf) < length buf" using False 1(2) by auto
    then have "crc32_wd (crc32 crc addr (take ?n buf)) (addr + of_nat ?n) (drop ?n buf) chunk_sz =
        Some (crc32 (crc32 crc addr (take ?n buf)) (addr + of_nat ?n) (drop ?n buf))" using 1 by blast
    then show ?thesis using False
      by (subst crc32_wd.simps) (simp only: if_False Let_def crc32_append append_take_drop_id)
  qed
qed

text \<open>
  (C40) The table-driven checksum, which reads words wherever the buffer is aligned, is the bit-serial division by the
  polynomial: whatever the address and the length of the buffer, each byte is added to the register, which is then
  shifted eight times. The constant table is the one that \<open>make_crc_table\<close> generates.
\<close>

theorem crc32_bit_serial:
  "crc32 crc addr bs = foldl crc_byte (crc XOR 0xffffffff) bs XOR 0xffffffff \<and> crc_table = make_crc_table"
  by (simp only: crc32_def crc32_no_comp_serial crc_table_generated simp_thms)

text \<open>The checksum notices every change of a single byte, wherever it is in the buffer.\<close>

lemma crc32_byte_change:
  assumes "x \<noteq> y"
  shows "crc32 crc addr (a @ x # b) \<noteq> crc32 crc addr (a @ y # b)"
proof
  let ?c = "foldl crc_byte (crc XOR 0xffffffff) a"
  assume "crc32 crc addr (a @ x # b) = crc32 crc addr (a @ y # b)"
  then have "foldl crc_byte (crc_byte ?c x) b XOR 0xffffffff = foldl crc_byte (crc_byte ?c y) b XOR 0xffffffff"
    by (simp add: crc32_def crc32_no_comp_serial)
  then have "(foldl crc_byte (crc_byte ?c x) b XOR 0xffffffff) XOR 0xffffffff =
      (foldl crc_byte (crc_byte ?c y) b XOR 0xffffffff) XOR 0xffffffff" by simp
  then have "foldl crc_byte (crc_byte ?c x) b = foldl crc_byte (crc_byte ?c y) b" by (simp add: xor.assoc)
  then have "crc_byte ?c x = crc_byte ?c y" by (rule foldl_crc_inj)
  then have "?c XOR ucast x = ?c XOR ucast y" unfolding crc_byte_def by (rule crc_shifts_inj)
  then have "?c XOR (?c XOR ucast x) = ?c XOR (?c XOR ucast y)" by simp
  then have "(ucast x :: u32) = ucast y" by (simp add: xor.assoc [symmetric])
  then have b: "bit (ucast x :: u32) n = bit (ucast y :: u32) n" for n by simp
  have "x = y"
  proof (rule bit_word_eqI)
    fix n assume "n < LENGTH(8)"
    then show "bit x n = bit y n" using b [of n] by (simp add: bit_simps)
  qed
  then show False using assms by simp
qed

end
