(* ===== verification/NvEdit.thy ===== *)
theory NvEdit
  imports EnvText NetUtils Crc32 "HOL-Library.Monad_Syntax"
begin

text \<open>
  The environment as the commands see it: \<^verbatim>\<open>u-boot/cmd/nvedit.c\<close> and \<^verbatim>\<open>u-boot/env/common.c\<close>, on the hash table of
  \<open>EnvText\<close>. The state is that table, with what its functions print, and the variables and global flags of the two
  files. \<open>None\<close> is undefined behaviour. The default environment, its size and the reader of the environment before
  relocation are a parameter.
\<close>

datatype env_valid_t = ENV_INVALID | ENV_VALID | ENV_REDUND

record env_sys =
  ht :: hstate
  env_id :: u32
  env_valid :: env_valid_t
  GD_FLG_ENV_READY :: bool
  GD_FLG_ENV_DEFAULT :: bool
  env_flags_serial :: u8

record env_cfg =
  hooks :: env_hooks
  env_get_char :: "nat \<Rightarrow> int"
  CONFIG_ENV_SIZE :: nat
  ENV_SIZE :: nat
  default_environment :: string
  CONFIG_LOGLEVEL :: nat
  env_can_save :: bool

definition H_FORCE :: u32 where "H_FORCE = 0x2"
definition H_INTERACTIVE :: u32 where "H_INTERACTIVE = 0x4"
definition H_MATCH_BOTH :: u32 where "H_MATCH_BOTH = H_MATCH_KEY OR H_MATCH_DATA"
definition H_PROGRAMMATIC :: u32 where "H_PROGRAMMATIC = 0x200"

fun errno_code :: "errno option \<Rightarrow> u32" where
  "errno_code None = 0"
| "errno_code (Some EPERM) = 1"
| "errno_code (Some ESRCH) = 3"
| "errno_code (Some ENOMEM) = 12"
| "errno_code (Some EINVAL) = 22"

definition env_printf :: "string \<Rightarrow> va_arg list \<Rightarrow> env_sys \<Rightarrow> env_sys option" where
  "env_printf fmt args e = map_option (\<lambda>st. e\<lparr>ht := st\<rparr>) (hprintf fmt args (ht e))"

definition env_puts :: "string \<Rightarrow> env_sys \<Rightarrow> env_sys" where
  "env_puts s e = e\<lparr>ht := (ht e)\<lparr>printed := printed (ht e) @ s\<rparr>\<rparr>"

definition fail_with :: "int \<Rightarrow> env_sys option \<Rightarrow> (int \<times> env_sys) option" where
  "fail_with r e = map_option (Pair r) e"

subsection \<open>Before relocation\<close>

text \<open>\<open>Some None\<close> is -1; a name that is followed by the NUL of an entry makes the loop read behind the name.\<close>

fun env_match :: "(nat \<Rightarrow> int) \<Rightarrow> string \<Rightarrow> nat \<Rightarrow> nat option option" where
  "env_match gc [] i2 =
     (if gc i2 = 0 then None else if gc i2 = of_char (CHR ''='') then Some (Some (i2 + 1)) else Some None)"
| "env_match gc (c # s1) i2 =
     (if of_char c = gc i2 then if c = CHR ''='' then Some (Some (i2 + 1)) else env_match gc s1 (i2 + 1)
      else Some None)"

text \<open>The inner loop: the end of the entry, or the error that is returned.\<close>

function find_nul :: "(nat \<Rightarrow> int) \<Rightarrow> nat \<Rightarrow> nat \<Rightarrow> int + nat" where
  "find_nul gc sz nxt =
     (let c = gc nxt in
      if c = 0 then Inr nxt else if c < 0 then Inl c else if nxt \<ge> sz then Inl (- 1) else find_nul gc sz (nxt + 1))"
  by auto
termination
  by (relation "measure (\<lambda>(gc, sz, nxt). sz - nxt)") auto

declare find_nul.simps [simp del]

lemma find_nul_bounds: "find_nul gc sz nxt = Inr n \<Longrightarrow> nxt \<le> n \<and> (nxt \<le> sz \<longrightarrow> n \<le> sz)"
  by (induction gc sz nxt rule: find_nul.induct) (subst (asm) (2) find_nul.simps, fastforce simp: Let_def split: if_splits)

text \<open>The loop that copies out the value: the characters and \<open>Inr\<close> the count, or \<open>Inl\<close> the error.\<close>

fun copy_value :: "(nat \<Rightarrow> int) \<Rightarrow> nat \<Rightarrow> nat \<Rightarrow> string \<Rightarrow> string \<times> (int + bool)" where
  "copy_value gc val 0 acc = (acc, Inr False)"
| "copy_value gc val (Suc n) acc =
     (let c = gc val in
      if c < 0 then (acc, Inl c)
      else if c = 0 then (acc @ [NUL], Inr True)
      else copy_value gc (val + 1) n (acc @ [char_of (nat c)]))"

function env_get_f :: "(nat \<Rightarrow> int) \<Rightarrow> nat \<Rightarrow> nat \<Rightarrow> string \<Rightarrow> nat \<Rightarrow> env_sys \<Rightarrow> (int \<times> string \<times> env_sys) option" where
  "env_get_f gc sz i name len e =
     (if gc i = 0 then Some (- 1, [], e)
      else case find_nul gc sz i of
        Inl err \<Rightarrow> Some (err, [], e)
      | Inr nxt \<Rightarrow>
          (case env_match gc name i of
             None \<Rightarrow> None
           | Some None \<Rightarrow> env_get_f gc sz (nxt + 1) name len e
           | Some (Some val) \<Rightarrow>
               (case copy_value gc val len [] of
                  (buf, Inl err) \<Rightarrow> Some (err, buf, e)
                | (buf, Inr True) \<Rightarrow> Some (int (length buf) - 1, buf, e)
                | (buf, Inr False) \<Rightarrow>
                    map_option (\<lambda>e. (int len, butlast buf @ [NUL], e))
                      (env_printf ''env_buf [%u bytes] too small for value of \"%s\"\<newline>''
                         [VInt (of_nat len), VStr (Some name)] e))))"
  by auto
termination
proof (relation "measure (\<lambda>(gc, sz, i, name, len, e). sz + 1 - i)")
  fix gc :: "nat \<Rightarrow> int" and sz i name len e nxt
  assume "gc i \<noteq> 0" "find_nul gc sz i = Inr nxt"
  then have "i < sz" by (subst (asm) find_nul.simps) (auto simp: Let_def split: if_splits)
  moreover have "i \<le> nxt" using find_nul_bounds [OF \<open>find_nul gc sz i = Inr nxt\<close>] by simp
  ultimately show "((gc, sz, nxt + 1, name, len, e), (gc, sz, i, name, len, e)) \<in>
      measure (\<lambda>(gc, sz, i, name, len, e). sz + 1 - i)" by simp
qed simp

declare env_get_f.simps [simp del]

subsection \<open>Looking up variables\<close>

definition ENV_BUF_SIZE :: nat where "ENV_BUF_SIZE = 32"

text \<open>The entry a search returns.\<close>

definition found_entry :: "nat option \<Rightarrow> hstate \<Rightarrow> env_entry option option" where
  "found_entry ep st = (case ep of None \<Rightarrow> Some None | Some idx \<Rightarrow> map_option (\<lambda>nd. Some (entry nd)) (node st idx))"

definition env_find :: "env_cfg \<Rightarrow> string \<Rightarrow> u32 \<Rightarrow> env_sys \<Rightarrow> (env_entry option \<times> env_sys) option" where
  "env_find cfg name flag e =
     do { (_, ep, st) \<leftarrow> hsearch_r (hooks cfg) name None ENV_FIND flag (ht e);
          r \<leftarrow> found_entry ep st;
          Some (r, e\<lparr>ht := st\<rparr>) }"

definition env_get :: "env_cfg \<Rightarrow> string \<Rightarrow> env_sys \<Rightarrow> (string option \<times> env_sys) option" where
  "env_get cfg name e =
     (if GD_FLG_ENV_READY e then
        do { (ep, e) \<leftarrow> env_find cfg name 0 e;
             Some (Option.bind ep data, e) }
      else
        do { (n, buf, e) \<leftarrow> env_get_f (env_get_char cfg) (CONFIG_ENV_SIZE cfg) 0 name ENV_BUF_SIZE e;
             Some (if n > 0 then Some (cstr buf) else None, e) })"

definition from_env :: "env_cfg \<Rightarrow> string \<Rightarrow> env_sys \<Rightarrow> (string option \<times> env_sys) option" where
  "from_env cfg envvar e =
     do { (ret, e) \<leftarrow> env_get cfg envvar e;
          e \<leftarrow> (if ret = None then env_printf ''missing environment variable: %s\<newline>'' [VStr (Some envvar)] e else Some e);
          Some (ret, e) }"

definition env_get_hex :: "env_cfg \<Rightarrow> string \<Rightarrow> u32 \<Rightarrow> env_sys \<Rightarrow> (u32 \<times> env_sys) option" where
  "env_get_hex cfg varname default_val e =
     do { (s, e) \<leftarrow> env_get cfg varname e;
          Some (case s of None \<Rightarrow> default_val
                | Some s \<Rightarrow> (let (val, endp) = simple_strtoul s 16 in if endp = s then default_val else val), e) }"

definition env_get_ulong :: "env_cfg \<Rightarrow> string \<Rightarrow> u32 \<Rightarrow> u32 \<Rightarrow> env_sys \<Rightarrow> (u32 \<times> env_sys) option" where
  "env_get_ulong cfg name base default_val e =
     do { (str, e) \<leftarrow> env_get cfg name e;
          Some (case str of None \<Rightarrow> default_val | Some s \<Rightarrow> fst (simple_strtoul s base), e) }"

definition env_get_yesno :: "env_cfg \<Rightarrow> string \<Rightarrow> env_sys \<Rightarrow> (int \<times> env_sys) option" where
  "env_get_yesno cfg var e =
     do { (s, e) \<leftarrow> env_get cfg var e;
          Some (case s of None \<Rightarrow> - 1
                | Some s \<Rightarrow> if ch_at s 0 \<in> {CHR ''1'', CHR ''y'', CHR ''Y'', CHR ''t'', CHR ''T''} then 1 else 0, e) }"

text \<open>With the flags of an environment that is not valid; they are restored afterwards.\<close>

definition env_get_default :: "env_cfg \<Rightarrow> string \<Rightarrow> env_sys \<Rightarrow> (string option \<times> env_sys) option" where
  "env_get_default cfg name e =
     do { (ret_val, e') \<leftarrow> env_get cfg name (e\<lparr>GD_FLG_ENV_READY := False, env_valid := ENV_INVALID\<rparr>);
          Some (ret_val, e'\<lparr>env_valid := env_valid e, GD_FLG_ENV_READY := GD_FLG_ENV_READY e,
                            GD_FLG_ENV_DEFAULT := GD_FLG_ENV_DEFAULT e\<rparr>) }"

subsection \<open>Changing variables\<close>

text \<open>The options in front of the name; \<open>None\<close> is the return of \<open>CMD_RET_USAGE\<close>.\<close>

primrec force_options :: "string list \<Rightarrow> u32 \<Rightarrow> (string list \<times> u32) option" where
  "force_options [] env_flag = Some ([], env_flag)"
| "force_options (arg # args) env_flag =
     (if ch_at arg 0 \<noteq> CHR ''-'' then Some (arg # args, env_flag)
      else if list_all (\<lambda>c. c = CHR ''f'') (drop 1 arg) then
        force_options args (if drop 1 arg = [] then env_flag else env_flag OR H_FORCE)
      else None)"

fun join_args :: "string list \<Rightarrow> string" where
  "join_args [] = []"
| "join_args [v] = v"
| "join_args (v # vs) = v @ '' '' @ join_args vs"

definition CMD_USAGE :: int where "CMD_USAGE = - 1"

definition enter_value :: "env_cfg \<Rightarrow> string \<Rightarrow> string list \<Rightarrow> u32 \<Rightarrow> env_sys \<Rightarrow> (int \<times> env_sys) option" where
  "enter_value cfg name vals env_flag e =
     (let (ok, st) = alloc (ht e); e = e\<lparr>ht := st\<rparr> in
      if \<not> ok then
        fail_with 1 (env_printf ''## Can't malloc %d bytes\<newline>'' [VInt (of_nat (length (join_args vals) + 1))] e)
      else
        do { (_, ep, st) \<leftarrow> hsearch_r (hooks cfg) name (Some (join_args vals)) ENV_ENTER env_flag (ht e);
             let e = e\<lparr>ht := st\<rparr>;
             if ep = None then
               fail_with 1 (env_printf ''## Error inserting \"%s\" variable, errno=%d\<newline>''
                 [VStr (Some name), VInt (errno_code (errno st))] e)
             else Some (0, e) })"

text \<open>
  \<open>_do_env_set\<close>; the first of the arguments is the name of the command. When options are all there is, the
  name is the NULL behind the arguments.
\<close>

definition do_env_set0 :: "env_cfg \<Rightarrow> string list \<Rightarrow> u32 \<Rightarrow> env_sys \<Rightarrow> (int \<times> env_sys) option" where
  "do_env_set0 cfg argv env_flag e =
     (case force_options (drop 1 argv) env_flag of
        None \<Rightarrow> Some (CMD_USAGE, e)
      | Some ([], _) \<Rightarrow> None
      | Some (name # vals, env_flag) \<Rightarrow>
          if strchr name (CHR ''='') \<noteq> None then
            fail_with 1 (env_printf ''## Error: illegal character '='in variable name \"%s\"\<newline>'' [VStr (Some name)] e)
          else
            let e = e\<lparr>env_id := env_id e + 1\<rparr> in
            if vals = [] then
              do { (rc, st) \<leftarrow> hdelete_r (hooks cfg) name env_flag (ht e);
                   Some (if rc = 0 then 1 else 0, e\<lparr>ht := st\<rparr>) }
            else enter_value cfg name vals env_flag e)"

definition env_set :: "env_cfg \<Rightarrow> string \<Rightarrow> string option \<Rightarrow> env_sys \<Rightarrow> (int \<times> env_sys) option" where
  "env_set cfg varname varvalue e =
     (if \<not> GD_FLG_ENV_READY e then Some (1, e)
      else case varvalue of
        None \<Rightarrow> do_env_set0 cfg [''setenv'', varname] H_PROGRAMMATIC e
      | Some v \<Rightarrow>
          if v = [] then do_env_set0 cfg [''setenv'', varname] H_PROGRAMMATIC e
          else do_env_set0 cfg [''setenv'', varname, v] H_PROGRAMMATIC e)"

definition env_set_ulong :: "env_cfg \<Rightarrow> string \<Rightarrow> u32 \<Rightarrow> env_sys \<Rightarrow> (int \<times> env_sys) option" where
  "env_set_ulong cfg varname val e = env_set cfg varname (Some (simple_itoa val)) e"

definition env_set_hex :: "env_cfg \<Rightarrow> string \<Rightarrow> u32 \<Rightarrow> env_sys \<Rightarrow> (int \<times> env_sys) option" where
  "env_set_hex cfg varname val e =
     do { (_, str) \<leftarrow> sprintf 0 (replicate 17 NUL) ''%lx'' [VInt val];
          env_set cfg varname (Some (cstr str)) e }"

definition do_env_set :: "env_cfg \<Rightarrow> string list \<Rightarrow> env_sys \<Rightarrow> (int \<times> env_sys) option" where
  "do_env_set cfg argv e = (if length argv < 2 then Some (CMD_USAGE, e) else do_env_set0 cfg argv H_INTERACTIVE e)"

fun delete_loop :: "env_cfg \<Rightarrow> string list \<Rightarrow> u32 \<Rightarrow> int \<Rightarrow> env_sys \<Rightarrow> (int \<times> env_sys) option" where
  "delete_loop cfg [] env_flag ret e = Some (ret, e)"
| "delete_loop cfg (name # names) env_flag ret e =
     do { (rc, st) \<leftarrow> hdelete_r (hooks cfg) name env_flag (ht e);
          delete_loop cfg names env_flag (if rc = 0 then 1 else ret) (e\<lparr>ht := st\<rparr>) }"

definition do_env_delete :: "env_cfg \<Rightarrow> string list \<Rightarrow> env_sys \<Rightarrow> (int \<times> env_sys) option" where
  "do_env_delete cfg argv e =
     (case force_options (drop 1 argv) H_INTERACTIVE of
        None \<Rightarrow> Some (CMD_USAGE, e)
      | Some (names, env_flag) \<Rightarrow> delete_loop cfg names env_flag 0 (e\<lparr>env_id := env_id e + 1\<rparr>))"

definition do_env_exists :: "env_cfg \<Rightarrow> string list \<Rightarrow> env_sys \<Rightarrow> (int \<times> env_sys) option" where
  "do_env_exists cfg argv e =
     (if length argv < 2 then Some (CMD_USAGE, e)
      else do { (ep, e) \<leftarrow> env_find cfg (argv ! 1) 0 e;
                Some (if ep = None then 1 else 0, e) })"

subsection \<open>Ethernet addresses in variables\<close>

definition is_zero_ethaddr :: "u8 list \<Rightarrow> bool" where
  "is_zero_ethaddr addr \<longleftrightarrow> addr ! 0 OR addr ! 1 OR addr ! 2 OR addr ! 3 OR addr ! 4 OR addr ! 5 = 0"

definition is_multicast_ethaddr :: "u8 list \<Rightarrow> bool" where
  "is_multicast_ethaddr addr \<longleftrightarrow> 0x01 AND addr ! 0 \<noteq> 0"

definition is_valid_ethaddr :: "u8 list \<Rightarrow> bool" where
  "is_valid_ethaddr addr \<longleftrightarrow> \<not> is_multicast_ethaddr addr \<and> \<not> is_zero_ethaddr addr"

definition EEXIST :: int where "EEXIST = 17"

definition eth_env_get_enetaddr :: "env_cfg \<Rightarrow> string \<Rightarrow> env_sys \<Rightarrow> (bool \<times> u8 list \<times> env_sys) option" where
  "eth_env_get_enetaddr cfg name e =
     do { (s, e) \<leftarrow> env_get cfg name e;
          let enetaddr = string_to_enetaddr s;
          Some (is_valid_ethaddr enetaddr, enetaddr, e) }"

definition eth_env_set_enetaddr :: "env_cfg \<Rightarrow> string \<Rightarrow> u32 \<Rightarrow> u8 list \<Rightarrow> env_sys \<Rightarrow> (int \<times> env_sys) option" where
  "eth_env_set_enetaddr cfg name addr enetaddr e =
     do { (valid, _, e) \<leftarrow> eth_env_get_enetaddr cfg name e;
          if valid then Some (- EEXIST, e)
          else do { (_, buf) \<leftarrow> sprintf 0 (replicate 18 NUL) ''%pM'' [VPtr addr enetaddr];
                    env_set cfg name (Some (cstr buf)) e } }"

subsection \<open>Printing variables\<close>

definition env_print :: "string option \<Rightarrow> env_cfg \<Rightarrow> u32 \<Rightarrow> env_sys \<Rightarrow> (int \<times> env_sys) option" where
  "env_print name cfg flag e =
     (case name of
        Some nm \<Rightarrow>
          do { (ep, e) \<leftarrow> env_find cfg nm flag e;
               case ep of
                 None \<Rightarrow> Some (0, e)
               | Some ent \<Rightarrow>
                   do { e' \<leftarrow> env_printf ''%s=%s\<newline>'' [VStr (key ent), VStr (data ent)] e;
                        Some (int (length (printed (ht e')) - length (printed (ht e))), e') } }
      | None \<Rightarrow>
          do { (len, res, st) \<leftarrow> hexport_r CHR 0x0A flag None 0 [] (ht e);
               let e = e\<lparr>ht := st\<rparr>;
               if len > 0 then
                 case res of None \<Rightarrow> None | Some res \<Rightarrow> Some (len, env_puts (cstr res) e)
               else fail_with 0 (env_printf ''## Error: cannot export environment\<newline>'' [] e) })"

primrec print_names :: "env_cfg \<Rightarrow> u32 \<Rightarrow> string list \<Rightarrow> int \<Rightarrow> env_sys \<Rightarrow> (int \<times> env_sys) option" where
  "print_names cfg flag [] rcode e = Some (rcode, e)"
| "print_names cfg flag (name # names) rcode e =
     do { (rc, e) \<leftarrow> env_print (Some name) cfg flag e;
          if rc = 0 then
            do { e \<leftarrow> env_printf ''## Error: \"%s\" not defined\<newline>'' [VStr (Some name)] e;
                 print_names cfg flag names (rcode + 1) e }
          else print_names cfg flag names rcode e }"

definition do_env_print :: "env_cfg \<Rightarrow> string list \<Rightarrow> env_sys \<Rightarrow> (int \<times> env_sys) option" where
  "do_env_print cfg argv e =
     (let everything = (length argv > 1 \<and> ch_at (argv ! 1) 0 = CHR ''-'' \<and> ch_at (argv ! 1) 1 = CHR ''a'');
          argv = (if everything then drop 1 argv else argv);
          env_flag = (if everything then 0 else H_HIDE_DOT)
      in
      if length argv = 1 then
        do { (rcode, e) \<leftarrow> env_print None cfg env_flag e;
             if rcode = 0 then Some (1, e)
             else fail_with 0 (env_printf ''\<newline>Environment size: %d/%ld bytes\<newline>''
                    [VInt (of_int rcode), VInt (of_nat (ENV_SIZE cfg))] e) }
      else print_names cfg 0 (drop 1 argv) 0 e)"

text \<open>
  The options of \<open>grepenv\<close>: \<open>None\<close> is the usage error. The argument with the option \<open>-\<close> ends them and is
  itself the first of the patterns.
\<close>

fun grep_letters :: "string \<Rightarrow> u32 \<Rightarrow> (bool \<times> u32) option" where
  "grep_letters [] what = Some (False, what)"
| "grep_letters (c # cs) what =
     (if c = CHR ''n'' then grep_letters cs H_MATCH_KEY
      else if c = CHR ''v'' then grep_letters cs H_MATCH_DATA
      else if c = CHR ''b'' then grep_letters cs H_MATCH_BOTH
      else if c = CHR ''-'' then Some (True, what)
      else None)"

primrec grep_options :: "string list \<Rightarrow> u32 \<Rightarrow> (string list \<times> u32) option" where
  "grep_options [] what = Some ([], what)"
| "grep_options (arg # args) what =
     (if ch_at arg 0 \<noteq> CHR ''-'' then Some (arg # args, what)
      else do { (stop, what) \<leftarrow> grep_letters (drop 1 arg) what;
                if stop then Some (arg # args, what) else grep_options args what })"

definition do_env_grep :: "u32 \<Rightarrow> string list \<Rightarrow> env_sys \<Rightarrow> (int \<times> env_sys) option" where
  "do_env_grep flag argv e =
     (if length argv < 2 then Some (CMD_USAGE, e)
      else case grep_options (drop 1 argv) H_MATCH_BOTH of
        None \<Rightarrow> Some (CMD_USAGE, e)
      | Some (pats, grep_what) \<Rightarrow>
          do { (len, res, st) \<leftarrow> hexport_r CHR 0x0A (flag OR grep_what OR H_MATCH_SUBSTR) None 0 pats (ht e);
               let e = e\<lparr>ht := st\<rparr>;
               e \<leftarrow> (if len > 0 then map_option (\<lambda>res. env_puts (cstr res) e) res else Some e);
               Some (if len < 2 then 1 else 0, e) })"

subsection \<open>The default environment, import and export\<close>

definition pr_err :: "env_cfg \<Rightarrow> string \<Rightarrow> va_arg list \<Rightarrow> env_sys \<Rightarrow> env_sys option" where
  "pr_err cfg fmt args e = (if 3 < CONFIG_LOGLEVEL cfg then env_printf fmt args e else Some e)"

definition ENOMSG :: int where "ENOMSG = 42"
definition EIO :: int where "EIO = 5"

definition env_import_text :: "env_cfg \<Rightarrow> string \<Rightarrow> nat \<Rightarrow> u32 \<Rightarrow> string list \<Rightarrow> env_sys \<Rightarrow> (nat \<times> env_sys) option" where
  "env_import_text cfg txt n fl vars e =
     map_option (\<lambda>(r, st). (r, e\<lparr>ht := st\<rparr>)) (himport_r (hooks cfg) txt n NUL fl False vars (ht e))"

definition env_set_default :: "env_cfg \<Rightarrow> string option \<Rightarrow> u32 \<Rightarrow> env_sys \<Rightarrow> env_sys option" where
  "env_set_default cfg s fl e =
     (if length (default_environment cfg) > ENV_SIZE cfg then
        Some (env_puts ''*** Error - default environment is too large\<newline>\<newline>'' e)
      else
        do { e \<leftarrow> (case s of
                     None \<Rightarrow> Some e
                   | Some s \<Rightarrow>
                       if fl AND H_INTERACTIVE = 0 then
                         env_printf ''*** Warning - %s, using default environment\<newline>\<newline>'' [VStr (Some s)] e
                       else Some (env_puts s e));
             (r, e) \<leftarrow> env_import_text cfg (default_environment cfg) (length (default_environment cfg)) fl [] e;
             e \<leftarrow> (if r = 0 then
                     pr_err cfg ''## Error: Environment import failed: errno = %d\<newline>'' [VInt (errno_code (errno (ht e)))] e
                   else Some e);
             Some (e\<lparr>GD_FLG_ENV_READY := True, GD_FLG_ENV_DEFAULT := True\<rparr>) })"

definition env_set_default_vars :: "env_cfg \<Rightarrow> string list \<Rightarrow> u32 \<Rightarrow> env_sys \<Rightarrow> (nat \<times> env_sys) option" where
  "env_set_default_vars cfg vars fl e =
     env_import_text cfg (default_environment cfg) (length (default_environment cfg)) (fl OR H_NOCLEAR) vars e"

text \<open>An environment in storage, and the checksum of its data at an address in memory.\<close>

record env_t =
  crc :: u32
  serial :: u8
  env_data :: string

definition env_crc :: "u32 \<Rightarrow> string \<Rightarrow> u32" where
  "env_crc addr d = crc32 0 addr (map of_char d)"

definition env_import :: "env_cfg \<Rightarrow> u32 \<Rightarrow> env_t \<Rightarrow> bool \<Rightarrow> env_sys \<Rightarrow> (int \<times> env_sys) option" where
  "env_import cfg addr ep check e =
     (if length (env_data ep) \<noteq> ENV_SIZE cfg then None
      else if check \<and> env_crc addr (env_data ep) \<noteq> crc ep then
        fail_with (- ENOMSG) (env_set_default cfg (Some ''bad CRC'') 0 e)
      else
        do { (r, e) \<leftarrow> env_import_text cfg (env_data ep) (ENV_SIZE cfg) 0 [] e;
             if r \<noteq> 0 then Some (0, e\<lparr>GD_FLG_ENV_READY := True\<rparr>)
             else do { e \<leftarrow> pr_err cfg ''Cannot import environment: errno = %d\<newline>''
                              [VInt (errno_code (errno (ht e)))] e;
                       fail_with (- EIO) (env_set_default cfg (Some ''import failed'') 0 e) } })"

text \<open>The choice between two copies whose checksums are right, by their serial numbers.\<close>

definition newer_env :: "u8 \<Rightarrow> u8 \<Rightarrow> env_valid_t" where
  "newer_env flags1 flags2 =
     (if flags1 = 255 \<and> flags2 = 0 then ENV_REDUND
      else if flags2 = 255 \<and> flags1 = 0 then ENV_VALID
      else if flags1 > flags2 then ENV_VALID
      else if flags2 > flags1 then ENV_REDUND
      else ENV_VALID)"

text \<open>\<open>None\<close> is a copy that could not be read.\<close>

definition env_import_redund ::
  "env_cfg \<Rightarrow> u32 \<Rightarrow> env_t option \<Rightarrow> env_t option \<Rightarrow> env_sys \<Rightarrow> (int \<times> env_sys) option" where
  "env_import_redund cfg addr buf1 buf2 e =
     (case (buf1, buf2) of
        (None, None) \<Rightarrow>
          fail_with (- EIO) (env_set_default cfg (Some ''bad env area'') 0
            (env_puts ''*** Error - No Valid Environment Area found\<newline>'' e))
      | (Some ep, None) \<Rightarrow>
          env_import cfg addr ep True
            (env_puts ''*** Warning - some problems detected reading environment; recovered successfully\<newline>''
              e\<lparr>env_valid := ENV_VALID\<rparr>)
      | (None, Some ep) \<Rightarrow>
          env_import cfg addr ep True
            (env_puts ''*** Warning - some problems detected reading environment; recovered successfully\<newline>''
              e\<lparr>env_valid := ENV_REDUND\<rparr>)
      | (Some ep1, Some ep2) \<Rightarrow>
          if length (env_data ep1) \<noteq> ENV_SIZE cfg \<or> length (env_data ep2) \<noteq> ENV_SIZE cfg then None
          else
            let crc1_ok = (env_crc addr (env_data ep1) = crc ep1);
                crc2_ok = (env_crc addr (env_data ep2) = crc ep2)
            in
            if \<not> crc1_ok \<and> \<not> crc2_ok then
              fail_with (- ENOMSG) (env_set_default cfg (Some ''bad CRC'') 0 e)
            else
              let valid = (if crc1_ok \<and> \<not> crc2_ok then ENV_VALID
                           else if \<not> crc1_ok \<and> crc2_ok then ENV_REDUND
                           else newer_env (serial ep1) (serial ep2));
                  ep = (if valid = ENV_VALID then ep1 else ep2)
              in env_import cfg addr ep False (e\<lparr>env_valid := valid, env_flags_serial := serial ep\<rparr>))"

text \<open>
  \<open>env_export\<close>, with the serial number of the redundant environment. On an error the data may have
  been changed, the checksum has not.
\<close>

definition env_export :: "env_cfg \<Rightarrow> u32 \<Rightarrow> env_t \<Rightarrow> env_sys \<Rightarrow> (int \<times> env_t \<times> env_sys) option" where
  "env_export cfg addr env_out e =
     do { (len, res, st) \<leftarrow> hexport_r NUL 0 (Some (env_data env_out)) (ENV_SIZE cfg) [] (ht e);
          let e = e\<lparr>ht := st\<rparr>;
          let env_out = (case res of None \<Rightarrow> env_out | Some d \<Rightarrow> env_out\<lparr>env_data := d\<rparr>);
          if len < 0 then
            do { e \<leftarrow> pr_err cfg ''Cannot export environment: errno = %d\<newline>'' [VInt (errno_code (errno st))] e;
                 Some (1, env_out, e) }
          else
            let s = env_flags_serial e + 1 in
            Some (0, env_out\<lparr>crc := env_crc addr (env_data env_out), serial := s\<rparr>,
                  e\<lparr>env_flags_serial := s\<rparr>) }"

text \<open>The command that sets variables to their defaults, with the name and the help of its table entry.\<close>

definition cmd_usage :: "string \<Rightarrow> string \<Rightarrow> string option \<Rightarrow> env_sys \<Rightarrow> (int \<times> env_sys) option" where
  "cmd_usage name usage hlp e =
     do { e \<leftarrow> env_printf ''%s - %s\<newline>\<newline>'' [VStr (Some name), VStr (Some usage)] e;
          e \<leftarrow> env_printf ''Usage:\<newline>%s '' [VStr (Some name)] e;
          Some (1, env_puts (case hlp of None \<Rightarrow> ''- No additional help available.\<newline>''
                             | Some h \<Rightarrow> h @ ''\<newline>'') e) }"

primrec default_options :: "string list \<Rightarrow> bool \<Rightarrow> u32 \<Rightarrow> (string list \<times> bool \<times> u32) option" where
  "default_options [] all env_flag = Some ([], all, env_flag)"
| "default_options (arg # args) all env_flag =
     (if ch_at arg 0 \<noteq> CHR ''-'' then Some (arg # args, all, env_flag)
      else if list_all (\<lambda>c. c = CHR ''a'' \<or> c = CHR ''f'') (drop 1 arg) then
        default_options args (all \<or> CHR ''a'' \<in> set (drop 1 arg))
          (if CHR ''f'' \<in> set (drop 1 arg) then env_flag OR H_FORCE else env_flag)
      else None)"

definition do_env_default ::
  "env_cfg \<Rightarrow> string \<Rightarrow> string \<Rightarrow> string option \<Rightarrow> string list \<Rightarrow> env_sys \<Rightarrow> (int \<times> env_sys) option" where
  "do_env_default cfg name usage hlp argv e =
     (case default_options (drop 1 argv) False H_INTERACTIVE of
        None \<Rightarrow> cmd_usage name usage hlp e
      | Some (vars, all, env_flag) \<Rightarrow>
          if all \<and> vars = [] then
            fail_with 0 (env_set_default cfg (Some ''## Resetting to default environment\<newline>'') env_flag e)
          else if \<not> all \<and> vars \<noteq> [] then
            do { (_, e) \<leftarrow> env_set_default_vars cfg vars env_flag e; Some (0, e) }
          else cmd_usage name usage hlp e)"

subsection \<open>Information and completion\<close>

definition env_valid_name :: "env_valid_t \<Rightarrow> string" where
  "env_valid_name v = (case v of ENV_INVALID \<Rightarrow> ''invalid'' | ENV_VALID \<Rightarrow> ''valid'' | ENV_REDUND \<Rightarrow> ''redundant'')"

definition print_env_info :: "env_sys \<Rightarrow> (int \<times> env_sys) option" where
  "print_env_info e =
     do { e \<leftarrow> env_printf ''env_valid = %s\<newline>'' [VStr (Some (env_valid_name (env_valid e)))] e;
          e \<leftarrow> env_printf ''env_ready = %s\<newline>'' [VStr (Some (if GD_FLG_ENV_READY e then ''true'' else ''false''))] e;
          e \<leftarrow> env_printf ''env_use_default = %s\<newline>''
                [VStr (Some (if GD_FLG_ENV_DEFAULT e then ''true'' else ''false''))] e;
          Some (0, e) }"

text \<open>The options \<open>-d\<close> and \<open>-p\<close>, in any number and order in front of the other arguments.\<close>

primrec info_options :: "string list \<Rightarrow> bool \<Rightarrow> bool \<Rightarrow> (bool \<times> bool) option" where
  "info_options [] d p = Some (d, p)"
| "info_options (arg # args) d p =
     (if ch_at arg 0 \<noteq> CHR ''-'' then Some (d, p)
      else if list_all (\<lambda>c. c = CHR ''d'' \<or> c = CHR ''p'') (drop 1 arg) then
        info_options args (d \<or> CHR ''d'' \<in> set (drop 1 arg)) (p \<or> CHR ''p'' \<in> set (drop 1 arg))
      else None)"

definition do_env_info :: "env_cfg \<Rightarrow> string list \<Rightarrow> env_sys \<Rightarrow> (int \<times> env_sys) option" where
  "do_env_info cfg argv e =
     (if length argv \<le> 1 then print_env_info e
      else case info_options (drop 1 argv) False False of
        None \<Rightarrow> Some (CMD_USAGE, e)
      | Some (d, p) \<Rightarrow>
          let e = (if d then env_puts (if GD_FLG_ENV_DEFAULT e then ''Default environment is used\<newline>''
                                       else ''Environment was loaded from persistent storage\<newline>'') e else e);
              e = (if p then env_puts (if env_can_save cfg then ''Environment can be persisted\<newline>''
                                       else ''Environment cannot be persisted\<newline>'') e else e)
          in Some (if (d \<longrightarrow> GD_FLG_ENV_DEFAULT e) \<and> (p \<longrightarrow> env_can_save cfg) then 0 else 1, e))"

lemma hmatch_loop_in: "hmatch_loop m is st = Some (Some i) \<Longrightarrow> i \<in> set is"
  by (induction "is") (auto split: option.splits if_splits)

lemma hmatch_r_after: "hmatch_r m i st = Some (j, ep, st') \<Longrightarrow> j \<noteq> 0 \<Longrightarrow> i < j \<and> j < ht_size st \<and> st' = st"
  using hmatch_loop_in [of m "[i + 1..<ht_size st]" st j]
  by (auto simp: hmatch_r_def simp del: upt_Suc split: option.splits)

text \<open>
  The loop of \<open>env_complete\<close>: the completions found so far and what is left of the buffer. The result is
  whether it stopped for lack of room, the completions and the state.
\<close>

function complete_loop ::
  "string \<Rightarrow> int \<Rightarrow> bool \<Rightarrow> nat \<Rightarrow> string list \<Rightarrow> int \<Rightarrow> hstate \<Rightarrow> (bool \<times> string list \<times> hstate) option" where
  "complete_loop var maxv dollar idx found bufsz st =
     (case hmatch_r var idx st of
        None \<Rightarrow> None
      | Some (idx', _, st') \<Rightarrow>
          if idx' = 0 then Some (False, found, st')
          else case Option.bind (node st' idx') (\<lambda>nd. key (entry nd)) of
            None \<Rightarrow> None
          | Some k \<Rightarrow>
              if int (length found) \<ge> maxv - 2 \<or> bufsz < int (strlen k) + 1 + (if dollar then 3 else 0) then
                Some (True, found, st')
              else complete_loop var maxv dollar idx' (found @ [if dollar then ''${'' @ k @ ''}'' else k])
                     (bufsz - (int (strlen k) + 1 + (if dollar then 3 else 0))) st')"
  by auto
termination
  by (relation "measure (\<lambda>(var, maxv, dollar, idx, found, bufsz, st). ht_size st - idx)")
    (auto dest!: hmatch_r_after)

declare complete_loop.simps [simp del]

definition env_complete :: "string \<Rightarrow> int \<Rightarrow> int \<Rightarrow> bool \<Rightarrow> hstate \<Rightarrow> (string list \<times> hstate) option" where
  "env_complete var maxv bufsz dollar_comp st =
     (if dollar_comp \<and> (ch_at var 0 \<noteq> CHR ''$'' \<or> ch_at var 1 \<noteq> CHR ''{'' \<and> ch_at var 1 \<noteq> NUL) then Some ([], st)
      else
        let var = (if dollar_comp then if ch_at var 1 = CHR ''{'' then drop 2 var else drop 1 var else var) in
        do { (full, found, st) \<leftarrow> complete_loop var maxv dollar_comp 0 [] bufsz st;
             let found = qsort strcmp_compar found;
             Some (if full then found @ [if dollar_comp then ''${...}'' else ''...''] else found, st) })"

lemma strlen_append_le: "strlen (s @ t) \<le> strlen s + strlen t"
  by (induction s) auto

text \<open>The completions and their terminators fit into the buffer, and the array has room for two more pointers.\<close>

lemma complete_loop_bounds:
  assumes "complete_loop var maxv dollar idx found bufsz st = Some (full, found', st')"
    "0 \<le> bufsz" "int (length found) \<le> max 0 (maxv - 2)"
  shows "int (length found') \<le> max 0 (maxv - 2) \<and>
     int (sum_list (map (\<lambda>s. strlen s + 1) found')) \<le> int (sum_list (map (\<lambda>s. strlen s + 1) found)) + bufsz"
  using assms
proof (induction var maxv dollar idx found bufsz st rule: complete_loop.induct)
  case (1 var maxv dollar idx found bufsz st)
  obtain idx' ep st1 where m: "hmatch_r var idx st = Some (idx', ep, st1)"
    using 1(2) by (subst (asm) complete_loop.simps) (auto split: option.splits)
  show ?case
  proof (cases "idx' = 0")
    case True
    then show ?thesis using 1(2-4) m by (subst (asm) complete_loop.simps) auto
  next
    case False
    obtain k where k: "Option.bind (node st1 idx') (\<lambda>nd. key (entry nd)) = Some k"
      using 1(2) m False
      by (subst (asm) complete_loop.simps) (cases "Option.bind (node st1 idx') (\<lambda>nd. key (entry nd))", auto)
    let ?need = "int (strlen k) + 1 + (if dollar then 3 else 0)"
    let ?s = "if dollar then ''${'' @ k @ ''}'' else k"
    show ?thesis
    proof (cases "int (length found) \<ge> maxv - 2 \<or> bufsz < ?need")
      case True
      then have "complete_loop var maxv dollar idx found bufsz st = Some (True, found, st1)"
        by (subst complete_loop.simps) (use m False k in simp)
      then show ?thesis using 1(2-4) by simp
    next
      case room: False
      then have step: "complete_loop var maxv dollar idx found bufsz st =
          complete_loop var maxv dollar idx' (found @ [?s]) (bufsz - ?need) st1"
        by (subst complete_loop.simps) (use m False k in simp)
      have "strlen ?s + 1 \<le> nat ?need" using strlen_append_le [of k "''}''"] by auto
      moreover have "int (length found') \<le> max 0 (maxv - 2) \<and> int (sum_list (map (\<lambda>s. strlen s + 1) found')) \<le>
          int (sum_list (map (\<lambda>s. strlen s + 1) (found @ [?s]))) + (bufsz - ?need)"
        by (rule 1(1) [OF m refl refl False k room]) (use 1(2-4) step room in auto)
      ultimately show ?thesis by (auto split: if_splits)
    qed
  qed
qed

subsection \<open>Lookups and changes on a table that is well-formed\<close>

lemma store_inv_errno [simp]: "store_inv h (st\<lparr>errno := n\<rparr>) = store_inv h st"
  by (cases "table st") (simp_all add: store_inv_def wf_htab_def permissive_def denies_def)

lemma env_find_spec:
  assumes "wf_htab (ht e)" "no_nul k"
  shows "\<exists>ep e'. env_find cfg k flag e = Some (ep, e') \<and> map_option data ep = map_option Some (env_of (ht e) k) \<and>
     (e' = e \<or> e' = e\<lparr>ht := (ht e)\<lparr>errno := Some ESRCH\<rparr>\<rparr>)"
  using hsearch_find [OF assms, of "hooks cfg" None flag]
  by (auto simp: env_find_def found_entry_def split: option.splits)

lemma env_get_spec:
  assumes "wf_htab (ht e)" "no_nul k" "GD_FLG_ENV_READY e"
  shows "map_option fst (env_get cfg k e) = Some (env_of (ht e) k)"
proof -
  obtain ep e' where ep: "env_find cfg k 0 e = Some (ep, e')"
    "map_option data ep = map_option Some (env_of (ht e) k)"
    using env_find_spec [OF assms(1,2)] by blast
  have "Option.bind ep data = env_of (ht e) k"
    using ep(2) by (cases ep; cases "env_of (ht e) k") auto
  then show ?thesis using ep(1) assms(3) by (simp add: env_get_def)
qed

lemma no_nul_join: "(\<forall>v\<in>set vals. no_nul v) \<Longrightarrow> no_nul (join_args vals)"
  by (induction vals rule: join_args.induct) auto

lemma plain_name_options:
  "ch_at name 0 \<noteq> CHR ''-'' \<Longrightarrow> force_options (name # vals) env_flag = Some (name # vals, env_flag)"
  by simp

lemma hsearch_put:
  assumes "store_inv h st" "no_nul k" "no_nul d" "k \<in> dom (env_of st) \<or> card (dom (env_of st)) < ht_size st"
  shows "\<exists>ret i st'. hsearch_r h k (Some d) ENV_ENTER flag st = Some (ret, Some i, st') \<and> store_inv h st' \<and>
     env_of st' = (env_of st)(k \<mapsto> d) \<and> ht_size st' = ht_size st"
proof -
  have wf: "wf_htab st" "allocs st = []" and perm: "permissive h st" using assms(1) by (simp_all add: store_inv_def)
  obtain ret rv st' where r: "hsearch_r h k (Some d) ENV_ENTER flag st = Some (ret, rv, st')" "wf_htab st'"
    "allocs st' = []" "change_ok st' = change_ok st" "ht_size st' = ht_size st" "rv \<noteq> None"
    "env_of st' = (env_of st)(k \<mapsto> d)"
    using hsearch_enter [OF wf(1) assms(2,3) wf(2), of h flag] assms(4) filled_card(2) [OF wf(1)] perm
    unfolding permissive_def by (metis less_irrefl)
  have "permissive h st'" using perm r(4) by (simp add: permissive_def denies_def)
  with r show ?thesis by (auto simp: store_inv_def)
qed

lemma hdelete_del:
  assumes "store_inv h st" "no_nul k"
  shows "\<exists>ret st'. hdelete_r h k flag st = Some (ret, st') \<and> (k \<in> dom (env_of st) \<longrightarrow> ret = 1) \<and> store_inv h st' \<and>
     env_of st' = (env_of st)(k := None) \<and> ht_size st' = ht_size st"
proof -
  have wf: "wf_htab st" "allocs st = []" and perm: "permissive h st" using assms(1) by (simp_all add: store_inv_def)
  obtain ret st' where r: "hdelete_r h k flag st = Some (ret, st')" "wf_htab st'" "allocs st' = allocs st"
    "change_ok st' = change_ok st" "ht_size st' = ht_size st"
    "env_of st' = env_of st \<and> k \<notin> dom (env_of st) \<or> ret = 1 \<and> env_of st' = (env_of st)(k := None)"
    using hdelete_spec [OF wf(1) assms(2), of h flag] perm unfolding permissive_def by metis
  have "permissive h st'" using perm r(4) by (simp add: permissive_def denies_def)
  then have "store_inv h st'" using r wf(2) by (simp add: store_inv_def)
  moreover have "env_of st' = (env_of st)(k := None)" "k \<in> dom (env_of st) \<longrightarrow> ret = 1"
    using r(6) by (auto simp: fun_eq_iff domIff)
  ultimately show ?thesis using r(1,5) by blast
qed

text \<open>What \<open>setenv\<close> does, for a plain name: with values the name is set to them, without it is deleted.\<close>

definition setenv_value :: "string list \<Rightarrow> string option" where
  "setenv_value vals = (if vals = [] then None else Some (join_args vals))"

lemma do_env_set0_spec:
  assumes inv: "store_inv (hooks cfg) (ht e)"
    and nm: "no_nul name" "ch_at name 0 \<noteq> CHR ''-''" "strchr name (CHR ''='') = None"
    and vals: "\<forall>v\<in>set vals. no_nul v"
    and room: "name \<in> dom (env_of (ht e)) \<or> vals \<noteq> [] \<and> card (dom (env_of (ht e))) < ht_size (ht e)"
  shows "\<exists>st. do_env_set0 cfg (c # name # vals) flag e = Some (0, e\<lparr>env_id := env_id e + 1, ht := st\<rparr>) \<and>
     store_inv (hooks cfg) st \<and> ht_size st = ht_size (ht e) \<and>
     env_of st = (env_of (ht e))(name := setenv_value vals)"
proof (cases "vals = []")
  case True
  then show ?thesis
    using hdelete_del [OF inv nm(1), of flag] room nm
    by (auto simp: do_env_set0_def setenv_value_def)
next
  case False
  have a: "alloc (ht e) = (True, ht e)" using inv by (simp add: alloc_def store_inv_def)
  show ?thesis
    using hsearch_put [OF inv nm(1) no_nul_join [OF vals], of flag] room nm False a
    by (auto simp: do_env_set0_def setenv_value_def enter_value_def)
qed

text \<open>
  (C37) \<open>setenv\<close> and \<open>env_get\<close> agree: on a table with room, with hooks that allow the change, \<open>setenv name v1 ... vn\<close>
  for a plain name succeeds; then \<open>env_get\<close> finds under the name the values joined by blanks, or nothing when
  there were none, and under every other name what it found before.
\<close>

theorem setenv_getenv:
  assumes inv: "store_inv (hooks cfg) (ht e)" "GD_FLG_ENV_READY e"
    and nm: "no_nul name" "ch_at name 0 \<noteq> CHR ''-''" "strchr name (CHR ''='') = None"
    and vals: "\<forall>v\<in>set vals. no_nul v"
    and room: "name \<in> dom (env_of (ht e)) \<or> vals \<noteq> [] \<and> card (dom (env_of (ht e))) < ht_size (ht e)"
  shows "\<exists>e'. do_env_set cfg (c # name # vals) e = Some (0, e') \<and> store_inv (hooks cfg) (ht e') \<and>
     map_option fst (env_get cfg name e') = Some (if vals = [] then None else Some (join_args vals)) \<and>
     (\<forall>k. no_nul k \<longrightarrow> k \<noteq> name \<longrightarrow>
        map_option fst (env_get cfg k e') = map_option fst (env_get cfg k e))"
proof -
  obtain st where st: "do_env_set0 cfg (c # name # vals) H_INTERACTIVE e = Some (0, e\<lparr>env_id := env_id e + 1, ht := st\<rparr>)"
    "store_inv (hooks cfg) st" "env_of st = (env_of (ht e))(name := setenv_value vals)"
    using do_env_set0_spec [OF inv(1) nm vals room] by blast
  let ?e = "e\<lparr>env_id := env_id e + 1, ht := st\<rparr>"
  have get: "map_option fst (env_get cfg k ?e) = Some (env_of st k)" if "no_nul k" for k
    using env_get_spec [of ?e k] that st(2) inv(2) by (simp add: store_inv_def)
  have old: "map_option fst (env_get cfg k e) = Some (env_of (ht e) k)" if "no_nul k" for k
    using env_get_spec [of e k] that inv by (simp add: store_inv_def)
  have "map_option fst (env_get cfg name ?e) = Some (if vals = [] then None else Some (join_args vals))"
    unfolding get [OF nm(1)] st(3) by (simp add: setenv_value_def)
  moreover have "map_option fst (env_get cfg k ?e) = map_option fst (env_get cfg k e)" if "no_nul k" "k \<noteq> name" for k
    unfolding get [OF that(1)] old [OF that(1)] st(3) using that(2) by simp
  moreover have "do_env_set cfg (c # name # vals) e = Some (0, ?e)" using st(1) by (simp add: do_env_set_def)
  moreover have "store_inv (hooks cfg) (ht ?e)" using st(2) by simp
  ultimately show ?thesis by blast
qed

definition demo_cfg :: env_cfg where
  "demo_cfg = \<lparr>hooks = demo_hooks, env_get_char = (\<lambda>_. 0), CONFIG_ENV_SIZE = 24, ENV_SIZE = 19,
     default_environment = [NUL, NUL], CONFIG_LOGLEVEL = 3, env_can_save = True\<rparr>"

definition demo_env :: env_sys where
  "demo_env = \<lparr>ht = demo_table, env_id = 1, env_valid = ENV_VALID, GD_FLG_ENV_READY = True,
     GD_FLG_ENV_DEFAULT = False, env_flags_serial = 255\<rparr>"

theorem setenv_getenv_witness:
  "\<exists>e'. do_env_set demo_cfg [''setenv'', ''bootcmd'', ''boarddiag'', ''runall''] demo_env = Some (0, e') \<and>
     map_option fst (env_get demo_cfg ''bootcmd'' e') = Some (Some ''boarddiag runall'')"
proof -
  have "card (dom (env_of demo_table)) < ht_size demo_table"
    by (simp add: demo_table_inv(2)) (simp add: demo_table_def)
  then show ?thesis
    using setenv_getenv [of demo_cfg demo_env "''bootcmd''" "[''boarddiag'', ''runall'']" "''setenv''"] demo_table_inv(1)
    by (auto simp: demo_cfg_def demo_env_def)
qed

lemma env_crc_addr: "env_crc addr d = env_crc addr' d"
  unfolding env_crc_def by (rule crc32_addr)

lemma env_crc_change: "x \<noteq> y \<Longrightarrow> env_crc addr (a @ x # b) \<noteq> env_crc addr (a @ y # b)"
  unfolding env_crc_def using crc32_byte_change [of "of_char x" "of_char y"] by (simp add: byte_of_inject)

lemma newer_env_succ: "newer_env n (n + 1) = ENV_REDUND" "newer_env (n + 1) n = ENV_VALID"
proof -
  have u: "unat (n + 1) = (if n = 255 then 0 else unat n + 1)"
  proof (cases "n = 255")
    case False
    moreover have "n = 255" if "n + 1 = 0" using that eq_neg_iff_add_eq_0 [of n 1] by simp
    ultimately have "n + 1 \<noteq> 0" by blast
    then show ?thesis using False unatSuc [of n] by (simp add: add.commute)
  qed simp
  show "newer_env n (n + 1) = ENV_REDUND" "newer_env (n + 1) n = ENV_VALID"
  proof -
    have lt: "n + 1 = 0 \<and> n = 255 \<or> n \<noteq> 255 \<and> n + 1 \<noteq> 0 \<and> n < n + 1"
      using u by (cases "n = 255") (auto simp: word_less_nat_alt)
    then show "newer_env n (n + 1) = ENV_REDUND" by (auto simp: newer_env_def)
    from lt show "newer_env (n + 1) n = ENV_VALID" by (auto simp: newer_env_def)
  qed
qed

lemma put_chars_length: "put_chars cs p res = Some res' \<Longrightarrow> length res' = length res"
  by (induction cs arbitrary: p res) (auto simp: store_def split: option.splits if_splits)

lemma hexport_length:
  assumes "hexport_r sep flag (Some buf) n argv st = Some (len, res, st')" "0 \<le> len"
  shows "\<exists>d. res = Some d \<and> length d = length buf"
proof -
  obtain es totlen st1 where sc: "export_scan sep flag argv [1..<Suc (ht_size st)] st = Some (es, totlen, st1)"
    using assms(1) unfolding hexport_r_def by (cases "export_scan sep flag argv [1..<Suc (ht_size st)] st") auto
  let ?n = "if n \<noteq> 0 then n else totlen + 1"
  have fit: "\<not> (n \<noteq> 0 \<and> n < totlen + 1)" using assms unfolding hexport_r_def sc Let_def by (auto split: if_splits)
  have le: "?n \<le> length buf"
    using assms(1) unfolding hexport_r_def sc Let_def export_buffer_def if_not_P [OF fit] option.case prod.case
    by (rule contrapos_pp) simp
  obtain d where "put_chars (concat (map (export_line sep) (qsort cmpkey es)) @ [NUL]) 0 (replicate ?n NUL @ drop ?n buf) = Some d"
    "res = Some d"
    using assms(1) unfolding hexport_r_def sc Let_def export_buffer_def if_not_P [OF fit] if_P [OF le] option.case prod.case sum.case
    by (auto split: option.splits)
  then show ?thesis using put_chars_length le by fastforce
qed

lemma env_export_ok:
  assumes "env_export cfg addr out e = Some (0, new, e')"
  shows "serial new = env_flags_serial e + 1" "crc new = env_crc addr (env_data new)"
    "length (env_data new) = length (env_data out)"
proof -
  obtain len res st where h: "hexport_r NUL 0 (Some (env_data out)) (ENV_SIZE cfg) [] (ht e) = Some (len, res, st)"
    using assms unfolding env_export_def by (cases "hexport_r NUL 0 (Some (env_data out)) (ENV_SIZE cfg) [] (ht e)") auto
  have len: "\<not> len < 0" using assms unfolding env_export_def h by (auto simp: Let_def split: bind_splits)
  then obtain d where d: "res = Some d" "length d = length (env_data out)" using hexport_length [OF h] by auto
  have "new = out\<lparr>env_data := d, crc := env_crc addr d, serial := env_flags_serial e + 1\<rparr>"
    using assms len unfolding env_export_def h d(1) by (auto simp: Let_def)
  then show "serial new = env_flags_serial e + 1" "crc new = env_crc addr (env_data new)"
    "length (env_data new) = length (env_data out)" using d(2) by simp_all
qed

text \<open>
  (C38) A damaged environment is never loaded. When one byte of the stored data differs from the data the stored
  checksum was computed for, \<open>env_import\<close> does with it exactly what it does for \<open>bad CRC\<close>: it sets the default
  environment and returns \<open>-ENOMSG\<close>. With a second copy whose checksum is right, \<open>env_import_redund\<close> loads that
  copy, whichever of the two places the damaged one is in and whatever the serial numbers are.
\<close>

theorem damaged_env_refused:
  assumes dmg: "crc bad = env_crc addr' (a @ x # b)" "env_data bad = a @ y # b" "x \<noteq> y"
    and ok: "crc good = env_crc addr' (env_data good)"
    and len: "length (env_data bad) = ENV_SIZE cfg" "length (env_data good) = ENV_SIZE cfg"
  shows "env_import cfg addr bad True e =
       map_option (Pair (- ENOMSG)) (env_set_default cfg (Some ''bad CRC'') 0 e) \<and>
     env_import_redund cfg addr (Some bad) (Some good) e =
       env_import cfg addr good False (e\<lparr>env_valid := ENV_REDUND, env_flags_serial := serial good\<rparr>) \<and>
     env_import_redund cfg addr (Some good) (Some bad) e =
       env_import cfg addr good False (e\<lparr>env_valid := ENV_VALID, env_flags_serial := serial good\<rparr>)"
proof -
  have "env_crc addr (env_data bad) \<noteq> crc bad" "env_crc addr (env_data good) = crc good"
    using env_crc_change [OF dmg(3)] env_crc_addr dmg ok by metis+
  then show ?thesis using len by (simp add: env_import_def env_import_redund_def fail_with_def)
qed

definition demo_copy :: "u8 \<Rightarrow> env_t" where
  "demo_copy n = \<lparr>crc = env_crc 0 (''ipaddr=10.0.0.2'' @ replicate 4 NUL), serial = n,
     env_data = ''ipaddr=10.0.0.2'' @ replicate 4 NUL\<rparr>"

theorem damaged_env_refused_witness:
  "env_import_redund demo_cfg 8 (Some ((demo_copy 7)\<lparr>env_data := ''ipaddr=10.0.0.3'' @ replicate 4 NUL\<rparr>))
     (Some (demo_copy 6)) demo_env =
   env_import demo_cfg 8 (demo_copy 6) False (demo_env\<lparr>env_valid := ENV_REDUND, env_flags_serial := 6\<rparr>)"
  using damaged_env_refused [of "(demo_copy 7)\<lparr>env_data := ''ipaddr=10.0.0.3'' @ replicate 4 NUL\<rparr>" 0
      "''ipaddr=10.0.0.''" "CHR ''2''" "replicate 4 NUL" "CHR ''3''" "demo_copy 6" demo_cfg 8 demo_env]
  by (simp add: demo_copy_def demo_cfg_def)

text \<open>
  (C39) The newest copy is the one that is loaded. A copy that \<open>env_export\<close> wrote, with the serial number after that of
  the other copy (which wraps from 255 to 0), is taken by \<open>env_import_redund\<close> in both orders of the two places, and
  its serial number becomes the current one. The checksum it carries is the one of its data.
\<close>

theorem newest_copy_loaded:
  assumes exp: "env_export cfg addr out e = Some (0, new, e')" and old: "serial old = env_flags_serial e"
    and ok: "crc old = env_crc addr (env_data old)"
    and len: "length (env_data out) = ENV_SIZE cfg" "length (env_data old) = ENV_SIZE cfg"
  shows "env_import_redund cfg addr' (Some old) (Some new) s =
       env_import cfg addr' new False (s\<lparr>env_valid := ENV_REDUND, env_flags_serial := env_flags_serial e + 1\<rparr>) \<and>
     env_import_redund cfg addr' (Some new) (Some old) s =
       env_import cfg addr' new False (s\<lparr>env_valid := ENV_VALID, env_flags_serial := env_flags_serial e + 1\<rparr>) \<and>
     crc new = env_crc addr (env_data new)"
proof -
  have new: "serial new = env_flags_serial e + 1" "crc new = env_crc addr (env_data new)" "length (env_data new) = ENV_SIZE cfg"
    using env_export_ok [OF exp] len(1) by simp_all
  have "newer_env (serial old) (serial new) = ENV_REDUND" "newer_env (serial new) (serial old) = ENV_VALID"
    unfolding old new(1) by (rule newer_env_succ)+
  then show ?thesis using new ok len env_crc_addr [of addr'] by (simp add: env_import_redund_def Let_def)
qed

theorem newest_copy_loaded_witness:
  "\<exists>new e'. env_export demo_cfg 0 (demo_copy 3) demo_env = Some (0, new, e') \<and> serial new = 0 \<and>
     env_import_redund demo_cfg 8 (Some (demo_copy 255)) (Some new) demo_env =
     env_import demo_cfg 8 new False (demo_env\<lparr>env_valid := ENV_REDUND, env_flags_serial := 0\<rparr>)"
proof -
  have "wf_htab demo_table" using demo_table_inv(1) by (simp add: store_inv_def)
  moreover have "env_pairs demo_table = []" by (simp add: env_pairs_def demo_table_def live_def free_node_def)
  ultimately have "export_scan NUL 0 [] [1..<Suc (ht_size demo_table)] demo_table = Some ([], 0, demo_table)"
    using export_scan_wf by simp
  then obtain new e' where ex: "env_export demo_cfg 0 (demo_copy 3) demo_env = Some (0, new, e')"
    by (simp add: env_export_def hexport_r_def export_buffer_def demo_cfg_def demo_env_def demo_copy_def
        qsort_def store_def Let_def)
  have "serial new = 0" using env_export_ok(1) [OF ex] by (simp add: demo_env_def)
  moreover have "env_import_redund demo_cfg 8 (Some (demo_copy 255)) (Some new) demo_env =
     env_import demo_cfg 8 new False (demo_env\<lparr>env_valid := ENV_REDUND, env_flags_serial := env_flags_serial demo_env + 1\<rparr>)"
    using newest_copy_loaded [OF ex, of "demo_copy 255" 8 demo_env] by (simp add: demo_copy_def demo_cfg_def demo_env_def)
  moreover have "env_flags_serial demo_env + 1 = 0" by (simp add: demo_env_def)
  ultimately show ?thesis using ex by (intro exI [of _ new] exI [of _ e']) simp
qed

end
