(* ===== verification/Spec2Isabelle.thy ===== *)
theory Spec2Isabelle
  imports BoardDiag EnvText I2cProbe I2cChip Platforms Crc32 NvEdit
begin

text \<open>
  Verification of eBBTF, the bare-metal board diagnostics that live inside U-Boot.

  \<^bold>\<open>The program.\<close> \<^verbatim>\<open>src/test-framework\<close> adds one command, \<open>boarddiag\<close>, to the U-Boot of
  \<^verbatim>\<open>src/u-boot\<close>. A platform file registers tests; the runner calls them with their arguments and keeps
  counts; a test talks to its device and reports events; the log prints them. All of this runs on the C
  library of U-Boot: formatted output, number parsing, strings, sorting and the hash table that holds
  the environment. The targets are 32-bit ARM boards, so \<open>int\<close> and \<open>long\<close> are 32-bit words and
  \<open>char\<close> is unsigned.

  \<^bold>\<open>Conventions\<close> (theory \<open>Ebbtf_Prelude\<close>). A C string is the list of its characters before the NUL, a
  pointer into it a suffix. Fallible code returns an option or a sum. Undefined behaviour is \<open>None\<close> in
  pure functions and the flag \<open>ub\<close> of the \<open>io\<close> record in functions that print or touch hardware. A loop
  that need not end is a \<open>partial_function\<close> whose \<open>None\<close> is the run that does not return. Hardware,
  drivers and allocators are parameters of the definitions that use them; what a theorem needs of them
  is a named hypothesis, and a witness instantiates it.
\<close>

text \<open>
  \<^bold>\<open>The C library.\<close>
  \<^item> \<open>Ctype\<close> and \<open>Strto\<close>: \<^verbatim>\<open>lib/ctype.c\<close>, \<^verbatim>\<open>lib/strto.c\<close>. The lemmas give the value of a parsed number
    modulo the word width and the rest of the string.
  \<^item> \<open>Vsprintf\<close> and \<open>Decimal\<close>: \<^verbatim>\<open>lib/vsprintf.c\<close>. \<open>emit\<close> is the text a format produces; the lemmas show that
    \<open>vsnprintf\<close> truncates it to its buffer, when \<open>sprintf\<close> overflows, and that printed numbers parse back.
    Only the pointer formats that need network or device structures are missing.
  \<^item> \<open>Cstring\<close>: \<^verbatim>\<open>lib/string.c\<close>. The word-wise loops equal bytewise ones; overlapping moves, searches and
    bounded copies do what their names say.
  \<^item> \<open>Qsort\<close>: \<^verbatim>\<open>lib/qsort.c\<close>. The locale \<open>comparison\<close> is the contract of the comparison function; Shell sort
    returns a sorted permutation for every interpretation, one of which is \<open>strcmp\<close>.
  \<^item> \<open>Hashtable\<close>, \<open>EnvStore\<close>, \<open>EnvText\<close>: \<^verbatim>\<open>lib/hashtable.c\<close>. The probe sequence of a table of prime size visits
    every slot once, so the recursion of a search is bounded by the size. \<open>env_of\<close> abstracts a table to a map;
    the locale \<open>string_store\<close> is the contract of a store of strings, and searching, inserting and
    deleting refine it. Export followed by import gives the same map, for tables of up to 64 entries.
    Regular expressions are not compiled in.
\<close>

text \<open>
  \<^bold>\<open>The framework.\<close>
  \<^item> \<open>TestId\<close>: \<^verbatim>\<open>common/generateTestId.c\<close>, the FNV hash of a test name.
  \<^item> \<open>Eventlog\<close>: \<^verbatim>\<open>common/eventlog.c\<close>, \<^verbatim>\<open>consolelog.c\<close>, \<^verbatim>\<open>eventId.h\<close>. The record \<open>io\<close> is the console, the log settings
    and the hardware; \<open>log_step\<close> says that logging only appends to the console.
  \<^item> \<open>Diag\<close>: \<^verbatim>\<open>common/process_diagtest_cmds.c\<close>. The record \<open>diag\<close> is its global state; \<open>diag_op\<close> is the step
    relation of its operations, with the invariant \<open>diag_inv\<close>; the counts after a run are proved, and so is
    that a run with the largest loop count never ends.
  \<^item> \<open>BoardDiag\<close>: \<^verbatim>\<open>common/cmd_boarddiag.c\<close>, the command with its subcommands, on top of \<open>Diag\<close> and \<open>Strto\<close>.

  \<^bold>\<open>The tests.\<close>
  \<^item> \<open>TestIo\<close>: accesses to memory-mapped words through a bus that is a parameter, and filling events.
  \<^item> \<open>MemTests\<close>: \<^verbatim>\<open>testsuite/test_memory.c\<close>. The locale \<open>memory_bus\<close> is the contract of a word memory behind an
    address decoder; the byte memory of \<open>Cstring\<close> interprets it. The address line test passes exactly when the
    decoder tells the probed words apart, stuck lines are detected, and a working memory passes.
  \<^item> \<open>I2cUclass\<close>, \<open>I2cUtils\<close>: \<^verbatim>\<open>drivers/i2c/i2c-uclass.c\<close>, \<^verbatim>\<open>utils/i2c_utils.c\<close>, \<^verbatim>\<open>include/bcd.h\<close>. A chip is a child of
    its bus with its platform data; drivers and the core of the driver model are records of parameters.
  \<^item> \<open>I2cTests\<close>, \<open>I2cChip\<close>, \<open>I2cProbe\<close>: the probe, EEPROM, clock and power rail tests, and their verdicts on a
    chip that behaves, down to the bytes of the I2C messages.
\<close>

text \<open>
  \<^bold>\<open>Not modelled.\<close> Device drivers, the core of the driver model, file systems, the network stack, the
  boot process, board and architecture code and the rest of U-Boot: the framework only calls them, or
  does not use them at all. Generated tables and configuration have no behaviour of their own. Type
  headers only rename types.
\<close>

end
